(* ===== verification/Messenger_Prelude.thy ===== *)
theory Messenger_Prelude
  imports Main "HOL-Library.Word"
begin

text \<open>
  Shared vocabulary of the development. Strings are byte strings (\<open>string\<close>, a list of 8-bit
  characters): every \<open>std::string\<close>, \<open>std::vector<char>\<close> and \<open>char\<close> buffer of the sources is one.
  The theory holds the type synonyms, the theorem collections the component theories fill, and
  the generic facts on lists, characters and words that several components use.
\<close>

type_synonym uint32 = "32 word"
type_synonym uint16 = "16 word"

named_theorems frame_simps
  \<open>a field of the state that an operation leaves alone\<close>

named_theorems component_defs
  \<open>definitions unfolded by the proofs of their own component\<close>

subsection \<open>Characters and 32-bit words\<close>

text \<open>\<open>static_cast<unsigned char>\<close> widened to \<open>std::uint32_t\<close>, and \<open>static_cast<char>\<close> of the low byte.\<close>

definition byte_val :: "char \<Rightarrow> uint32" where
  "byte_val c = of_nat (of_char c)"

definition byte_chr :: "uint32 \<Rightarrow> char" where
  "byte_chr w = char_of (unat w)"

lemma byte_val_chr: "byte_val (byte_chr w) = of_nat (unat w mod 256)"
  by (simp add: byte_val_def byte_chr_def)

lemma unat_byte_val: "unat (byte_val c) = of_char c"
proof -
  have "(of_char c :: nat) < 4294967296"
    using nat_of_char_less_256 [of c] by linarith
  then show ?thesis
    by (simp add: byte_val_def unat_of_nat)
qed

lemma byte_chr_val [simp]: "byte_chr (byte_val c) = c"
  by (simp add: byte_chr_def unat_byte_val)

lemma byte_val_less: "unat (byte_val c) < 256"
  by (simp add: unat_byte_val)

subsection \<open>Lists\<close>

text \<open>Writing the bytes \<open>bs\<close> into a buffer at offset \<open>off\<close>, as \<open>recv\<close> does.\<close>

definition blit :: "'a list \<Rightarrow> nat \<Rightarrow> 'a list \<Rightarrow> 'a list" where
  "blit buf off bs = take off buf @ bs @ drop (off + length bs) buf"

lemma length_blit [simp]: "off + length bs \<le> length buf \<Longrightarrow> length (blit buf off bs) = length buf"
  by (simp add: blit_def)

lemma take_blit: "off + length bs \<le> length buf \<Longrightarrow> take (off + length bs) (blit buf off bs) = take off buf @ bs"
  by (simp add: blit_def)

lemma four_elems:
  assumes "length xs = 4"
  obtains a b c d where "xs = [a, b, c, d]"
  using assms by (auto simp: numeral_eq_Suc length_Suc_conv)

end
