(* ===== verification/Protocol.thy ===== *)
theory Protocol
  imports Messenger_Prelude
begin

text \<open>
  The framed protocol of \<open>libs/tcp\<close>: \<open>include/tcp/Protocol.h\<close> and \<open>src/Protocol.cpp\<close>. A frame is a
  4-byte big-endian length followed by the payload. The theory holds the header codec, the
  incremental \<open>FrameDecoder\<close>, and the blocking loops \<open>sendAll\<close>, \<open>sendFrame\<close> and \<open>receiveFrame\<close>
  over an \<open>ISocket\<close>, whose two data operations are arguments of the loops. The locale
  \<open>stream_socket\<close> states what the loops rely on; \<open>live_socket\<close> adds that a socket makes progress.
\<close>

unbundle bit_operations_syntax

subsection \<open>The header codec\<close>

definition kFrameHeaderSize :: nat where
  "kFrameHeaderSize = 4"

definition kDefaultMaxFrameSize :: nat where
  "kDefaultMaxFrameSize = 64 * 1024"

definition readBigEndian32 :: "string \<Rightarrow> uint32" where
  "readBigEndian32 data =
     (let b0 = byte_val (data ! 0);
          b1 = byte_val (data ! 1);
          b2 = byte_val (data ! 2);
          b3 = byte_val (data ! 3)
      in push_bit 24 b0 OR push_bit 16 b1 OR push_bit 8 b2 OR b3)"

definition writeBigEndian32 :: "uint32 \<Rightarrow> string" where
  "writeBigEndian32 v =
     [byte_chr (drop_bit 24 v AND 0xFF),
      byte_chr (drop_bit 16 v AND 0xFF),
      byte_chr (drop_bit 8 v AND 0xFF),
      byte_chr (v AND 0xFF)]"

text \<open>\<open>static_cast<std::uint32_t>(payload.size())\<close> is \<^term>\<open>of_nat\<close> into 32 bits: it wraps.\<close>

definition encodeFrame :: "string \<Rightarrow> string" where
  "encodeFrame payload = writeBigEndian32 (of_nat (length payload)) @ payload"

subsection \<open>The incremental decoder\<close>

datatype FrameStatus = FS_Ready | FS_NeedMoreData | FS_TooLarge | FS_Invalid

record FrameDecoder =
  dec_maxFrameSize :: nat
  dec_buffer :: string

definition mk_FrameDecoder :: "nat \<Rightarrow> FrameDecoder" where
  "mk_FrameDecoder maxFrameSize = \<lparr>dec_maxFrameSize = maxFrameSize, dec_buffer = []\<rparr>"

text \<open>\<open>append(data, length)\<close>: \<open>None\<close> is the null pointer; the bytes are \<open>data[0 .. length)\<close>.\<close>

definition dec_append :: "FrameDecoder \<Rightarrow> string option \<Rightarrow> FrameDecoder" where
  "dec_append d data =
     (case data of
        None \<Rightarrow> d
      | Some bytes \<Rightarrow> if length bytes = 0 then d else d\<lparr>dec_buffer := dec_buffer d @ bytes\<rparr>)"

definition nextFrame :: "FrameDecoder \<Rightarrow> FrameStatus \<times> string \<times> FrameDecoder" where
  "nextFrame d =
     (if length (dec_buffer d) < kFrameHeaderSize then (FS_NeedMoreData, [], d)
      else let payloadSize = readBigEndian32 (dec_buffer d)
        in if unat payloadSize > dec_maxFrameSize d then (FS_TooLarge, [], d)
        else let totalSize = kFrameHeaderSize + unat payloadSize
          in if length (dec_buffer d) < totalSize then (FS_NeedMoreData, [], d)
          else (FS_Ready,
                drop kFrameHeaderSize (take totalSize (dec_buffer d)),
                d\<lparr>dec_buffer := drop totalSize (dec_buffer d)\<rparr>))"

definition bufferedBytes :: "FrameDecoder \<Rightarrow> nat" where
  "bufferedBytes d = length (dec_buffer d)"

definition dec_clear :: "FrameDecoder \<Rightarrow> FrameDecoder" where
  "dec_clear d = d\<lparr>dec_buffer := []\<rparr>"

subsection \<open>Blocking transfer over an ISocket\<close>

text \<open>
  \<open>send s bytes\<close> is \<open>socket.send(data + sent, length - sent)\<close>: the number of bytes taken and the
  socket afterwards. \<open>recv s n\<close> is \<open>socket.receive(buffer, n)\<close>: the number returned, the bytes
  written into the buffer and the socket afterwards.
\<close>

function sendAll_loop ::
  "('s \<Rightarrow> string \<Rightarrow> nat \<times> 's) \<Rightarrow> 's \<Rightarrow> string \<Rightarrow> nat \<Rightarrow> bool \<times> 's" where
  "sendAll_loop send s data sent =
     (if sent < length data
      then (case send s (drop sent data) of (chunk, s') \<Rightarrow>
              if chunk = 0 then (False, s') else sendAll_loop send s' data (sent + chunk))
      else (True, s))"
  by pat_completeness auto
termination
  by (relation "measure (\<lambda>(send, s, data, sent). length data - sent)") auto

declare sendAll_loop.simps [simp del]

definition sendAll :: "('s \<Rightarrow> string \<Rightarrow> nat \<times> 's) \<Rightarrow> 's \<Rightarrow> string \<Rightarrow> bool \<times> 's" where
  "sendAll send s data = sendAll_loop send s data 0"

definition sendFrame :: "('s \<Rightarrow> string \<Rightarrow> nat \<times> 's) \<Rightarrow> 's \<Rightarrow> string \<Rightarrow> nat \<Rightarrow> bool \<times> 's" where
  "sendFrame send s payload maxFrameSize =
     (if length payload > maxFrameSize then (False, s)
      else sendAll send s (encodeFrame payload))"

datatype ReceiveFrameStatus = RF_Ok | RF_Closed | RF_Error | RF_TooLarge | RF_Invalid

text \<open>
  The two \<open>while (received < size)\<close> loops of \<open>receiveFrame\<close>: fill \<open>buf\<close> up to \<open>size\<close> bytes from
  offset \<open>received\<close>; the loop stops short of \<open>size\<close> exactly when a read returned 0.
\<close>

function receive_loop ::
  "('s \<Rightarrow> nat \<Rightarrow> nat \<times> string \<times> 's) \<Rightarrow> 's \<Rightarrow> string \<Rightarrow> nat \<Rightarrow> nat \<Rightarrow> nat \<times> string \<times> 's" where
  "receive_loop recv s buf len received =
     (if received < len
      then (case recv s (len - received) of (n, bytes, s') \<Rightarrow>
              if n = 0 then (received, buf, s')
              else receive_loop recv s' (blit buf received bytes) len (received + n))
      else (received, buf, s))"
  by pat_completeness auto
termination
  by (relation "measure (\<lambda>(recv, s, buf, len, received). len - received)") auto

declare receive_loop.simps [simp del]

definition receiveFrame ::
  "('s \<Rightarrow> nat \<Rightarrow> nat \<times> string \<times> 's) \<Rightarrow> 's \<Rightarrow> nat \<Rightarrow> ReceiveFrameStatus \<times> string \<times> 's" where
  "receiveFrame recv s maxFrameSize =
     (case receive_loop recv s (replicate kFrameHeaderSize (CHR 0x00)) kFrameHeaderSize 0 of
        (received, header, s1) \<Rightarrow>
          if received < kFrameHeaderSize
          then ((if received = 0 then RF_Closed else RF_Error), [], s1)
          else let payloadSize = readBigEndian32 header
            in if unat payloadSize > maxFrameSize then (RF_TooLarge, [], s1)
            else (case receive_loop recv s1 (replicate (unat payloadSize) (CHR 0x00)) (unat payloadSize) 0 of
                    (received', payload, s2) \<Rightarrow>
                      if received' < unat payloadSize then (RF_Error, payload, s2)
                      else (RF_Ok, payload, s2)))"

subsection \<open>Header round trips\<close>

lemma byte_mask: "byte_val c AND mask 8 = byte_val c"
proof -
  have "byte_val c < 2 ^ 8"
    using byte_val_less [of c] by (simp add: word_less_nat_alt)
  then show ?thesis
    by (rule less_mask_eq)
qed

lemma bit_byte_val [simp]: "bit (byte_val c) n \<Longrightarrow> n < 8"
  using byte_mask [of c] by (metis bit_and_iff bit_mask_iff)

lemma length_writeBigEndian32 [simp]: "length (writeBigEndian32 v) = kFrameHeaderSize"
  by (simp add: writeBigEndian32_def kFrameHeaderSize_def)

lemma length_encodeFrame [simp]: "length (encodeFrame p) = kFrameHeaderSize + length p"
  by (simp add: encodeFrame_def)

lemma byte_val_low_byte: "byte_val (byte_chr (w AND 0xFF)) = w AND mask 8"
proof -
  have "unat (w AND 0xFF) \<le> 255"
    using word_and_le1 [of w "0xFF"] by (simp add: word_le_nat_alt)
  moreover have "(0xFF :: uint32) = mask 8"
    by (simp add: mask_eq_exp_minus_1)
  ultimately show ?thesis
    by (simp add: byte_val_chr)
qed

lemma bytes_assemble:
  "push_bit 24 (drop_bit 24 v AND mask 8) OR push_bit 16 (drop_bit 16 v AND mask 8) OR
     push_bit 8 (drop_bit 8 v AND mask 8) OR (v AND mask 8) = (v :: uint32)"
proof (rule bit_word_eqI)
  fix n :: nat
  assume "n < LENGTH(32)"
  then consider "n < 8" | "8 \<le> n" "n < 16" | "16 \<le> n" "n < 24" | "24 \<le> n" "n < 32"
    by fastforce
  then show "bit (push_bit 24 (drop_bit 24 v AND mask 8) OR push_bit 16 (drop_bit 16 v AND mask 8) OR
     push_bit 8 (drop_bit 8 v AND mask 8) OR (v AND mask 8)) n = bit v n"
    by cases (auto simp: bit_simps)
qed

lemma read_write_BigEndian32 [simp]: "readBigEndian32 (writeBigEndian32 v @ rest) = v"
  using bytes_assemble [of v]
  by (simp add: readBigEndian32_def writeBigEndian32_def byte_val_low_byte)

text \<open>The other direction: four bytes are the header of the length they spell.\<close>

lemma byte_chr_mask: "byte_chr (w AND 0xFF) = c \<longleftrightarrow> w AND mask 8 = byte_val c"
  by (metis byte_chr_val byte_val_low_byte)

lemma write_read_BigEndian32:
  assumes "length bs = kFrameHeaderSize"
  shows "writeBigEndian32 (readBigEndian32 bs) = bs"
proof -
  obtain a b c d where bs: "bs = [a, b, c, d]"
    using assms by (auto simp: kFrameHeaderSize_def elim: four_elems)
  let ?w = "push_bit 24 (byte_val a) OR push_bit 16 (byte_val b) OR push_bit 8 (byte_val c) OR byte_val d"
  have "drop_bit 24 ?w AND mask 8 = byte_val a"
    by (rule bit_word_eqI) (auto simp: bit_simps dest: bit_byte_val)
  moreover have "drop_bit 16 ?w AND mask 8 = byte_val b"
    by (rule bit_word_eqI) (auto simp: bit_simps dest: bit_byte_val)
  moreover have "drop_bit 8 ?w AND mask 8 = byte_val c"
    by (rule bit_word_eqI) (auto simp: bit_simps dest: bit_byte_val)
  moreover have "?w AND mask 8 = byte_val d"
    by (rule bit_word_eqI) (auto simp: bit_simps dest: bit_byte_val)
  ultimately show ?thesis
    by (simp add: bs readBigEndian32_def writeBigEndian32_def byte_chr_mask)
qed

lemma unat_frame_size: "length p < 2 ^ 32 \<Longrightarrow> unat (of_nat (length p) :: uint32) = length p"
  by (simp add: unat_of_nat)

lemma read_encodeFrame: "readBigEndian32 (encodeFrame p @ rest) = of_nat (length p)"
  by (simp add: encodeFrame_def)

text \<open>A payload the sender's size check and the 32-bit header both admit.\<close>

definition frame_ok :: "nat \<Rightarrow> string \<Rightarrow> bool" where
  "frame_ok maxFrameSize p \<longleftrightarrow> length p \<le> maxFrameSize \<and> length p < 2 ^ 32"

subsection \<open>The decoder on a stream of frames\<close>

lemma nextFrame_complete:
  assumes "dec_buffer d = encodeFrame p @ rest" and "frame_ok (dec_maxFrameSize d) p"
  shows "nextFrame d = (FS_Ready, p, d\<lparr>dec_buffer := rest\<rparr>)"
  using assms
  by (simp add: nextFrame_def frame_ok_def read_encodeFrame unat_frame_size Let_def)
     (simp add: encodeFrame_def)

lemma nextFrame_partial:
  assumes "dec_buffer d @ rest = encodeFrame p" and "rest \<noteq> []" and "frame_ok (dec_maxFrameSize d) p"
  shows "nextFrame d = (FS_NeedMoreData, [], d)"
proof (cases "length (dec_buffer d) < kFrameHeaderSize")
  case True
  then show ?thesis by (simp add: nextFrame_def)
next
  case False
  have len: "length (dec_buffer d) + length rest = kFrameHeaderSize + length p"
    by (metis assms(1) length_append length_encodeFrame)
  have "take kFrameHeaderSize (dec_buffer d) = writeBigEndian32 (of_nat (length p))"
    using False assms(1)
    by (metis append_eq_append_conv_if encodeFrame_def length_writeBigEndian32 linorder_not_less)
  then have "dec_buffer d = writeBigEndian32 (of_nat (length p)) @ drop kFrameHeaderSize (dec_buffer d)"
    by (metis append_take_drop_id)
  then have "readBigEndian32 (dec_buffer d) = of_nat (length p)"
    by (metis read_write_BigEndian32)
  moreover have "length (dec_buffer d) < kFrameHeaderSize + length p"
    using len assms(2) by (cases rest) auto
  ultimately show ?thesis
    using False assms(3) by (simp add: nextFrame_def frame_ok_def unat_frame_size)
qed

text \<open>
  The receive side's use of the decoder: pull frames until \<^const>\<open>nextFrame\<close> has none ready
  (\<open>drain\<close>), after each chunk of bytes that arrives (\<open>feed\<close>).
\<close>

lemma nextFrame_consumes:
  "nextFrame d = (FS_Ready, p, d') \<Longrightarrow> length (dec_buffer d') < length (dec_buffer d)"
  by (auto simp: nextFrame_def kFrameHeaderSize_def Let_def split: if_splits)

function drain :: "FrameDecoder \<Rightarrow> string list \<times> FrameStatus \<times> FrameDecoder" where
  "drain d =
     (case nextFrame d of (status, p, d') \<Rightarrow>
        if status = FS_Ready
        then (case drain d' of (ps, status', d'') \<Rightarrow> (p # ps, status', d''))
        else ([], status, d'))"
  by pat_completeness auto
termination
  by (relation "measure (\<lambda>d. length (dec_buffer d))") (auto dest: nextFrame_consumes [OF sym])

declare drain.simps [simp del]

fun feed :: "FrameDecoder \<Rightarrow> string list \<Rightarrow> string list \<times> FrameDecoder" where
  "feed d [] = ([], d)"
| "feed d (c # cs) =
     (case drain (dec_append d (Some c)) of (ps, status, d') \<Rightarrow>
        case feed d' cs of (qs, d'') \<Rightarrow> (ps @ qs, d''))"

abbreviation enc_all :: "string list \<Rightarrow> string" where
  "enc_all ps \<equiv> concat (map encodeFrame ps)"

lemma append_eq_cases:
  assumes "xs @ ys = us @ vs"
  obtains zs where "xs = us @ zs" "vs = zs @ ys" | zs where "us = xs @ zs" "zs \<noteq> []" "ys = zs @ vs"
  using assms by (metis append_eq_append_conv2 append_Nil2)

lemma dec_buffer_same: "dec_buffer d = buf \<Longrightarrow> d\<lparr>dec_buffer := buf\<rparr> = d"
  by (cases d) simp

lemma drain_prefix:
  assumes "dec_buffer d @ rest = enc_all ps" and "\<forall>p \<in> set ps. frame_ok (dec_maxFrameSize d) p"
  shows "\<exists>qs rs buf. ps = qs @ rs \<and> drain d = (qs, FS_NeedMoreData, d\<lparr>dec_buffer := buf\<rparr>)
    \<and> buf @ rest = enc_all rs \<and> nextFrame (d\<lparr>dec_buffer := buf\<rparr>) = (FS_NeedMoreData, [], d\<lparr>dec_buffer := buf\<rparr>)"
  using assms
proof (induction ps arbitrary: d)
  case Nil
  then have "nextFrame d = (FS_NeedMoreData, [], d)"
    by (simp add: nextFrame_def kFrameHeaderSize_def)
  with Nil show ?case
    by (intro exI [of _ "[]"] exI [of _ "dec_buffer d"]) (simp add: drain.simps [of d] dec_buffer_same)
next
  case (Cons p ps)
  from Cons.prems(1) have "dec_buffer d @ rest = encodeFrame p @ enc_all ps" by simp
  then show ?case
  proof (cases rule: append_eq_cases)
    case (1 zs)
    let ?d = "d\<lparr>dec_buffer := zs\<rparr>"
    have step: "nextFrame d = (FS_Ready, p, ?d)"
      using 1 Cons.prems(2) by (intro nextFrame_complete) auto
    from Cons.IH [of ?d] 1 Cons.prems(2) obtain qs rs buf where
      "ps = qs @ rs" "drain ?d = (qs, FS_NeedMoreData, d\<lparr>dec_buffer := buf\<rparr>)"
      "buf @ rest = enc_all rs"
      "nextFrame (d\<lparr>dec_buffer := buf\<rparr>) = (FS_NeedMoreData, [], d\<lparr>dec_buffer := buf\<rparr>)"
      by auto
    with step show ?thesis
      by (intro exI [of _ "p # qs"] exI [of _ rs] exI [of _ buf]) (simp add: drain.simps [of d])
  next
    case (2 zs)
    have "nextFrame d = (FS_NeedMoreData, [], d)"
      using 2 Cons.prems(2) by (intro nextFrame_partial [of d zs p]) auto
    with Cons.prems show ?thesis
      by (intro exI [of _ "[]"] exI [of _ "p # ps"] exI [of _ "dec_buffer d"])
         (simp add: drain.simps [of d] dec_buffer_same)
  qed
qed

lemma feed_enc_all:
  assumes "dec_buffer d @ concat chunks = enc_all ps"
    and "\<forall>p \<in> set ps. frame_ok (dec_maxFrameSize d) p"
    and "nextFrame d = (FS_NeedMoreData, [], d)"
  shows "feed d chunks = (ps, d\<lparr>dec_buffer := []\<rparr>)"
  using assms
proof (induction chunks arbitrary: d ps)
  case Nil
  have "ps = []"
  proof (cases ps)
    case (Cons p qs)
    with Nil have "nextFrame d = (FS_Ready, p, d\<lparr>dec_buffer := enc_all qs\<rparr>)"
      by (intro nextFrame_complete) auto
    with Nil.prems(3) show ?thesis by simp
  qed simp
  with Nil show ?case by simp
next
  case (Cons c cs)
  let ?d = "dec_append d (Some c)"
  have "dec_buffer ?d @ concat cs = enc_all ps" "dec_maxFrameSize ?d = dec_maxFrameSize d"
    using Cons.prems(1) by (auto simp: dec_append_def)
  with drain_prefix [of ?d "concat cs" ps] Cons.prems(2) obtain qs rs buf where
    "ps = qs @ rs" "drain ?d = (qs, FS_NeedMoreData, ?d\<lparr>dec_buffer := buf\<rparr>)"
    "buf @ concat cs = enc_all rs"
    "nextFrame (?d\<lparr>dec_buffer := buf\<rparr>) = (FS_NeedMoreData, [], ?d\<lparr>dec_buffer := buf\<rparr>)"
    by auto
  moreover from this Cons.IH [of "?d\<lparr>dec_buffer := buf\<rparr>" rs] Cons.prems(2)
  have "feed (?d\<lparr>dec_buffer := buf\<rparr>) cs = (rs, ?d\<lparr>dec_buffer := []\<rparr>)"
    by (auto simp: dec_append_def split: if_splits)
  ultimately show ?case
    by (auto simp: dec_append_def)
qed

subsection \<open>What the transfer loops rely on: the ISocket contract\<close>

text \<open>
  \<open>outp s\<close> is what the peer will read, \<open>inp s\<close> what the peer has written and nobody has read
  yet. \<open>send\<close> takes a prefix of the bytes offered, \<open>receive\<close> returns a prefix of the input; a count
  of 0 is how an \<open>ISocket\<close> reports an error or the end of the stream.
\<close>

locale stream_socket =
  fixes send :: "'s \<Rightarrow> string \<Rightarrow> nat \<times> 's"
    and recv :: "'s \<Rightarrow> nat \<Rightarrow> nat \<times> string \<times> 's"
    and outp :: "'s \<Rightarrow> string"
    and inp :: "'s \<Rightarrow> string"
    and invar :: "'s \<Rightarrow> bool"
  assumes send_law: "invar s \<Longrightarrow> send s data = (n, s') \<Longrightarrow>
      n \<le> length data \<and> outp s' = outp s @ take n data \<and> inp s' = inp s \<and> invar s'"
    and recv_law: "invar s \<Longrightarrow> recv s m = (n, bytes, s') \<Longrightarrow>
      n \<le> m \<and> length bytes = n \<and> inp s = bytes @ inp s' \<and> outp s' = outp s \<and> invar s'"
begin

lemma sendAll_loop_spec:
  assumes "invar s" "sent \<le> length data" "sendAll_loop send s data sent = (ok, s')"
  shows "\<exists>k. sent + k \<le> length data \<and> outp s' = outp s @ take k (drop sent data)
    \<and> inp s' = inp s \<and> invar s' \<and> (ok \<longleftrightarrow> sent + k = length data)"
  using assms
proof (induction "length data - sent" arbitrary: s sent rule: less_induct)
  case less
  show ?case
  proof (cases "sent < length data")
    case False
    with less.prems show ?thesis
      by (intro exI [of _ 0]) (auto simp: sendAll_loop.simps [of send s])
  next
    case True
    obtain n s1 where snd: "send s (drop sent data) = (n, s1)" by fastforce
    with send_law [OF less.prems(1) snd] have law: "n \<le> length data - sent"
      "outp s1 = outp s @ take n (drop sent data)" "inp s1 = inp s" "invar s1" by auto
    show ?thesis
    proof (cases "n = 0")
      case zero: True
      with True snd law less.prems show ?thesis
        by (intro exI [of _ 0]) (auto simp: sendAll_loop.simps [of send s])
    next
      case False
      with True snd less.prems(3) have "sendAll_loop send s1 data (sent + n) = (ok, s')"
        by (simp add: sendAll_loop.simps [of send s])
      moreover have "length data - (sent + n) < length data - sent" "sent + n \<le> length data"
        using False True law by auto
      ultimately obtain k where k: "sent + n + k \<le> length data"
        "outp s' = outp s1 @ take k (drop (sent + n) data)" "inp s' = inp s1" "invar s'"
        "ok \<longleftrightarrow> sent + n + k = length data"
        using less.hyps [of "sent + n" s1] law(4) by blast
      moreover have "take (n + k) (drop sent data) = take n (drop sent data) @ take k (drop (sent + n) data)"
        by (simp only: take_add drop_drop add.commute [of sent n])
      ultimately show ?thesis
        using law by (intro exI [of _ "n + k"]) auto
    qed
  qed
qed

lemma sendAll_spec:
  assumes "invar s" "sendAll send s data = (ok, s')"
  shows "\<exists>k \<le> length data. outp s' = outp s @ take k data \<and> inp s' = inp s \<and> invar s'
    \<and> (ok \<longleftrightarrow> k = length data)"
  using sendAll_loop_spec [of s 0 data ok s'] assms by (auto simp: sendAll_def)

lemma sendFrame_spec:
  assumes "invar s" "sendFrame send s payload maxFrameSize = (ok, s')"
  shows "\<exists>k \<le> length (encodeFrame payload). outp s' = outp s @ take k (encodeFrame payload)
    \<and> inp s' = inp s \<and> invar s'
    \<and> (ok \<longleftrightarrow> length payload \<le> maxFrameSize \<and> k = length (encodeFrame payload))"
proof (cases "length payload \<le> maxFrameSize")
  case True
  then show ?thesis
    using sendAll_spec [of s "encodeFrame payload" ok s'] assms by (auto simp: sendFrame_def)
next
  case False
  then show ?thesis
    using assms by (intro exI [of _ 0]) (auto simp: sendFrame_def)
qed

lemma receive_loop_spec:
  assumes "invar s" "received \<le> len" "length buf = len"
    "receive_loop recv s buf len received = (r, buf', s')"
  shows "\<exists>bytes. inp s = bytes @ inp s' \<and> r = received + length bytes \<and> r \<le> len
    \<and> length buf' = len \<and> take r buf' = take received buf @ bytes \<and> outp s' = outp s \<and> invar s'"
  using assms
proof (induction "len - received" arbitrary: s received buf rule: less_induct)
  case less
  show ?case
  proof (cases "received < len")
    case False
    with less.prems show ?thesis
      by (intro exI [of _ "[]"]) (auto simp: receive_loop.simps [of recv s])
  next
    case True
    obtain n bytes s1 where rcv: "recv s (len - received) = (n, bytes, s1)" by (metis prod_cases3)
    with recv_law [OF less.prems(1) rcv] have law: "n \<le> len - received" "length bytes = n"
      "inp s = bytes @ inp s1" "outp s1 = outp s" "invar s1" by auto
    show ?thesis
    proof (cases "n = 0")
      case zero: True
      with True rcv law less.prems show ?thesis
        by (intro exI [of _ "[]"]) (auto simp: receive_loop.simps [of recv s])
    next
      case False
      let ?buf = "blit buf received bytes"
      from False True rcv less.prems(4)
      have "receive_loop recv s1 ?buf len (received + n) = (r, buf', s')"
        by (simp add: receive_loop.simps [of recv s])
      moreover have "len - (received + n) < len - received" "received + n \<le> len" "length ?buf = len"
        using False True law less.prems(3) by auto
      ultimately obtain bs where bs: "inp s1 = bs @ inp s'" "r = received + n + length bs" "r \<le> len"
        "length buf' = len" "take r buf' = take (received + n) ?buf @ bs" "outp s' = outp s1" "invar s'"
        using less.hyps [of "received + n" s1 ?buf] law(5) by blast
      moreover have "take (received + n) ?buf = take received buf @ bytes"
        using take_blit [of received bytes buf] law True less.prems(3) by simp
      ultimately show ?thesis
        using law by (intro exI [of _ "bytes @ bs"]) auto
    qed
  qed
qed

lemma receive_loop_full:
  assumes "invar s" "receive_loop recv s (replicate len c) len 0 = (r, buf, s')" "\<not> r < len"
  shows "inp s = buf @ inp s' \<and> length buf = len \<and> outp s' = outp s \<and> invar s'"
  using receive_loop_spec [OF assms(1) le0 length_replicate assms(2)] assms(3) by auto

lemma receive_loop_short:
  assumes "invar s" "receive_loop recv s (replicate len c) len 0 = (r, buf, s')"
  shows "\<exists>bytes. inp s = bytes @ inp s' \<and> length bytes = r \<and> outp s' = outp s \<and> invar s'"
  using receive_loop_spec [OF assms(1) le0 length_replicate assms(2)] by auto

text \<open>The bytes taken off the stream, status by status.\<close>

lemma receiveFrame_Ok:
  assumes "invar s" "receiveFrame recv s maxFrameSize = (RF_Ok, payload, s')"
  shows "inp s = encodeFrame payload @ inp s' \<and> frame_ok maxFrameSize payload
    \<and> outp s' = outp s \<and> invar s'"
proof -
  obtain r header s1 where hd:
    "receive_loop recv s (replicate kFrameHeaderSize (CHR 0x00)) kFrameHeaderSize 0 = (r, header, s1)"
    by (metis prod_cases3)
  let ?n = "unat (readBigEndian32 header)"
  obtain r' buf s2 where pl: "receive_loop recv s1 (replicate ?n (CHR 0x00)) ?n 0 = (r', buf, s2)"
    by (metis prod_cases3)
  from assms(2) hd pl have st: "\<not> r < kFrameHeaderSize" "?n \<le> maxFrameSize" "\<not> r' < ?n" "payload = buf" "s' = s2"
    by (auto simp: receiveFrame_def Let_def split: if_splits)
  from receive_loop_full [OF assms(1) hd st(1)] have h: "inp s = header @ inp s1"
    "length header = kFrameHeaderSize" "outp s1 = outp s" "invar s1" by auto
  from receive_loop_full [OF h(4) pl st(3)] have p: "inp s1 = buf @ inp s2" "length buf = ?n"
    "outp s2 = outp s1" "invar s2" by auto
  have "encodeFrame buf = header @ buf"
    using p(2) h(2) by (simp add: encodeFrame_def write_read_BigEndian32)
  moreover have "length buf < 2 ^ 32"
    using p(2) unsigned_less [of "readBigEndian32 header", where 'a = nat] by simp
  ultimately show ?thesis
    using h p st by (simp add: frame_ok_def)
qed

lemma receiveFrame_consumes:
  assumes "invar s" "receiveFrame recv s maxFrameSize = (status, payload, s')"
  shows "(\<exists>bytes. inp s = bytes @ inp s' \<and> (status = RF_Closed \<longrightarrow> bytes = [])
      \<and> (status = RF_TooLarge \<longrightarrow> length bytes = kFrameHeaderSize \<and> maxFrameSize < unat (readBigEndian32 bytes)))
    \<and> outp s' = outp s \<and> invar s'"
proof -
  obtain r header s1 where hd:
    "receive_loop recv s (replicate kFrameHeaderSize (CHR 0x00)) kFrameHeaderSize 0 = (r, header, s1)"
    by (metis prod_cases3)
  let ?n = "unat (readBigEndian32 header)"
  obtain r' buf s2 where pl: "receive_loop recv s1 (replicate ?n (CHR 0x00)) ?n 0 = (r', buf, s2)"
    by (metis prod_cases3)
  obtain bs where h: "inp s = bs @ inp s1" "length bs = r" "outp s1 = outp s" "invar s1"
    using receive_loop_short [OF assms(1) hd] by auto
  obtain cs where p: "inp s1 = cs @ inp s2" "length cs = r'" "outp s2 = outp s1" "invar s2"
    using receive_loop_short [OF h(4) pl] by auto
  show ?thesis
  proof (cases "r < kFrameHeaderSize")
    case True
    with assms(2) hd h show ?thesis
      by (auto simp: receiveFrame_def split: if_splits intro!: exI [of _ bs])
  next
    case full: False
    from receive_loop_full [OF assms(1) hd full] have f: "inp s = header @ inp s1"
      "length header = kFrameHeaderSize" by auto
    show ?thesis
    proof (cases "maxFrameSize < ?n")
      case True
      with full assms(2) hd h f show ?thesis
        by (auto simp: receiveFrame_def Let_def intro!: exI [of _ header])
    next
      case False
      with full assms(2) hd pl h p show ?thesis
        by (auto simp: receiveFrame_def Let_def split: if_splits intro!: exI [of _ "bs @ cs"])
    qed
  qed
qed

end

text \<open>A socket that makes progress: something is taken when bytes are offered, something is returned
  when bytes are waiting.\<close>

locale live_socket = stream_socket +
  assumes send_progress: "invar s \<Longrightarrow> data \<noteq> [] \<Longrightarrow> 0 < fst (send s data)"
    and recv_progress: "invar s \<Longrightarrow> inp s \<noteq> [] \<Longrightarrow> 0 < m \<Longrightarrow> 0 < fst (recv s m)"
begin

lemma sendAll_loop_live: "invar s \<Longrightarrow> sent \<le> length data \<Longrightarrow> fst (sendAll_loop send s data sent)"
proof (induction "length data - sent" arbitrary: s sent rule: less_induct)
  case less
  obtain n s1 where snd: "send s (drop sent data) = (n, s1)" by fastforce
  note law = send_law [OF less.prems(1) snd]
  show ?case
  proof (cases "sent < length data")
    case True
    then have "0 < n"
      using send_progress [OF less.prems(1), of "drop sent data"] snd by simp
    with True law less.hyps [of "sent + n" s1] have "fst (sendAll_loop send s1 data (sent + n))" by auto
    with True snd \<open>0 < n\<close> show ?thesis by (simp add: sendAll_loop.simps [of send s])
  qed (simp add: sendAll_loop.simps [of send s])
qed

lemma sendFrame_live:
  assumes "invar s" "length payload \<le> maxFrameSize"
  obtains s' where "sendFrame send s payload maxFrameSize = (True, s')"
    "outp s' = outp s @ encodeFrame payload" "inp s' = inp s" "invar s'"
proof -
  obtain ok s' where r: "sendFrame send s payload maxFrameSize = (ok, s')" by fastforce
  have "fst (sendFrame send s payload maxFrameSize)"
    using assms sendAll_loop_live [of s 0] by (simp add: sendFrame_def sendAll_def)
  with r have "ok" by simp
  with sendFrame_spec [OF assms(1) r] r that show ?thesis by auto
qed

lemma receive_loop_live:
  assumes "invar s" "received \<le> len" "length buf = len"
    "receive_loop recv s buf len received = (r, buf', s')" "r < len"
  shows "inp s' = []"
  using assms
proof (induction "len - received" arbitrary: s received buf rule: less_induct)
  case less
  obtain n bytes s1 where rcv: "recv s (len - received) = (n, bytes, s1)" by (metis prod_cases3)
  with recv_law [OF less.prems(1) rcv] have law: "n \<le> len - received" "length bytes = n"
    "inp s = bytes @ inp s1" "invar s1" by auto
  show ?case
  proof (cases "received < len \<and> 0 < n")
    case True
    with rcv less.prems(4) have "receive_loop recv s1 (blit buf received bytes) len (received + n) = (r, buf', s')"
      by (simp add: receive_loop.simps [of recv s])
    moreover have le: "len - (received + n) < len - received" "received + n \<le> len"
      using True law(1) by linarith+
    moreover have "length (blit buf received bytes) = len"
      using le(2) law(2) less.prems(3) by simp
    ultimately show ?thesis
      using less.hyps [of "received + n" s1 "blit buf received bytes"] law(4) less.prems(5) by blast
  next
    case False
    show ?thesis
    proof (rule ccontr)
      assume ne: "inp s' \<noteq> []"
      from False rcv less.prems(2,4,5) have "received < len" "n = 0" "s' = s1"
        by (auto simp: receive_loop.simps [of recv s] split: if_splits)
      with ne law recv_progress [OF less.prems(1), of "len - received"] rcv show False by simp
    qed
  qed
qed

lemma receive_loop_enough:
  assumes "invar s" "len \<le> length (inp s)" "receive_loop recv s (replicate len c) len 0 = (r, buf, s')"
  shows "\<not> r < len"
proof
  assume "r < len"
  with receive_loop_live [OF assms(1) le0 length_replicate assms(3)] have "inp s' = []" by simp
  with receive_loop_short [OF assms(1,3)] \<open>r < len\<close> assms(2) show False by auto
qed

lemma receiveFrame_live:
  assumes "invar s" "inp s = encodeFrame p @ rest" "frame_ok maxFrameSize p"
  obtains s' where "receiveFrame recv s maxFrameSize = (RF_Ok, p, s')" "inp s' = rest"
    "outp s' = outp s" "invar s'"
proof -
  obtain r header s1 where hd:
    "receive_loop recv s (replicate kFrameHeaderSize (CHR 0x00)) kFrameHeaderSize 0 = (r, header, s1)"
    by (metis prod_cases3)
  have r: "\<not> r < kFrameHeaderSize"
    using receive_loop_enough [OF assms(1) _ hd] assms(2) by simp
  from receive_loop_full [OF assms(1) hd r] assms(2)
  have h: "header = writeBigEndian32 (of_nat (length p))" "inp s1 = p @ rest" "invar s1"
    by (auto simp: encodeFrame_def append_eq_append_conv)
  have n: "unat (readBigEndian32 header) = length p"
    using h(1) assms(3) read_write_BigEndian32 [of _ "[]"] by (simp add: frame_ok_def unat_frame_size)
  obtain r' buf s2 where pl:
    "receive_loop recv s1 (replicate (length p) (CHR 0x00)) (length p) 0 = (r', buf, s2)"
    by (metis prod_cases3)
  have r': "\<not> r' < length p"
    using receive_loop_enough [OF h(3) _ pl] h(2) by simp
  from receive_loop_full [OF h(3) pl r'] h(2) have "buf = p"
    by (auto simp: append_eq_append_conv)
  with r r' hd pl n assms(3) have rf: "receiveFrame recv s maxFrameSize = (RF_Ok, p, s2)"
    by (simp add: receiveFrame_def frame_ok_def)
  with receiveFrame_Ok [OF assms(1) rf] assms(2) that show ?thesis by auto
qed

end

end
