(* ===== verification/Cxx_Std.thy ===== *)
theory Cxx_Std
  imports Messenger_Prelude
begin

text \<open>
  The part of the C++ standard library the sources call on strings: \<open><cctype>\<close> in the \<open>"C"\<close>
  locale (no source file calls \<open>setlocale\<close>), formatted extraction from an \<open>std::istringstream\<close>,
  \<open>std::getline\<close>, \<open>std::stoi\<close>, \<open>std::stoul\<close>, \<open>std::to_string\<close> and the search members of
  \<open>std::string\<close>. A stream is the list of characters not yet extracted: once that list is empty,
  every further extraction leaves its (empty) target unchanged, so no error flags are kept.
\<close>

subsection \<open>Character classes\<close>

definition isspace :: "char \<Rightarrow> bool" where
  "isspace c \<longleftrightarrow> c \<in> {CHR 0x20, CHR 0x09, CHR 0x0A, CHR 0x0B, CHR 0x0C, CHR 0x0D}"

definition isdigit :: "char \<Rightarrow> bool" where
  "isdigit c \<longleftrightarrow> 48 \<le> (of_char c :: nat) \<and> (of_char c :: nat) \<le> 57"

definition isalpha :: "char \<Rightarrow> bool" where
  "isalpha c \<longleftrightarrow> (65 \<le> (of_char c :: nat) \<and> (of_char c :: nat) \<le> 90)
     \<or> (97 \<le> (of_char c :: nat) \<and> (of_char c :: nat) \<le> 122)"

definition isalnum :: "char \<Rightarrow> bool" where
  "isalnum c \<longleftrightarrow> isalpha c \<or> isdigit c"

definition tolower :: "char \<Rightarrow> char" where
  "tolower c = (if 65 \<le> (of_char c :: nat) \<and> (of_char c :: nat) \<le> 90
     then char_of ((of_char c :: nat) + 32) else c)"

subsection \<open>Streams\<close>

text \<open>\<open>iss >> word\<close>: skip white space, take the characters up to the next white space.\<close>

definition extract_word :: "string \<Rightarrow> string \<times> string" where
  "extract_word s =
     (let t = dropWhile isspace s
      in (takeWhile (\<lambda>c. \<not> isspace c) t, dropWhile (\<lambda>c. \<not> isspace c) t))"

text \<open>\<open>std::getline(in, line)\<close>: up to the newline, which is extracted and dropped.\<close>

definition getline :: "string \<Rightarrow> string \<times> string" where
  "getline s = (takeWhile (\<lambda>c. c \<noteq> CHR 0x0A) s, tl (dropWhile (\<lambda>c. c \<noteq> CHR 0x0A) s))"

lemma getline_shorter:
  assumes "s \<noteq> []"
  shows "length (snd (getline s)) < length s"
proof -
  have "length (dropWhile (\<lambda>c. c \<noteq> CHR 0x0A) s) \<le> length s" by (rule length_dropWhile_le)
  moreover have "0 < length s" using assms by simp
  ultimately show ?thesis
    unfolding getline_def snd_conv length_tl by linarith
qed

text \<open>The lines a \<open>while (std::getline(in, line))\<close> loop sees: a final newline ends no further line.\<close>

function lines_of :: "string \<Rightarrow> string list" where
  "lines_of s = (if s = [] then [] else fst (getline s) # lines_of (snd (getline s)))"
  by pat_completeness auto
termination
  by (relation "measure length") (auto simp: getline_shorter)

declare lines_of.simps [simp del]

subsection \<open>Numbers\<close>

datatype std_exception = Invalid_argument | Out_of_range

definition digit_val :: "char \<Rightarrow> nat" where
  "digit_val c = of_char c - 48"

definition digits_val :: "string \<Rightarrow> nat" where
  "digits_val ds = foldl (\<lambda>v c. 10 * v + digit_val c) 0 ds"

definition INT_MAX :: int where "INT_MAX = 2 ^ 31 - 1"
definition INT_MIN :: int where "INT_MIN = - (2 ^ 31)"
definition ULONG_MAX :: nat where "ULONG_MAX = 2 ^ 64 - 1"

text \<open>The sign and the digits that \<open>strtol\<close> and \<open>strtoul\<close> read (base 10); the rest is ignored.\<close>

definition scan_number :: "string \<Rightarrow> bool \<times> string" where
  "scan_number s =
     (case dropWhile isspace s of
        [] \<Rightarrow> (False, [])
      | c # cs \<Rightarrow>
          if c = CHR ''-'' then (True, takeWhile isdigit cs)
          else if c = CHR ''+'' then (False, takeWhile isdigit cs)
          else (False, takeWhile isdigit (c # cs)))"

definition stoi :: "string \<Rightarrow> std_exception + int" where
  "stoi s =
     (case scan_number s of (neg, ds) \<Rightarrow>
        if ds = [] then Inl Invalid_argument
        else let v = (if neg then - int (digits_val ds) else int (digits_val ds))
          in if v < INT_MIN \<or> v > INT_MAX then Inl Out_of_range else Inr v)"

text \<open>\<open>strtoul\<close> accepts a minus sign and negates the magnitude modulo \<open>2^64\<close>.\<close>

definition stoul :: "string \<Rightarrow> std_exception + nat" where
  "stoul s =
     (case scan_number s of (neg, ds) \<Rightarrow>
        if ds = [] then Inl Invalid_argument
        else let v = digits_val ds
          in if v > ULONG_MAX then Inl Out_of_range
          else if neg then Inr ((2 ^ 64 - v) mod 2 ^ 64) else Inr v)"

definition digit_chr :: "nat \<Rightarrow> char" where
  "digit_chr n = char_of (48 + n)"

fun nat_text :: "nat \<Rightarrow> string" where
  "nat_text n = (if n < 10 then [digit_chr n] else nat_text (n div 10) @ [digit_chr (n mod 10)])"

declare nat_text.simps [simp del]

definition to_string :: "int \<Rightarrow> string" where
  "to_string i = (if i < 0 then CHR ''-'' # nat_text (nat (- i)) else nat_text (nat i))"

subsection \<open>Searching\<close>

fun str_find :: "(char \<Rightarrow> bool) \<Rightarrow> string \<Rightarrow> nat option" where
  "str_find P [] = None"
| "str_find P (c # cs) = (if P c then Some 0 else map_option Suc (str_find P cs))"

fun str_rfind :: "(char \<Rightarrow> bool) \<Rightarrow> string \<Rightarrow> nat option" where
  "str_rfind P [] = None"
| "str_rfind P (c # cs) =
     (case str_rfind P cs of Some i \<Rightarrow> Some (Suc i) | None \<Rightarrow> if P c then Some 0 else None)"

definition substr :: "string \<Rightarrow> nat \<Rightarrow> nat \<Rightarrow> string" where
  "substr s pos n = take n (drop pos s)"

subsection \<open>Facts\<close>

lemma extract_word_word:
  assumes "w \<noteq> []" "\<forall>c \<in> set w. \<not> isspace c" "rest = [] \<or> isspace (hd rest)"
  shows "extract_word (w @ rest) = (w, rest)"
  using assms
  by (cases w; cases rest) (auto simp: extract_word_def takeWhile_append dropWhile_append)

lemma extract_word_skip: "isspace c \<Longrightarrow> extract_word (c # s) = extract_word s"
  by (simp add: extract_word_def)

lemma extract_word_Nil [simp]: "extract_word [] = ([], [])"
  by (simp add: extract_word_def)

lemma fst_extract_word_nospace: "c \<in> set (fst (extract_word s)) \<Longrightarrow> \<not> isspace c"
  by (auto simp: extract_word_def Let_def dest: set_takeWhileD)

lemma length_extract_word: "length (fst (extract_word s)) + length (snd (extract_word s)) \<le> length s"
proof -
  have "length (takeWhile P t) + length (dropWhile P t) = length t" for P and t :: string
    by (metis length_append takeWhile_dropWhile_id)
  then show ?thesis
    by (simp add: extract_word_def Let_def length_dropWhile_le)
qed

lemma getline_whole:
  assumes "CHR 0x0A \<notin> set s"
  shows "getline s = (s, [])"
proof -
  have "\<forall>c \<in> set s. c \<noteq> CHR 0x0A" using assms by metis
  then have "takeWhile (\<lambda>c. c \<noteq> CHR 0x0A) s = s" "dropWhile (\<lambda>c. c \<noteq> CHR 0x0A) s = []"
    by (simp_all only: takeWhile_eq_all_conv dropWhile_eq_Nil_conv)
  then show ?thesis by (simp only: getline_def list.sel)
qed

lemma isspace_blank [simp]: "isspace (CHR '' '')"
  by (simp add: isspace_def)

lemma isdigit_digit_chr: "n < 10 \<Longrightarrow> isdigit (digit_chr n)"
  by (simp add: isdigit_def digit_chr_def)

lemma digit_val_chr: "n < 10 \<Longrightarrow> digit_val (digit_chr n) = n"
  by (simp add: digit_val_def digit_chr_def)

lemma nat_text_digits: "c \<in> set (nat_text n) \<Longrightarrow> isdigit c"
  by (induction n rule: nat_text.induct)
     (subst (asm) (2) nat_text.simps, auto simp: isdigit_digit_chr split: if_splits)

lemma nat_text_nonempty [simp]: "nat_text n \<noteq> []"
  by (subst nat_text.simps) simp

lemma digits_val_append: "digits_val (ds @ [c]) = 10 * digits_val ds + digit_val c"
  by (simp add: digits_val_def)

lemma digits_val_nat_text: "digits_val (nat_text n) = n"
proof (induction n rule: nat_text.induct)
  case (1 n)
  then show ?case
    by (cases "n < 10")
       (simp_all add: nat_text.simps [of n] digits_val_append digit_val_chr,
        simp add: digits_val_def digit_val_chr)
qed

lemma isdigit_nospace: "isdigit c \<Longrightarrow> \<not> isspace c"
  by (auto simp: isdigit_def isspace_def)

lemma scan_digits:
  assumes "ds \<noteq> []" "\<forall>c \<in> set ds. isdigit c"
  shows "scan_number ds = (False, ds)" and "scan_number (CHR ''-'' # ds) = (True, ds)"
proof -
  have tw: "takeWhile isdigit ds = ds"
    using assms(2) by (simp add: takeWhile_eq_all_conv)
  show "scan_number (CHR ''-'' # ds) = (True, ds)"
    by (simp add: scan_number_def tw isspace_def)
  obtain c cs where ds: "ds = c # cs" using assms(1) by (cases ds) auto
  with assms(2) have "isdigit c" by simp
  then have "\<not> isspace c" "c \<noteq> CHR ''-''" "c \<noteq> CHR ''+''"
    by (auto simp: isdigit_nospace isdigit_def)
  with ds tw show "scan_number ds = (False, ds)"
    by (simp add: scan_number_def)
qed

lemma stoi_to_string:
  assumes "INT_MIN \<le> i" "i \<le> INT_MAX"
  shows "stoi (to_string i) = Inr i"
proof -
  note scan = scan_digits [OF nat_text_nonempty ballI [OF nat_text_digits]]
  show ?thesis
    using assms by (auto simp: stoi_def to_string_def scan digits_val_nat_text Let_def)
qed

lemma to_string_nospace: "c \<in> set (to_string i) \<Longrightarrow> \<not> isspace c"
  by (auto simp: to_string_def isspace_def dest!: nat_text_digits split: if_splits)
     (auto simp: isdigit_def)

lemma to_string_nonempty [simp]: "to_string i \<noteq> []"
  by (simp add: to_string_def)

lemma stoi_range: "stoi s = Inr v \<Longrightarrow> INT_MIN \<le> v \<and> v \<le> INT_MAX"
  by (auto simp: stoi_def Let_def split: prod.splits if_splits)

lemma stoul_range: "stoul s = Inr v \<Longrightarrow> v \<le> ULONG_MAX"
proof -
  have "(2 ^ 64 - d) mod 2 ^ 64 \<le> ULONG_MAX" for d :: nat
    using mod_less_divisor [of "2 ^ 64" "2 ^ 64 - d"] by (simp add: ULONG_MAX_def)
  then show "stoul s = Inr v \<Longrightarrow> v \<le> ULONG_MAX"
    by (auto simp: stoul_def Let_def split: prod.splits if_splits)
qed

end
