(* ===== verification/Sockets.thy ===== *)
theory Sockets
  imports Protocol Cxx_Std
begin

text \<open>
  The socket layer of \<open>libs/tcp\<close>: the native-handle helpers of \<open>SocketOps.cpp\<close> (used by the
  server), the \<open>ISocket\<close> implementations \<open>TcpSocketLinux.cpp\<close> and \<open>TcpSocketWin.cpp\<close> (used by the
  client), and the \<open>MemorySocket\<close> of \<open>tests/protocol_tests.cpp\<close>. The operating system is a
  parameter: the record \<open>sys\<close> holds the calls the sources make, over a kernel state \<open>'k\<close>. The
  locale \<open>kernel_stream\<close> states what POSIX documents for \<open>send\<close>, \<open>recv\<close>, \<open>shutdown\<close> and \<open>close\<close> on
  a stream socket, with \<open>outq k fd\<close> the bytes handed to the peer of \<open>fd\<close> and \<open>inq k fd\<close> the bytes
  that are still to be read from it.
\<close>

subsection \<open>System calls\<close>

type_synonym sockaddr = string

datatype sockopt = SO_RCVTIMEO int | SO_REUSEADDR

record 'k sys =
  sys_socket :: "'k \<Rightarrow> int \<times> 'k"
  sys_getaddrinfo :: "'k \<Rightarrow> string \<Rightarrow> string \<Rightarrow> sockaddr list option \<times> 'k"
  sys_connect :: "'k \<Rightarrow> int \<Rightarrow> sockaddr \<Rightarrow> int \<times> 'k"
  sys_send :: "'k \<Rightarrow> int \<Rightarrow> string \<Rightarrow> int \<times> 'k"
  sys_recv :: "'k \<Rightarrow> int \<Rightarrow> nat \<Rightarrow> int \<times> string \<times> 'k"
  sys_shutdown :: "'k \<Rightarrow> int \<Rightarrow> int \<times> 'k"
  sys_close :: "'k \<Rightarrow> int \<Rightarrow> 'k"
  sys_setsockopt :: "'k \<Rightarrow> int \<Rightarrow> sockopt \<Rightarrow> int \<times> 'k"

subsection \<open>SocketOps: native handles\<close>

text \<open>The POSIX branch of \<open>SocketOps.h\<close>: a handle is an \<open>int\<close>.\<close>

type_synonym SocketHandle = int

definition kInvalidSocket :: SocketHandle where
  "kInvalidSocket = -1"

definition isValidSocket :: "SocketHandle \<Rightarrow> bool" where
  "isValidSocket socket \<longleftrightarrow> socket \<noteq> kInvalidSocket"

definition sendNative :: "('k, 'x) sys_scheme \<Rightarrow> SocketHandle \<Rightarrow> 'k \<Rightarrow> string \<Rightarrow> int \<times> 'k" where
  "sendNative sys socket k data = sys_send sys k socket data"

definition recvNative :: "('k, 'x) sys_scheme \<Rightarrow> SocketHandle \<Rightarrow> 'k \<Rightarrow> nat \<Rightarrow> int \<times> string \<times> 'k" where
  "recvNative sys socket k len = sys_recv sys k socket len"

text \<open>The Winsock branch: \<open>::send\<close> and \<open>::recv\<close> take an \<open>int\<close>, so a longer request is cut to \<open>INT_MAX\<close>.\<close>

definition sendNative_win :: "('k, 'x) sys_scheme \<Rightarrow> SocketHandle \<Rightarrow> 'k \<Rightarrow> string \<Rightarrow> int \<times> 'k" where
  "sendNative_win sys socket k data =
     sys_send sys k socket (take (if length data > nat INT_MAX then nat INT_MAX else length data) data)"

definition recvNative_win :: "('k, 'x) sys_scheme \<Rightarrow> SocketHandle \<Rightarrow> 'k \<Rightarrow> nat \<Rightarrow> int \<times> string \<times> 'k" where
  "recvNative_win sys socket k len =
     sys_recv sys k socket (if len > nat INT_MAX then nat INT_MAX else len)"

definition closeSocket :: "('k, 'x) sys_scheme \<Rightarrow> SocketHandle \<Rightarrow> 'k \<Rightarrow> 'k" where
  "closeSocket sys socket k =
     (if \<not> isValidSocket socket then k
      else sys_close sys (snd (sys_shutdown sys k socket)) socket)"

definition setReceiveTimeout :: "('k, 'x) sys_scheme \<Rightarrow> SocketHandle \<Rightarrow> int \<Rightarrow> 'k \<Rightarrow> bool \<times> 'k" where
  "setReceiveTimeout sys socket seconds k =
     (if \<not> isValidSocket socket \<or> seconds \<le> 0 then (False, k)
      else case sys_setsockopt sys k socket (SO_RCVTIMEO seconds) of (r, k') \<Rightarrow> (r = 0, k'))"

definition setReuseAddress :: "('k, 'x) sys_scheme \<Rightarrow> SocketHandle \<Rightarrow> 'k \<Rightarrow> bool \<times> 'k" where
  "setReuseAddress sys socket k =
     (case sys_setsockopt sys k socket SO_REUSEADDR of (r, k') \<Rightarrow> (r = 0, k'))"

text \<open>On Linux \<open>SO_NOSIGPIPE\<close> does not exist and the call only reports the handle's validity.\<close>

definition setNoSigPipe :: "SocketHandle \<Rightarrow> bool" where
  "setNoSigPipe socket = (if \<not> isValidSocket socket then False else True)"

function sendAll_native_loop ::
  "('k, 'x) sys_scheme \<Rightarrow> SocketHandle \<Rightarrow> 'k \<Rightarrow> string \<Rightarrow> nat \<Rightarrow> bool \<times> 'k" where
  "sendAll_native_loop sys socket k data sent =
     (if sent < length data
      then (case sendNative sys socket k (drop sent data) of (n, k') \<Rightarrow>
              if n \<le> 0 then (False, k')
              else sendAll_native_loop sys socket k' data (sent + nat n))
      else (True, k))"
  by pat_completeness auto
termination
  by (relation "measure (\<lambda>(sys, socket, k, data, sent). length data - sent)") auto

declare sendAll_native_loop.simps [simp del]

definition sendAll_native :: "('k, 'x) sys_scheme \<Rightarrow> SocketHandle \<Rightarrow> 'k \<Rightarrow> string option \<Rightarrow> bool \<times> 'k" where
  "sendAll_native sys socket k data =
     (case data of
        None \<Rightarrow> (False, k)
      | Some bytes \<Rightarrow>
          if \<not> isValidSocket socket then (False, k)
          else sendAll_native_loop sys socket k bytes 0)"

definition sendFrame_native :: "('k, 'x) sys_scheme \<Rightarrow> SocketHandle \<Rightarrow> 'k \<Rightarrow> string \<Rightarrow> nat \<Rightarrow> bool \<times> 'k" where
  "sendFrame_native sys socket k payload maxFrameSize =
     (if length payload > maxFrameSize then (False, k)
      else sendAll_native sys socket k (Some (encodeFrame payload)))"

text \<open>
  The read loops of the native \<open>receiveFrame\<close>. The first component of the result is the last
  return value of \<open>recv\<close> when the loop gave up (0: closed, negative: error) and 1 when it filled
  the buffer.
\<close>

function receive_native_loop ::
  "('k, 'x) sys_scheme \<Rightarrow> SocketHandle \<Rightarrow> 'k \<Rightarrow> string \<Rightarrow> nat \<Rightarrow> nat \<Rightarrow> int \<times> nat \<times> string \<times> 'k" where
  "receive_native_loop sys socket k buf len received =
     (if received < len
      then (case recvNative sys socket k (len - received) of (n, bytes, k') \<Rightarrow>
              if n \<le> 0 then (n, received, buf, k')
              else receive_native_loop sys socket k' (blit buf received bytes) len (received + nat n))
      else (1, received, buf, k))"
  by pat_completeness auto
termination
  by (relation "measure (\<lambda>(sys, socket, k, buf, len, received). len - received)") auto

declare receive_native_loop.simps [simp del]

definition receiveFrame_native ::
  "('k, 'x) sys_scheme \<Rightarrow> SocketHandle \<Rightarrow> 'k \<Rightarrow> nat \<Rightarrow> ReceiveFrameStatus \<times> string \<times> 'k" where
  "receiveFrame_native sys socket k maxFrameSize =
     (case receive_native_loop sys socket k (replicate kFrameHeaderSize (CHR 0x00)) kFrameHeaderSize 0 of
        (n, received, header, k1) \<Rightarrow>
          if n = 0 then ((if received = 0 then RF_Closed else RF_Error), [], k1)
          else if n < 0 then (RF_Error, [], k1)
          else let payloadSize = readBigEndian32 header
            in if unat payloadSize > maxFrameSize then (RF_TooLarge, [], k1)
            else (case receive_native_loop sys socket k1
                         (replicate (unat payloadSize) (CHR 0x00)) (unat payloadSize) 0 of
                    (n', received', payload, k2) \<Rightarrow>
                      if n' \<le> 0 then ((if n' = 0 then RF_Closed else RF_Error), payload, k2)
                      else (RF_Ok, payload, k2)))"

subsection \<open>TcpSocketLinux\<close>

record TcpSocketLinux =
  sockfd :: int

definition mk_TcpSocketLinux :: TcpSocketLinux where
  "mk_TcpSocketLinux = \<lparr>sockfd = -1\<rparr>"

definition tl_close :: "('k, 'x) sys_scheme \<Rightarrow> TcpSocketLinux \<times> 'k \<Rightarrow> TcpSocketLinux \<times> 'k" where
  "tl_close sys s =
     (case s of (t, k) \<Rightarrow>
        if sockfd t \<ge> 0
        then (t\<lparr>sockfd := -1\<rparr>, sys_close sys (snd (sys_shutdown sys k (sockfd t))) (sockfd t))
        else (t, k))"

text \<open>The loop over the resolved addresses; every attempt is on the same descriptor.\<close>

fun try_connect :: "('k, 'x) sys_scheme \<Rightarrow> int \<Rightarrow> 'k \<Rightarrow> sockaddr list \<Rightarrow> bool \<times> 'k" where
  "try_connect sys fd k [] = (False, k)"
| "try_connect sys fd k (a # as) =
     (case sys_connect sys k fd a of (r, k') \<Rightarrow>
        if r = 0 then (True, k') else try_connect sys fd k' as)"

definition tl_connect ::
  "('k, 'x) sys_scheme \<Rightarrow> TcpSocketLinux \<times> 'k \<Rightarrow> string \<Rightarrow> int \<Rightarrow> bool \<times> TcpSocketLinux \<times> 'k" where
  "tl_connect sys s host port =
     (let s1 = (if sockfd (fst s) \<noteq> -1 then tl_close sys s else s)
      in case sys_socket sys (snd s1) of (fd, k1) \<Rightarrow>
        if fd < 0 then (False, (fst s1)\<lparr>sockfd := fd\<rparr>, k1)
        else case sys_getaddrinfo sys k1 host (to_string port) of
            (None, k2) \<Rightarrow> (False, (fst s1)\<lparr>sockfd := -1\<rparr>, sys_close sys k2 fd)
          | (Some addrs, k2) \<Rightarrow>
              (case try_connect sys fd k2 addrs of (connected, k3) \<Rightarrow>
                 if \<not> connected then (False, (fst s1)\<lparr>sockfd := -1\<rparr>, sys_close sys k3 fd)
                 else (True, (fst s1)\<lparr>sockfd := fd\<rparr>, k3)))"

definition tl_send ::
  "('k, 'x) sys_scheme \<Rightarrow> TcpSocketLinux \<times> 'k \<Rightarrow> string option \<Rightarrow> nat \<times> TcpSocketLinux \<times> 'k" where
  "tl_send sys s data =
     (case s of (t, k) \<Rightarrow> case data of
        None \<Rightarrow> (0, t, k)
      | Some bytes \<Rightarrow>
          if sockfd t < 0 \<or> length bytes = 0 then (0, t, k)
          else case sys_send sys k (sockfd t) bytes of (bytes_sent, k') \<Rightarrow>
            if bytes_sent < 0 then (0, t, k') else (nat bytes_sent, t, k'))"

text \<open>\<open>buffer\<close> tells whether the caller's buffer pointer is not null.\<close>

definition tl_receive ::
  "('k, 'x) sys_scheme \<Rightarrow> TcpSocketLinux \<times> 'k \<Rightarrow> bool \<Rightarrow> nat \<Rightarrow> nat \<times> string \<times> TcpSocketLinux \<times> 'k" where
  "tl_receive sys s buffer maxlen =
     (case s of (t, k) \<Rightarrow>
        if sockfd t < 0 \<or> \<not> buffer \<or> maxlen = 0 then (0, [], t, k)
        else case sys_recv sys k (sockfd t) maxlen of (bytes_received, bytes, k') \<Rightarrow>
          if bytes_received < 0 then (0, [], t, k') else (nat bytes_received, bytes, t, k'))"

subsection \<open>TcpSocketWin\<close>

text \<open>\<open>INVALID_SOCKET\<close> is \<open>~0\<close> of the unsigned 64-bit \<open>SOCKET\<close>, \<open>SOCKET_ERROR\<close> is \<open>-1\<close>.\<close>

definition INVALID_SOCKET :: int where
  "INVALID_SOCKET = 2 ^ 64 - 1"

definition SOCKET_ERROR :: int where
  "SOCKET_ERROR = -1"

record 'k winsys = "'k sys" +
  wsa_startup :: "'k \<Rightarrow> int \<times> 'k"
  wsa_cleanup :: "'k \<Rightarrow> 'k"

record TcpSocketWin =
  sock :: int
  initialized :: bool

definition mk_TcpSocketWin :: "('k, 'x) winsys_scheme \<Rightarrow> 'k \<Rightarrow> TcpSocketWin \<times> 'k" where
  "mk_TcpSocketWin sys k =
     (case wsa_startup sys k of (r, k') \<Rightarrow>
        (\<lparr>sock = INVALID_SOCKET, initialized = (r = 0)\<rparr>, k'))"

definition tw_close :: "('k, 'x) winsys_scheme \<Rightarrow> TcpSocketWin \<times> 'k \<Rightarrow> TcpSocketWin \<times> 'k" where
  "tw_close sys s =
     (case s of (t, k) \<Rightarrow>
        if sock t \<noteq> INVALID_SOCKET
        then (t\<lparr>sock := INVALID_SOCKET\<rparr>, sys_close sys (snd (sys_shutdown sys k (sock t))) (sock t))
        else (t, k))"

definition destroy_TcpSocketWin :: "('k, 'x) winsys_scheme \<Rightarrow> TcpSocketWin \<times> 'k \<Rightarrow> 'k" where
  "destroy_TcpSocketWin sys s =
     (case tw_close sys s of (t, k) \<Rightarrow> if initialized t then wsa_cleanup sys k else k)"

fun try_connect_win :: "('k, 'x) winsys_scheme \<Rightarrow> int \<Rightarrow> 'k \<Rightarrow> sockaddr list \<Rightarrow> bool \<times> 'k" where
  "try_connect_win sys fd k [] = (False, k)"
| "try_connect_win sys fd k (a # as) =
     (case sys_connect sys k fd a of (r, k') \<Rightarrow>
        if r = 0 then (True, k') else try_connect_win sys fd k' as)"

definition tw_connect ::
  "('k, 'x) winsys_scheme \<Rightarrow> TcpSocketWin \<times> 'k \<Rightarrow> string \<Rightarrow> int \<Rightarrow> bool \<times> TcpSocketWin \<times> 'k" where
  "tw_connect sys s host port =
     (if \<not> initialized (fst s) then (False, s)
      else let s1 = (if sock (fst s) \<noteq> INVALID_SOCKET then tw_close sys s else s)
        in case sys_socket sys (snd s1) of (fd, k1) \<Rightarrow>
          if fd = INVALID_SOCKET then (False, (fst s1)\<lparr>sock := fd\<rparr>, k1)
          else case sys_getaddrinfo sys k1 host (to_string port) of
              (None, k2) \<Rightarrow> (False, (fst s1)\<lparr>sock := INVALID_SOCKET\<rparr>, sys_close sys k2 fd)
            | (Some addrs, k2) \<Rightarrow>
                (case try_connect_win sys fd k2 addrs of (connected, k3) \<Rightarrow>
                   if \<not> connected then (False, (fst s1)\<lparr>sock := INVALID_SOCKET\<rparr>, sys_close sys k3 fd)
                   else (True, (fst s1)\<lparr>sock := fd\<rparr>, k3)))"

definition tw_send ::
  "('k, 'x) winsys_scheme \<Rightarrow> TcpSocketWin \<times> 'k \<Rightarrow> string option \<Rightarrow> nat \<times> TcpSocketWin \<times> 'k" where
  "tw_send sys s data =
     (case s of (t, k) \<Rightarrow> case data of
        None \<Rightarrow> (0, t, k)
      | Some bytes \<Rightarrow>
          if sock t = INVALID_SOCKET \<or> \<not> initialized t \<or> length bytes = 0 then (0, t, k)
          else if int (length bytes) > INT_MAX then (0, t, k)
          else case sys_send sys k (sock t) bytes of (bytes_sent, k') \<Rightarrow>
            if bytes_sent = SOCKET_ERROR then (0, t, k') else (nat bytes_sent, t, k'))"

definition tw_receive ::
  "('k, 'x) winsys_scheme \<Rightarrow> TcpSocketWin \<times> 'k \<Rightarrow> bool \<Rightarrow> nat \<Rightarrow> nat \<times> string \<times> TcpSocketWin \<times> 'k" where
  "tw_receive sys s buffer maxlen =
     (case s of (t, k) \<Rightarrow>
        if sock t = INVALID_SOCKET \<or> \<not> initialized t \<or> \<not> buffer \<or> maxlen = 0 then (0, [], t, k)
        else if int maxlen > INT_MAX then (0, [], t, k)
        else case sys_recv sys k (sock t) maxlen of (bytes_received, bytes, k') \<Rightarrow>
          if bytes_received = SOCKET_ERROR then (0, [], t, k') else (nat bytes_received, bytes, t, k'))"

subsection \<open>MemorySocket of the protocol tests\<close>

record MemorySocket =
  ms_input :: string
  ms_output :: string
  ms_readOffset :: nat
  ms_maxSendChunk :: nat
  ms_maxReceiveChunk :: nat
  ms_failSend :: bool

definition ms_send :: "MemorySocket \<Rightarrow> string \<Rightarrow> nat \<times> MemorySocket" where
  "ms_send s data =
     (if ms_failSend s \<or> length data = 0 then (0, s)
      else let chunk = min (length data) (ms_maxSendChunk s)
        in (chunk, s\<lparr>ms_output := ms_output s @ take chunk data\<rparr>))"

definition ms_receive :: "MemorySocket \<Rightarrow> nat \<Rightarrow> nat \<times> string \<times> MemorySocket" where
  "ms_receive s maxlen =
     (if maxlen = 0 \<or> ms_readOffset s \<ge> length (ms_input s) then (0, [], s)
      else let available = length (ms_input s) - ms_readOffset s;
               chunk = min available (min maxlen (ms_maxReceiveChunk s))
        in (chunk, take chunk (drop (ms_readOffset s) (ms_input s)),
            s\<lparr>ms_readOffset := ms_readOffset s + chunk\<rparr>))"

subsection \<open>MemorySocket satisfies the ISocket contract\<close>

definition ms_ok :: "MemorySocket \<Rightarrow> bool" where
  "ms_ok s \<longleftrightarrow> \<not> ms_failSend s \<and> 0 < ms_maxSendChunk s \<and> 0 < ms_maxReceiveChunk s"

definition ms_unread :: "MemorySocket \<Rightarrow> string" where
  "ms_unread s = drop (ms_readOffset s) (ms_input s)"

interpretation mem: live_socket ms_send ms_receive ms_output ms_unread ms_ok
proof (unfold_locales, goal_cases)
  case (1 s data n s')
  then show ?case
    by (auto simp: ms_send_def ms_ok_def ms_unread_def Let_def split: if_splits)
next
  case (2 s m n bytes s')
  then show ?case
    by (auto simp: ms_receive_def ms_ok_def ms_unread_def Let_def add.commute split: if_splits)
       (metis append_take_drop_id drop_drop add.commute)+
next
  case (3 s data)
  then show ?case
    by (auto simp: ms_send_def ms_ok_def Let_def)
next
  case (4 s m)
  then show ?case
    by (auto simp: ms_receive_def ms_ok_def ms_unread_def Let_def)
qed

subsection \<open>The kernel's contract\<close>

text \<open>
  \<open>up k fd\<close> says that the descriptor is open and its peer reachable. A result below 0 reports an
  error and transfers nothing (\<^term>\<open>nat n = 0\<close>). Closing a descriptor leaves every other one alone
  and does not take back what was sent.
\<close>

locale kernel_stream =
  fixes sys :: "('k, 'x) sys_scheme"
    and outq :: "'k \<Rightarrow> int \<Rightarrow> string"
    and inq :: "'k \<Rightarrow> int \<Rightarrow> string"
    and up :: "'k \<Rightarrow> int \<Rightarrow> bool"
    and kinv :: "'k \<Rightarrow> bool"
  assumes send_contract: "kinv k \<Longrightarrow> sys_send sys k fd data = (n, k') \<Longrightarrow>
      n \<le> int (length data) \<and> outq k' = (outq k)(fd := outq k fd @ take (nat n) data)
      \<and> inq k' = inq k \<and> up k' = up k \<and> kinv k'"
    and recv_contract: "kinv k \<Longrightarrow> sys_recv sys k fd m = (n, bytes, k') \<Longrightarrow>
      n \<le> int m \<and> length bytes = nat n \<and> inq k fd = bytes @ inq k' fd
      \<and> (\<forall>fd'. fd' \<noteq> fd \<longrightarrow> inq k' fd' = inq k fd') \<and> outq k' = outq k \<and> up k' = up k \<and> kinv k'"
    and shutdown_contract: "kinv k \<Longrightarrow> sys_shutdown sys k fd = (r, k') \<Longrightarrow>
      outq k' = outq k \<and> (\<forall>fd'. fd' \<noteq> fd \<longrightarrow> inq k' fd' = inq k fd' \<and> up k' fd' = up k fd') \<and> kinv k'"
    and close_contract: "kinv k \<Longrightarrow> sys_close sys k fd = k' \<Longrightarrow>
      outq k' = outq k \<and> (\<forall>fd'. fd' \<noteq> fd \<longrightarrow> inq k' fd' = inq k fd' \<and> up k' fd' = up k fd') \<and> kinv k'"
    and send_up: "kinv k \<Longrightarrow> up k fd \<Longrightarrow> data \<noteq> [] \<Longrightarrow> 0 < fst (sys_send sys k fd data)"
    and recv_up: "kinv k \<Longrightarrow> up k fd \<Longrightarrow> inq k fd \<noteq> [] \<Longrightarrow> 0 < m \<Longrightarrow> 0 < fst (sys_recv sys k fd m)"

text \<open>The system as the Winsock branch of the helpers calls it. The cuts keep the contract, so whatever is proved of the
  transfer loops from \<open>kernel_stream\<close> holds for that branch.\<close>

definition winsock_calls :: "('k, 'x) sys_scheme \<Rightarrow> ('k, 'x) sys_scheme" where
  "winsock_calls sys = sys\<lparr>sys_send := (\<lambda>k fd data. sendNative_win sys fd k data), sys_recv := (\<lambda>k fd m. recvNative_win sys fd k m)\<rparr>"

lemma native_of_winsock_calls:
  "sendNative (winsock_calls sys) fd k data = sendNative_win sys fd k data"
  "recvNative (winsock_calls sys) fd k m = recvNative_win sys fd k m"
  by (simp_all add: sendNative_def recvNative_def winsock_calls_def)

context kernel_stream
begin

lemma winsock_stream: "kernel_stream (winsock_calls sys) outq inq up kinv"
proof (unfold_locales, goal_cases)
  case (1 k fd data n k')
  then have "n \<le> int (min (nat INT_MAX) (length data))" "outq k' = (outq k)(fd := outq k fd @ take (nat n) (take (nat INT_MAX) data))"
    "inq k' = inq k \<and> up k' = up k \<and> kinv k'"
    using send_contract [OF 1(1), of fd "take (nat INT_MAX) data" n k']
    by (auto simp: winsock_calls_def sendNative_win_def min_def split: if_splits)
  moreover from this(1) have "nat n \<le> nat INT_MAX" by linarith
  then have "take (nat n) (take (nat INT_MAX) data) = take (nat n) data" by (simp add: min_absorb1)
  ultimately show ?case by simp
next
  case (2 k fd m n bytes k')
  then show ?case
    using recv_contract [OF 2(1), of fd "if m > nat INT_MAX then nat INT_MAX else m" n bytes k']
    by (auto simp: winsock_calls_def recvNative_win_def split: if_splits)
next
  case (5 k fd data)
  then show ?case
    using send_up [of k fd "take (nat INT_MAX) data"] by (auto simp: winsock_calls_def sendNative_win_def INT_MAX_def min_def split: if_splits)
next
  case (6 k fd m)
  then show ?case
    using recv_up [of k fd "if m > nat INT_MAX then nat INT_MAX else m"]
    by (auto simp: winsock_calls_def recvNative_win_def INT_MAX_def split: if_splits)
qed (auto simp: winsock_calls_def dest: shutdown_contract close_contract)

end

subsection \<open>The native helpers as an ISocket\<close>

text \<open>\<open>SocketOps\<close> on one handle behaves as \<open>Protocol\<close>'s loops over this adapter, statuses apart.\<close>

definition native_send :: "('k, 'x) sys_scheme \<Rightarrow> int \<Rightarrow> 'k \<Rightarrow> string \<Rightarrow> nat \<times> 'k" where
  "native_send sys fd k data = (case sys_send sys k fd data of (n, k') \<Rightarrow> (nat n, k'))"

definition native_recv :: "('k, 'x) sys_scheme \<Rightarrow> int \<Rightarrow> 'k \<Rightarrow> nat \<Rightarrow> nat \<times> string \<times> 'k" where
  "native_recv sys fd k m = (case sys_recv sys k fd m of (n, bytes, k') \<Rightarrow> (nat n, bytes, k'))"

lemma sendAll_native_loop_eq:
  "sendAll_native_loop sys fd k data sent = sendAll_loop (native_send sys fd) k data sent"
proof (induction sys fd k data sent rule: sendAll_native_loop.induct)
  case (1 sys fd k data sent)
  show ?case
    by (subst sendAll_native_loop.simps, subst sendAll_loop.simps)
       (auto simp: native_send_def [of sys fd k "drop sent data"] sendNative_def "1.IH" split: prod.splits)
qed

lemma sendFrame_native_eq:
  "isValidSocket fd \<Longrightarrow> sendFrame_native sys fd k p m = sendFrame (native_send sys fd) k p m"
  by (simp add: sendFrame_native_def sendAll_native_def sendFrame_def sendAll_def sendAll_native_loop_eq)

lemma receive_native_loop_eq:
  assumes "receive_native_loop sys fd k buf len received = (n, r, buf', k')"
  shows "receive_loop (native_recv sys fd) k buf len received = (r, buf', k')
    \<and> (r < len \<longleftrightarrow> n \<le> 0) \<and> (\<not> n \<le> 0 \<longrightarrow> n = 1)"
  using assms
proof (induction sys fd k buf len received rule: receive_native_loop.induct)
  case (1 sys fd k buf len received)
  then show ?case
    by (subst receive_loop.simps)
       (auto simp: receive_native_loop.simps [of sys fd k] recvNative_def
             native_recv_def [of sys fd k "len - received"]
             split: prod.splits if_splits)
qed

text \<open>The two \<open>receiveFrame\<close> overloads agree on every read, on \<open>Ok\<close> and on \<open>TooLarge\<close>.\<close>

lemma receiveFrame_native_sim:
  assumes "receiveFrame_native sys fd k m = (st, p, k')"
  shows "\<exists>st'. receiveFrame (native_recv sys fd) k m = (st', p, k')
    \<and> (st = RF_Ok \<longleftrightarrow> st' = RF_Ok) \<and> (st = RF_TooLarge \<longleftrightarrow> st' = RF_TooLarge)
    \<and> (st' = RF_Closed \<longrightarrow> st \<in> {RF_Closed, RF_Error})
    \<and> (st' = RF_Error \<longrightarrow> st \<in> {RF_Closed, RF_Error}) \<and> st \<noteq> RF_Invalid"
proof -
  obtain n r header k1 where hd: "receive_native_loop sys fd k
      (replicate kFrameHeaderSize (CHR 0x00)) kFrameHeaderSize 0 = (n, r, header, k1)"
    by (metis prod_cases4)
  let ?n = "unat (readBigEndian32 header)"
  obtain n' r' buf k2 where pl: "receive_native_loop sys fd k1 (replicate ?n (CHR 0x00)) ?n 0 = (n', r', buf, k2)"
    by (metis prod_cases4)
  note eqs = receive_native_loop_eq [OF hd] receive_native_loop_eq [OF pl]
  show ?thesis
    using assms eqs
    by (auto simp: receiveFrame_native_def receiveFrame_def hd pl Let_def split: if_splits)
qed

context kernel_stream
begin

lemma native_socket:
  "live_socket (native_send sys fd) (native_recv sys fd) (\<lambda>k. outq k fd) (\<lambda>k. inq k fd) (\<lambda>k. kinv k \<and> up k fd)"
proof (unfold_locales, goal_cases)
  case (1 k data n k')
  then show ?case
    by (auto simp: native_send_def nat_le_iff dest: send_contract split: prod.splits)
next
  case (2 k m n bytes k')
  then show ?case
    by (auto simp: native_recv_def nat_le_iff dest: recv_contract split: prod.splits)
next
  case (3 k data)
  then show ?case
    using send_up [of k fd data] by (auto simp: native_send_def split: prod.splits)
next
  case (4 k m)
  then show ?case
    using recv_up [of k fd m] by (auto simp: native_recv_def split: prod.splits)
qed

lemma native_stream:
  "stream_socket (native_send sys fd) (native_recv sys fd) (\<lambda>k. outq k fd) (\<lambda>k. inq k fd) kinv"
proof (unfold_locales, goal_cases)
  case (1 k data n k')
  then show ?case
    by (auto simp: native_send_def nat_le_iff dest: send_contract split: prod.splits)
next
  case (2 k m n bytes k')
  then show ?case
    by (auto simp: native_recv_def nat_le_iff dest: recv_contract split: prod.splits)
qed

text \<open>A native send touches one descriptor's output and nothing else.\<close>

lemma sendAll_native_loop_frame:
  assumes "kinv k" "sendAll_native_loop sys fd k data sent = (ok, k')"
  shows "inq k' = inq k \<and> up k' = up k \<and> kinv k' \<and> (\<forall>fd'. fd' \<noteq> fd \<longrightarrow> outq k' fd' = outq k fd')"
  using assms
proof (induction "length data - sent" arbitrary: k sent rule: less_induct)
  case less
  obtain n k1 where s: "sys_send sys k fd (drop sent data) = (n, k1)" by fastforce
  note c = send_contract [OF less.prems(1) s]
  show ?case
  proof (cases "sent < length data \<and> 0 < n")
    case True
    with s less.prems(2) have "sendAll_native_loop sys fd k1 data (sent + nat n) = (ok, k')"
      by (auto simp: sendAll_native_loop.simps [of sys fd k] sendNative_def)
    with less.hyps [of "sent + nat n" k1] True c show ?thesis by auto
  next
    case False
    with s less.prems c show ?thesis
      by (auto simp: sendAll_native_loop.simps [of sys fd k] sendNative_def split: if_splits)
  qed
qed

lemma sendFrame_native_frame:
  assumes "kinv k" "sendFrame_native sys fd k p m = (ok, k')"
  shows "inq k' = inq k \<and> up k' = up k \<and> kinv k' \<and> (\<forall>fd'. fd' \<noteq> fd \<longrightarrow> outq k' fd' = outq k fd')"
  using assms sendAll_native_loop_frame [of k fd "encodeFrame p" 0 ok k']
  by (auto simp: sendFrame_native_def sendAll_native_def split: if_splits)

lemma sendFrame_native_out:
  assumes "kinv k" "sendFrame_native sys fd k p m = (ok, k')"
  shows "\<exists>n. outq k' fd = outq k fd @ take n (encodeFrame p)
    \<and> (ok \<longrightarrow> n = length (encodeFrame p) \<and> length p \<le> m) \<and> (m < length p \<longrightarrow> n = 0)"
proof (cases "isValidSocket fd")
  case True
  then have "sendFrame (native_send sys fd) k p m = (ok, k')"
    using assms(2) by (simp add: sendFrame_native_eq)
  then obtain n where n: "outq k' fd = outq k fd @ take n (encodeFrame p)"
    "ok \<longleftrightarrow> length p \<le> m \<and> n = length (encodeFrame p)"
    using stream_socket.sendFrame_spec [OF native_stream assms(1)] by blast
  show ?thesis
  proof (cases "m < length p")
    case True
    with assms(2) show ?thesis
      by (intro exI [of _ 0]) (auto simp: sendFrame_native_def)
  qed (use n in auto)
next
  case False
  with assms(2) show ?thesis
    by (intro exI [of _ 0]) (auto simp: sendFrame_native_def sendAll_native_def split: if_splits)
qed

lemma sendFrame_native_live:
  assumes "kinv k" "up k fd" "isValidSocket fd" "length p \<le> m"
  obtains k' where "sendFrame_native sys fd k p m = (True, k')" "outq k' = (outq k)(fd := outq k fd @ encodeFrame p)"
    "inq k' = inq k" "up k' = up k" "kinv k'"
proof -
  obtain k' where k': "sendFrame (native_send sys fd) k p m = (True, k')" "outq k' fd = outq k fd @ encodeFrame p"
    using live_socket.sendFrame_live [OF native_socket, of k fd p m] assms by blast
  then have n: "sendFrame_native sys fd k p m = (True, k')"
    using assms(3) by (simp add: sendFrame_native_eq)
  note fr = sendFrame_native_frame [OF assms(1) n]
  have "outq k' = (outq k)(fd := outq k fd @ encodeFrame p)"
    using k'(2) fr by (auto simp: fun_eq_iff)
  with n fr that show ?thesis by blast
qed

lemma closeSocket_frame:
  assumes "kinv k"
  shows "outq (closeSocket sys fd k) = outq k \<and> kinv (closeSocket sys fd k)
    \<and> (\<forall>fd'. fd' \<noteq> fd \<longrightarrow> inq (closeSocket sys fd k) fd' = inq k fd' \<and> up (closeSocket sys fd k) fd' = up k fd')"
proof (cases "isValidSocket fd")
  case True
  obtain r k1 where s: "sys_shutdown sys k fd = (r, k1)" by fastforce
  from shutdown_contract [OF assms s] close_contract [of k1 fd, OF _ refl] True s show ?thesis
    by (auto simp: closeSocket_def)
qed (simp add: closeSocket_def assms)

end

text \<open>\<open>TcpSocketLinux\<close> over such a kernel keeps the \<open>ISocket\<close> contract, so \<open>Protocol\<close>'s loops apply.\<close>

sublocale kernel_stream \<subseteq> tl: live_socket "\<lambda>s d. tl_send sys s (Some d)" "\<lambda>s m. tl_receive sys s True m"
  "\<lambda>s. outq (snd s) (sockfd (fst s))" "\<lambda>s. inq (snd s) (sockfd (fst s))"
  "\<lambda>s. kinv (snd s) \<and> 0 \<le> sockfd (fst s) \<and> up (snd s) (sockfd (fst s))"
proof (unfold_locales, goal_cases)
  case (1 s data n s')
  then show ?case
    by (auto simp: tl_send_def nat_le_iff dest: send_contract split: prod.splits if_splits)
next
  case (2 s m n bytes s')
  then show ?case
    by (auto simp: tl_receive_def nat_le_iff dest: recv_contract split: prod.splits if_splits)
next
  case (3 s data)
  then show ?case
    using send_up [of "snd s" "sockfd (fst s)" data] by (auto simp: tl_send_def split: prod.splits)
next
  case (4 s m)
  then show ?case
    using recv_up [of "snd s" "sockfd (fst s)" m] by (auto simp: tl_receive_def split: prod.splits)
qed

text \<open>The same for \<open>TcpSocketWin\<close> once \<open>WSAStartup\<close> has succeeded, for transfers of at most \<open>INT_MAX\<close> bytes.\<close>

locale win_kernel = kernel_stream sys outq inq up kinv
  for sys :: "('k, 'x) winsys_scheme"
    and outq :: "'k \<Rightarrow> int \<Rightarrow> string"
    and inq :: "'k \<Rightarrow> int \<Rightarrow> string"
    and up :: "'k \<Rightarrow> int \<Rightarrow> bool"
    and kinv :: "'k \<Rightarrow> bool"

sublocale win_kernel \<subseteq> tw: stream_socket "\<lambda>s d. tw_send sys s (Some d)" "\<lambda>s m. tw_receive sys s True m"
  "\<lambda>s. outq (snd s) (sock (fst s))" "\<lambda>s. inq (snd s) (sock (fst s))" "\<lambda>s. kinv (snd s)"
proof (unfold_locales, goal_cases)
  case (1 s data n s')
  then show ?case
    by (auto simp: tw_send_def nat_le_iff dest: send_contract split: prod.splits if_splits)
       (auto dest: send_contract simp: SOCKET_ERROR_def)
next
  case (2 s m n bytes s')
  then show ?case
    by (auto simp: tw_receive_def nat_le_iff SOCKET_ERROR_def dest: recv_contract split: prod.splits if_splits)
qed

subsection \<open>A kernel held in memory\<close>

text \<open>
  A concrete kernel on which theorems that assume the contract are evaluated: a queue of bytes per
  direction and descriptor, every transfer at most \<open>mk_chunk\<close> bytes. \<open>accept\<close> and \<open>bind\<close> live in the
  server's own parameters.
\<close>

record memk =
  mk_out :: "int \<Rightarrow> string"
  mk_in :: "int \<Rightarrow> string"
  mk_chunk :: nat

definition memk_send :: "memk \<Rightarrow> int \<Rightarrow> string \<Rightarrow> int \<times> memk" where
  "memk_send k fd data =
     (let n = min (Suc (mk_chunk k)) (length data)
      in (int n, k\<lparr>mk_out := (mk_out k)(fd := mk_out k fd @ take n data)\<rparr>))"

definition memk_recv :: "memk \<Rightarrow> int \<Rightarrow> nat \<Rightarrow> int \<times> string \<times> memk" where
  "memk_recv k fd m =
     (let n = min (Suc (mk_chunk k)) (min m (length (mk_in k fd)))
      in (int n, take n (mk_in k fd), k\<lparr>mk_in := (mk_in k)(fd := drop n (mk_in k fd))\<rparr>))"

definition memk_sys :: "memk sys" where
  "memk_sys = \<lparr>sys_socket = (\<lambda>k. (3, k)), sys_getaddrinfo = (\<lambda>k h s. (Some [h], k)),
     sys_connect = (\<lambda>k fd a. (0, k)), sys_send = memk_send, sys_recv = memk_recv,
     sys_shutdown = (\<lambda>k fd. (0, k)), sys_close = (\<lambda>k fd. k), sys_setsockopt = (\<lambda>k fd opt. (0, k))\<rparr>"

interpretation memk: kernel_stream memk_sys mk_out mk_in "\<lambda>k fd. True" "\<lambda>k. True"
  by unfold_locales (auto simp: memk_sys_def memk_send_def memk_recv_def Let_def)

definition memk_winsys :: "memk winsys" where
  "memk_winsys = sys.extend memk_sys \<lparr>wsa_startup = (\<lambda>k. (0, k)), wsa_cleanup = (\<lambda>k. k)\<rparr>"

interpretation memkw: win_kernel memk_winsys mk_out mk_in "\<lambda>k fd. True" "\<lambda>k. True"
  by unfold_locales (auto simp: memk_winsys_def sys.defs memk_sys_def memk_send_def memk_recv_def Let_def)

end
