(* ===== verification/Server_Config.thy ===== *)
theory Server_Config
  imports Cxx_Std
begin

text \<open>
  The server's settings, \<open>server/src/Config.cpp\<close> and \<open>include/Config.h\<close>. The process environment
  and the file system are parameters: \<open>env\<close> maps a variable to its value, \<open>files\<close> a path that can
  be opened to its contents. Every \<open>throw\<close> of \<open>loadServerConfig\<close> is a value of \<open>config_error\<close>.
\<close>

type_synonym environment = "string \<rightharpoonup> string"
type_synonym file_system = "string \<rightharpoonup> string"

record ServerConfig =
  cfg_port :: int
  cfg_dbConn :: string
  cfg_dbPoolSize :: nat
  cfg_maxClients :: int
  cfg_readTimeoutSeconds :: int
  cfg_maxFrameSize :: nat
  cfg_logPath :: string
  cfg_tlsEnabled :: bool
  cfg_tlsCertPath :: string
  cfg_tlsKeyPath :: string

definition default_ServerConfig :: ServerConfig where
  "default_ServerConfig =
     \<lparr>cfg_port = 8080, cfg_dbConn = [], cfg_dbPoolSize = 4, cfg_maxClients = 64,
      cfg_readTimeoutSeconds = 300, cfg_maxFrameSize = 64 * 1024,
      cfg_logPath = ''logs/user_activity.log'', cfg_tlsEnabled = False,
      cfg_tlsCertPath = [], cfg_tlsKeyPath = []\<rparr>"

datatype config_error =
    MustBeInteger string std_exception
  | MustBePositiveInteger string std_exception
  | DbConnMissing
  | PoolSizeZero
  | PortOutOfRange
  | MaxClientsNotPositive
  | ReadTimeoutNotPositive
  | FrameSizeTooSmall

text \<open>The text of each exception; \<open>what\<close> is the library's own \<open>std::exception::what\<close>.\<close>

fun config_error_text :: "(std_exception \<Rightarrow> string) \<Rightarrow> config_error \<Rightarrow> string" where
  "config_error_text what (MustBeInteger name e) = name @ '' must be an integer: '' @ what e"
| "config_error_text what (MustBePositiveInteger name e) = name @ '' must be a positive integer: '' @ what e"
| "config_error_text what DbConnMissing =
     ''CHAT_DB_CONN is not set and config/server.conf was not found or has no db_conn. ''
     @ ''Refusing to start with an unsafe default database password.''"
| "config_error_text what PoolSizeZero = ''CHAT_DB_POOL_SIZE must be greater than zero''"
| "config_error_text what PortOutOfRange = ''CHAT_SERVER_PORT must be in range 1-65535''"
| "config_error_text what MaxClientsNotPositive = ''CHAT_MAX_CLIENTS must be greater than zero''"
| "config_error_text what ReadTimeoutNotPositive = ''CHAT_READ_TIMEOUT_SEC must be greater than zero''"
| "config_error_text what FrameSizeTooSmall = ''CHAT_MAX_FRAME_SIZE must be at least 1024 bytes''"

subsection \<open>Reading settings\<close>

definition trim_blank :: "char \<Rightarrow> bool" where
  "trim_blank c \<longleftrightarrow> c \<in> {CHR 0x20, CHR 0x09, CHR 0x0D, CHR 0x0A}"

definition trim :: "string \<Rightarrow> string" where
  "trim v =
     (case str_find (\<lambda>c. \<not> trim_blank c) v of
        None \<Rightarrow> []
      | Some first \<Rightarrow>
          (case str_rfind (\<lambda>c. \<not> trim_blank c) v of
             None \<Rightarrow> []
           | Some fin \<Rightarrow> substr v first (fin - first + 1)))"

definition envOrEmpty :: "environment \<Rightarrow> string \<Rightarrow> string" where
  "envOrEmpty env name = (case env name of None \<Rightarrow> [] | Some v \<Rightarrow> v)"

definition parseInt :: "string \<Rightarrow> string \<Rightarrow> int \<Rightarrow> config_error + int" where
  "parseInt name v fallback =
     (if v = [] then Inr fallback
      else case stoi v of Inr i \<Rightarrow> Inr i | Inl e \<Rightarrow> Inl (MustBeInteger name e))"

definition parseSize :: "string \<Rightarrow> string \<Rightarrow> nat \<Rightarrow> config_error + nat" where
  "parseSize name v fallback =
     (if v = [] then Inr fallback
      else case stoul v of Inr n \<Rightarrow> Inr n | Inl e \<Rightarrow> Inl (MustBePositiveInteger name e))"

definition config_line :: "(string \<rightharpoonup> string) \<Rightarrow> string \<Rightarrow> (string \<rightharpoonup> string)" where
  "config_line m line =
     (let line' = (case str_find (\<lambda>c. c = CHR ''#'') line of None \<Rightarrow> line | Some i \<Rightarrow> substr line 0 i)
      in case str_find (\<lambda>c. c = CHR ''='') line' of
           None \<Rightarrow> m
         | Some eq \<Rightarrow> m(trim (substr line' 0 eq) \<mapsto> trim (drop (eq + 1) line')))"

definition readConfigFile :: "file_system \<Rightarrow> string \<Rightarrow> (string \<rightharpoonup> string)" where
  "readConfigFile files path =
     (if path = [] then Map.empty
      else case files path of
             None \<Rightarrow> Map.empty
           | Some contents \<Rightarrow> foldl config_line Map.empty (lines_of contents))"

definition setting :: "environment \<Rightarrow> (string \<rightharpoonup> string) \<Rightarrow> string \<Rightarrow> string \<Rightarrow> string \<Rightarrow> string" where
  "setting env fileConfig envName fileName fallback =
     (let e = envOrEmpty env envName
      in if e \<noteq> [] then e
         else case fileConfig fileName of None \<Rightarrow> fallback | Some v \<Rightarrow> v)"

subsection \<open>loadServerConfig\<close>

definition check_config :: "ServerConfig \<Rightarrow> config_error + ServerConfig" where
  "check_config c =
     (if cfg_dbConn c = [] then Inl DbConnMissing
      else if cfg_dbPoolSize c = 0 then Inl PoolSizeZero
      else if cfg_port c \<le> 0 \<or> cfg_port c > 65535 then Inl PortOutOfRange
      else if cfg_maxClients c \<le> 0 then Inl MaxClientsNotPositive
      else if cfg_readTimeoutSeconds c \<le> 0 then Inl ReadTimeoutNotPositive
      else if cfg_maxFrameSize c < 1024 then Inl FrameSizeTooSmall
      else Inr c)"

definition loadServerConfig :: "environment \<Rightarrow> file_system \<Rightarrow> config_error + ServerConfig" where
  "loadServerConfig env files =
     (let configPath = envOrEmpty env ''MESSENGER_CONFIG'';
          fileConfig = readConfigFile files (if configPath = [] then ''config/server.conf'' else configPath);
          d = default_ServerConfig;
          get = (\<lambda>envName fileName. setting env fileConfig envName fileName [])
      in case parseInt ''CHAT_SERVER_PORT'' (get ''CHAT_SERVER_PORT'' ''server_port'') (cfg_port d) of
           Inl e \<Rightarrow> Inl e
         | Inr port \<Rightarrow>
      (case parseSize ''CHAT_DB_POOL_SIZE'' (get ''CHAT_DB_POOL_SIZE'' ''db_pool_size'') (cfg_dbPoolSize d) of
           Inl e \<Rightarrow> Inl e
         | Inr pool \<Rightarrow>
      (case parseInt ''CHAT_MAX_CLIENTS'' (get ''CHAT_MAX_CLIENTS'' ''max_clients'') (cfg_maxClients d) of
           Inl e \<Rightarrow> Inl e
         | Inr clients \<Rightarrow>
      (case parseInt ''CHAT_READ_TIMEOUT_SEC'' (get ''CHAT_READ_TIMEOUT_SEC'' ''read_timeout_sec'')
              (cfg_readTimeoutSeconds d) of
           Inl e \<Rightarrow> Inl e
         | Inr timeout \<Rightarrow>
      (case parseSize ''CHAT_MAX_FRAME_SIZE'' (get ''CHAT_MAX_FRAME_SIZE'' ''max_frame_size'')
              (cfg_maxFrameSize d) of
           Inl e \<Rightarrow> Inl e
         | Inr frame \<Rightarrow>
           check_config
             \<lparr>cfg_port = port, cfg_dbConn = get ''CHAT_DB_CONN'' ''db_conn'', cfg_dbPoolSize = pool,
              cfg_maxClients = clients, cfg_readTimeoutSeconds = timeout, cfg_maxFrameSize = frame,
              cfg_logPath = setting env fileConfig ''CHAT_LOG_PATH'' ''log_path'' (cfg_logPath d),
              cfg_tlsEnabled = (get ''CHAT_ENABLE_TLS'' ''tls_enabled'' = ''1''),
              cfg_tlsCertPath = get ''CHAT_TLS_CERT'' ''tls_cert'',
              cfg_tlsKeyPath = get ''CHAT_TLS_KEY'' ''tls_key''\<rparr>)))))"

subsection \<open>Correctness of the settings\<close>

lemma parseInt_range:
  "parseInt name v d = Inr i \<Longrightarrow> INT_MIN \<le> d \<Longrightarrow> d \<le> INT_MAX \<Longrightarrow> INT_MIN \<le> i \<and> i \<le> INT_MAX"
  by (auto simp: parseInt_def split: if_splits sum.splits dest: stoi_range)

lemma parseSize_range: "parseSize name v d = Inr n \<Longrightarrow> d \<le> ULONG_MAX \<Longrightarrow> n \<le> ULONG_MAX"
  by (auto simp: parseSize_def split: if_splits sum.splits dest: stoul_range)

definition config_ok :: "ServerConfig \<Rightarrow> bool" where
  "config_ok c \<longleftrightarrow> cfg_dbConn c \<noteq> [] \<and> 0 < cfg_dbPoolSize c \<and> cfg_dbPoolSize c \<le> ULONG_MAX
     \<and> 0 < cfg_port c \<and> cfg_port c \<le> 65535
     \<and> 0 < cfg_maxClients c \<and> cfg_maxClients c \<le> INT_MAX
     \<and> 0 < cfg_readTimeoutSeconds c \<and> cfg_readTimeoutSeconds c \<le> INT_MAX
     \<and> 1024 \<le> cfg_maxFrameSize c \<and> cfg_maxFrameSize c \<le> ULONG_MAX"

text \<open>(C37) Whatever the environment and the configuration file hold, a configuration that
  \<open>loadServerConfig\<close> returns is within range in every field: there is no path around its checks.\<close>

theorem loadServerConfig_ok:
  assumes "loadServerConfig env files = Inr c"
  shows "config_ok c"
  using assms
  by (auto simp: loadServerConfig_def check_config_def config_ok_def Let_def default_ServerConfig_def
      INT_MIN_def INT_MAX_def ULONG_MAX_def
      dest: parseInt_range [unfolded INT_MIN_def INT_MAX_def] parseSize_range [unfolded ULONG_MAX_def]
      split: sum.splits if_splits)

theorem loadServerConfig_ok_witness:
  "config_ok (default_ServerConfig\<lparr>cfg_dbConn := ''host=db''\<rparr>)"
proof -
  have "loadServerConfig [''CHAT_DB_CONN'' \<mapsto> ''host=db''] Map.empty =
      Inr (default_ServerConfig\<lparr>cfg_dbConn := ''host=db''\<rparr>)"
    by (simp add: loadServerConfig_def check_config_def setting_def envOrEmpty_def readConfigFile_def
        parseInt_def parseSize_def default_ServerConfig_def)
  then show ?thesis by (rule loadServerConfig_ok)
qed

subsection \<open>The file format\<close>

lemma str_find_None: "str_find P s = None \<longleftrightarrow> (\<forall>c \<in> set s. \<not> P c)"
  by (induction s) auto

lemma str_find_append: "\<forall>c \<in> set s. \<not> P c \<Longrightarrow> str_find P (s @ t) = map_option ((+) (length s)) (str_find P t)"
proof (induction s)
  case Nil
  then show ?case by (cases "str_find P t") auto
next
  case (Cons c s)
  then show ?case by (cases "str_find P t") auto
qed

lemma str_rfind_last: "s \<noteq> [] \<Longrightarrow> P (last s) \<Longrightarrow> str_rfind P s = Some (length s - 1)"
proof (induction s)
  case (Cons c s)
  then show ?case by (cases "s = []") auto
qed simp

text \<open>A key or value that \<^const>\<open>trim\<close> and the comment and line splitting leave alone.\<close>

definition config_word :: "string \<Rightarrow> bool" where
  "config_word s \<longleftrightarrow> CHR ''#'' \<notin> set s \<and> CHR 0x0A \<notin> set s
     \<and> (s = [] \<or> \<not> trim_blank (hd s) \<and> \<not> trim_blank (last s))"

definition config_key :: "string \<Rightarrow> bool" where
  "config_key s \<longleftrightarrow> config_word s \<and> CHR ''='' \<notin> set s"

definition render_config :: "(string \<times> string) list \<Rightarrow> string" where
  "render_config kvs = concat (map (\<lambda>(k, v). k @ ''='' @ v @ [CHR 0x0A]) kvs)"

lemma trim_word: "config_word s \<Longrightarrow> trim s = s"
proof (cases s)
  case (Cons c cs)
  assume "config_word s"
  then have "\<not> trim_blank c" "\<not> trim_blank (last s)"
    using Cons by (auto simp: config_word_def)
  then have "str_rfind (\<lambda>c. \<not> trim_blank c) s = Some (length s - 1)" "str_find (\<lambda>c. \<not> trim_blank c) s = Some 0"
    using str_rfind_last [of s "\<lambda>c. \<not> trim_blank c"] Cons by auto
  then show ?thesis
    using Cons by (simp add: trim_def substr_def)
qed (simp add: trim_def)

lemma config_line_assign:
  assumes "config_key k" "config_word v"
  shows "config_line m (k @ ''='' @ v) = m(k \<mapsto> v)"
proof -
  have "str_find (\<lambda>c. c = CHR ''#'') (k @ ''='' @ v) = None"
    using assms by (auto simp: str_find_None config_key_def config_word_def)
  moreover have "str_find (\<lambda>c. c = CHR ''='') (k @ ''='' @ v) = Some (length k)"
    using assms str_find_append [of k "\<lambda>c. c = CHR ''=''" "''='' @ v"]
    by (auto simp: config_key_def)
  ultimately show ?thesis
    using assms trim_word [of k] trim_word [of v]
    by (simp add: config_line_def substr_def config_key_def)
qed

lemma getline_append:
  assumes "CHR 0x0A \<notin> set l"
  shows "getline (l @ CHR 0x0A # rest) = (l, rest)"
proof -
  have "\<And>c. c \<in> set l \<Longrightarrow> c \<noteq> CHR 0x0A" using assms by metis
  then have "takeWhile (\<lambda>c. c \<noteq> CHR 0x0A) (l @ CHR 0x0A # rest) = l"
    "dropWhile (\<lambda>c. c \<noteq> CHR 0x0A) (l @ CHR 0x0A # rest) = CHR 0x0A # rest"
    by (simp_all only: takeWhile_append2 dropWhile_append2 takeWhile.simps dropWhile.simps
        append_Nil2 simp_thms if_False)
  then show ?thesis by (simp only: getline_def list.sel)
qed

lemma lines_of_render:
  assumes "\<forall>(k, v) \<in> set kvs. config_key k \<and> config_word v"
  shows "lines_of (render_config kvs) = map (\<lambda>(k, v). k @ CHR ''='' # v) kvs"
  using assms
proof (induction kvs)
  case Nil
  then show ?case by (simp add: render_config_def lines_of.simps)
next
  case (Cons kv kvs)
  obtain k v where kv: "kv = (k, v)" by fastforce
  let ?l = "k @ ''='' @ v"
  have r: "render_config ((k, v) # kvs) = ?l @ CHR 0x0A # render_config kvs"
    by (simp add: render_config_def)
  have "CHR 0x0A \<notin> set ?l"
    using Cons.prems kv by (auto simp: config_key_def config_word_def)
  then have "getline (?l @ CHR 0x0A # render_config kvs) = (?l, render_config kvs)"
    by (rule getline_append)
  then have "lines_of (render_config ((k, v) # kvs)) = ?l # lines_of (render_config kvs)"
    by (subst lines_of.simps) (simp add: r)
  with Cons kv show ?case by simp
qed

lemma foldl_config_lines:
  assumes "\<forall>(k, v) \<in> set kvs. config_key k \<and> config_word v"
  shows "foldl config_line m (map (\<lambda>(k, v). k @ CHR ''='' # v) kvs) = m ++ map_of (rev kvs)"
  using assms
proof (induction kvs arbitrary: m)
  case (Cons kv kvs)
  obtain k v where kv: "kv = (k, v)" by fastforce
  with Cons.prems have "config_line m (k @ ''='' @ v) = m(k \<mapsto> v)"
    by (intro config_line_assign) auto
  then have "foldl config_line m (map (\<lambda>(k, v). k @ CHR ''='' # v) (kv # kvs)) = m(k \<mapsto> v) ++ map_of (rev kvs)"
    using Cons kv by simp
  then show ?case by (simp add: kv)
qed simp

text \<open>(C38) A configuration file written as \<open>key=value\<close> lines is read back as the map of those
  assignments, a later line overriding an earlier one for the same key; values may contain \<open>=\<close>.\<close>

theorem readConfigFile_render:
  assumes "path \<noteq> []" "files path = Some (render_config kvs)"
    and "\<forall>(k, v) \<in> set kvs. config_key k \<and> config_word v"
  shows "readConfigFile files path = map_of (rev kvs)"
  using assms by (simp add: readConfigFile_def lines_of_render foldl_config_lines)

theorem readConfigFile_render_witness:
  "readConfigFile [''f'' \<mapsto> ''db_conn=host=db user=app\<newline>server_port=8080\<newline>server_port=9090\<newline>''] ''f'' =
     map_of [(''server_port'', ''9090''), (''server_port'', ''8080''), (''db_conn'', ''host=db user=app'')]"
proof -
  let ?kvs = "[(''db_conn'', ''host=db user=app''), (''server_port'', ''8080''), (''server_port'', ''9090'')]"
  have r: "render_config ?kvs = ''db_conn=host=db user=app\<newline>server_port=8080\<newline>server_port=9090\<newline>''"
    by (simp add: render_config_def)
  have k: "\<forall>(k, v) \<in> set ?kvs. config_key k \<and> config_word v"
    by (simp add: config_key_def config_word_def trim_blank_def)
  show ?thesis
    using readConfigFile_render [of "''f''" "[''f'' \<mapsto> render_config ?kvs]" ?kvs, OF _ _ k] by (simp add: r)
qed

subsection \<open>Sizes with a minus sign\<close>

text \<open>A size written with a minus sign is accepted: \<open>std::stoul\<close> negates it modulo \<open>2^64\<close>, so
  \<open>CHAT_MAX_FRAME_SIZE=-1\<close> passes the lower-bound check and removes the frame limit, although the
  error text of \<open>parseSize\<close> asks for a positive integer.\<close>

theorem parseSize_accepts_negative:
  "parseSize ''CHAT_MAX_FRAME_SIZE'' ''-1'' 65536 = Inr (2 ^ 64 - 1)
   \<and> (\<exists>c. loadServerConfig [''CHAT_DB_CONN'' \<mapsto> ''host=db'', ''CHAT_MAX_FRAME_SIZE'' \<mapsto> ''-1''] Map.empty = Inr c
          \<and> cfg_maxFrameSize c = 2 ^ 64 - 1)"
proof -
  have "stoul ''-1'' = Inr (2 ^ 64 - 1)"
    by (simp add: stoul_def scan_number_def isspace_def isdigit_def digits_val_def digit_val_def ULONG_MAX_def)
  then show ?thesis
    by (simp add: parseSize_def parseInt_def loadServerConfig_def check_config_def setting_def envOrEmpty_def
        readConfigFile_def default_ServerConfig_def)
qed

end
