(* ===== verification/Server_Logger.thy ===== *)
theory Server_Logger
  imports Cxx_Std
begin

text \<open>
  The server's log, \<open>server/src/Logger.cpp\<close>. \<open>Logger::getInstance()\<close> is one object, so its state is
  part of the server's state: every operation that logs is a function on a record that extends
  \<open>logger_state\<close>. The clock and the file system are parameters (\<open>log_env\<close>): the \<open>n\<close>-th reading of the
  local time as \<open>std::put_time\<close> prints it, whether creating a directory throws (and what), and
  whether a path can be opened for appending. The log mutex makes each call one step.
\<close>

datatype LogLevel = LL_Info | LL_Warn | LL_Error

fun LogLevel_toString :: "LogLevel \<Rightarrow> string" where
  "LogLevel_toString LL_Info = ''INFO''"
| "LogLevel_toString LL_Warn = ''WARN''"
| "LogLevel_toString LL_Error = ''ERROR''"

record log_env =
  log_time :: "nat \<Rightarrow> string"
  create_directories :: "string \<Rightarrow> string option"
  can_append :: "string \<Rightarrow> bool"

text \<open>\<open>logFile\<close> is the path of the open log file, \<open>logLines\<close> what every file holds, \<open>cerr\<close> what went to
  standard error; \<open>clock_reads\<close> counts the readings of the clock.\<close>

record logger_state =
  logFile :: "string option"
  stderrFallback :: bool
  logLines :: "string \<Rightarrow> string list"
  cerr :: "string list"
  clock_reads :: nat

definition has_parent_path :: "string \<Rightarrow> bool" where
  "has_parent_path path \<longleftrightarrow> CHR ''/'' \<in> set path"

definition parent_path :: "string \<Rightarrow> string" where
  "parent_path path =
     (let dir = rev (dropWhile (\<lambda>c. c = CHR ''/'') (dropWhile (\<lambda>c. c \<noteq> CHR ''/'') (rev path)))
      in if dir = [] then ''/'' else dir)"

definition logger_init :: "(string \<Rightarrow> string list) \<Rightarrow> logger_state" where
  "logger_init files =
     \<lparr>logFile = None, stderrFallback = True, logLines = files, cerr = [], clock_reads = 0\<rparr>"

definition logger_configure ::
  "'e log_env_scheme \<Rightarrow> string \<Rightarrow> 's logger_state_scheme \<Rightarrow> 's logger_state_scheme" where
  "logger_configure env path s =
     (case (if has_parent_path path then create_directories env (parent_path path) else None) of
        Some what \<Rightarrow>
          s\<lparr>logFile := None, stderrFallback := True, cerr := cerr s @ [''Logger fallback to stderr: '' @ what]\<rparr>
      | None \<Rightarrow>
          if can_append env path then s\<lparr>logFile := Some path, stderrFallback := False\<rparr>
          else s\<lparr>logFile := None, stderrFallback := True\<rparr>)"

definition log_line :: "'e log_env_scheme \<Rightarrow> 's logger_state_scheme \<Rightarrow> LogLevel \<Rightarrow> string \<Rightarrow> string" where
  "log_line env s level message =
     log_time env (clock_reads s) @ '' ['' @ LogLevel_toString level @ ''] '' @ message"

definition logger_log ::
  "'e log_env_scheme \<Rightarrow> LogLevel \<Rightarrow> string \<Rightarrow> 's logger_state_scheme \<Rightarrow> 's logger_state_scheme" where
  "logger_log env level message s =
     s\<lparr>clock_reads := Suc (clock_reads s),
       logLines := (case logFile s of
           Some path \<Rightarrow> if stderrFallback s then logLines s
             else (logLines s)(path := logLines s path @ [log_line env s level message])
         | None \<Rightarrow> logLines s),
       cerr := (if \<not> stderrFallback s \<and> logFile s \<noteq> None then cerr s
         else cerr s @ [log_line env s level message])\<rparr>"

definition logger_info :: "'e log_env_scheme \<Rightarrow> string \<Rightarrow> 's logger_state_scheme \<Rightarrow> 's logger_state_scheme" where
  "logger_info env message = logger_log env LL_Info message"

definition logger_warn :: "'e log_env_scheme \<Rightarrow> string \<Rightarrow> 's logger_state_scheme \<Rightarrow> 's logger_state_scheme" where
  "logger_warn env message = logger_log env LL_Warn message"

definition logger_error :: "'e log_env_scheme \<Rightarrow> string \<Rightarrow> 's logger_state_scheme \<Rightarrow> 's logger_state_scheme" where
  "logger_error env message = logger_log env LL_Error message"

text \<open>The overload \<open>log(message)\<close>, and the destructor: it closes the file.\<close>

definition logger_log_plain :: "'e log_env_scheme \<Rightarrow> string \<Rightarrow> 's logger_state_scheme \<Rightarrow> 's logger_state_scheme" where
  "logger_log_plain env message = logger_info env message"

definition destroy_Logger :: "'s logger_state_scheme \<Rightarrow> 's logger_state_scheme" where
  "destroy_Logger s = (if logFile s \<noteq> None then s\<lparr>logFile := None\<rparr> else s)"

lemmas logger_defs = logger_info_def logger_warn_def logger_error_def logger_log_def

lemma logger_more [frame_simps]:
  "logger_state.more (logger_log env l m s) = logger_state.more s"
  by (simp add: logger_log_def)

lemma logger_log_sink [simp]:
  "logFile (logger_log env l m s) = logFile s" "stderrFallback (logger_log env l m s) = stderrFallback s"
  by (simp_all add: logger_log_def)

text \<open>The lines of the sink that is in use: the open file, or standard error.\<close>

definition active_log :: "'s logger_state_scheme \<Rightarrow> string list" where
  "active_log s = (case logFile s of Some path \<Rightarrow> if stderrFallback s then cerr s else logLines s path
     | None \<Rightarrow> cerr s)"

text \<open>A sequence of \<open>log\<close> calls.\<close>

fun log_all :: "'e log_env_scheme \<Rightarrow> (LogLevel \<times> string) list \<Rightarrow> 's logger_state_scheme \<Rightarrow> 's logger_state_scheme" where
  "log_all env [] s = s"
| "log_all env ((l, m) # ms) s = log_all env ms (logger_log env l m s)"

lemma logger_log_active: "active_log (logger_log env l m s) = active_log s @ [log_line env s l m]"
  by (auto simp: active_log_def logger_log_def split: option.splits)

lemma clock_reads_log [simp]: "clock_reads (logger_log env l m s) = Suc (clock_reads s)"
  by (simp add: logger_log_def)


end
