(* ===== verification/Auth_Policy.thy ===== *)
theory Auth_Policy
  imports Cxx_Std
begin

text \<open>
  The account policy of \<open>server/src/Auth.cpp\<close>: which passwords and which logins a registration
  accepts, and the facts on accepted logins that the wire format relies on.
\<close>

definition kMinPasswordLength :: nat where
  "kMinPasswordLength = 10"

record PasswordPolicyResult =
  policy_ok :: bool
  policy_message :: string

definition validatePassword :: "string \<Rightarrow> PasswordPolicyResult" where
  "validatePassword password =
     (if length password < kMinPasswordLength
      then \<lparr>policy_ok = False, policy_message = ''password must be at least 10 characters''\<rparr>
      else case foldl (\<lambda>(hasLetter, hasDigit) c. (hasLetter \<or> isalpha c, hasDigit \<or> isdigit c))
                  (False, False) password of
        (hasLetter, hasDigit) \<Rightarrow>
          if \<not> hasLetter \<or> \<not> hasDigit
          then \<lparr>policy_ok = False, policy_message = ''password must contain letters and digits''\<rparr>
          else \<lparr>policy_ok = True, policy_message = []\<rparr>)"

definition login_char :: "char \<Rightarrow> bool" where
  "login_char c \<longleftrightarrow> isalnum c \<or> c = CHR ''_'' \<or> c = CHR ''-'' \<or> c = CHR ''.''"

definition isValidLogin :: "string \<Rightarrow> bool" where
  "isValidLogin login =
     (if length login < 3 \<or> length login > 50 then False
      else list_all login_char login)"

lemma policy_fold:
  "foldl (\<lambda>(l, d) c. (l \<or> isalpha c, d \<or> isdigit c)) (l0, d0) p =
     (l0 \<or> (\<exists>c \<in> set p. isalpha c), d0 \<or> (\<exists>c \<in> set p. isdigit c))"
  by (induction p arbitrary: l0 d0) auto

text \<open>The password policy accepts a password exactly when it has at least ten characters, a letter
  and a digit; a rejected password is told which rule it broke, length first, and an accepted one
  carries no message.\<close>

theorem validatePassword_complete:
  "validatePassword p =
     (if length p < 10 then \<lparr>policy_ok = False, policy_message = ''password must be at least 10 characters''\<rparr>
      else if (\<exists>c \<in> set p. isalpha c) \<and> (\<exists>c \<in> set p. isdigit c)
      then \<lparr>policy_ok = True, policy_message = []\<rparr>
      else \<lparr>policy_ok = False, policy_message = ''password must contain letters and digits''\<rparr>)"
  by (auto simp: validatePassword_def kMinPasswordLength_def policy_fold)

lemma login_char_nospace: "login_char c \<Longrightarrow> \<not> isspace c"
  by (auto simp: login_char_def isalnum_def isalpha_def isdigit_def isspace_def)

lemma valid_login_length: "isValidLogin l \<Longrightarrow> 3 \<le> length l \<and> length l \<le> 50"
  by (simp add: isValidLogin_def split: if_splits)

lemma valid_login_nospace: "isValidLogin l \<Longrightarrow> c \<in> set l \<Longrightarrow> \<not> isspace c"
  by (auto simp: isValidLogin_def list_all_iff login_char_nospace split: if_splits)

lemma valid_login_nonempty: "isValidLogin l \<Longrightarrow> l \<noteq> []"
  using valid_login_length [of l] by auto

text \<open>A valid login survives as one word of a space-separated command or response.\<close>

lemma extract_word_login:
  assumes "isValidLogin l" "rest = [] \<or> isspace (hd rest)"
  shows "extract_word (l @ rest) = (l, rest)"
  using assms by (intro extract_word_word) (auto simp: valid_login_nonempty dest: valid_login_nospace)

end
