(* ===== verification/Db_Sql.thy ===== *)
theory Db_Sql
  imports Server_Logger Auth_Policy
begin

text \<open>
  The store behind \<open>server/src/Database.cpp\<close>: the tables of \<open>app/database/migrations\<close> with their
  constraints, transactions, and one definition per kind of SQL statement the code executes.
  PostgreSQL and pgcrypto are parameters (\<open>pg_env\<close>): the clock behind \<open>now()\<close>, \<open>crypt\<close> and
  \<open>gen_salt\<close>, \<open>to_char\<close>, the order in which rows that tie under \<open>ORDER BY\<close> come out, and the texts
  of the exceptions. The state carries a schedule of statement outcomes, so that every statement
  can fail and a commit can be in doubt (applied although it threw). A transaction that ends
  without a commit is rolled back: only \<open>commit\<close> writes \<open>tables\<close>; sequences are not rolled back.
\<close>

subsection \<open>Rows\<close>

record user_row =
  u_id :: int
  u_login :: string
  u_password_hash :: string
  u_role :: string
  u_status :: string
  u_created_at :: int
  u_updated_at :: int
  u_last_seen :: "int option"

record message_row =
  m_id :: int
  m_sender_id :: int
  m_receiver_id :: int
  m_text :: string
  m_created_at :: int

record audit_row =
  a_id :: int
  a_actor_user_id :: "int option"
  a_action :: string
  a_target_login :: string
  a_details :: string
  a_created_at :: int

record tables =
  t_users :: "user_row list"
  t_messages :: "message_row list"
  t_audit :: "audit_row list"

text \<open>A row of \<open>messages m JOIN users s ON m.sender_id = s.id JOIN users r ON m.receiver_id = r.id\<close>.\<close>

type_synonym joined = "message_row \<times> user_row \<times> user_row"

record pg_env = log_env +
  crypt :: "string \<Rightarrow> string \<Rightarrow> string"
  gen_salt :: "nat \<Rightarrow> string"
  pg_now :: "nat \<Rightarrow> int"
  to_char_utc :: "int \<Rightarrow> string"
  order_login :: "user_row list \<Rightarrow> user_row list"
  order_created :: "bool \<Rightarrow> joined list \<Rightarrow> joined list"
  violation :: "string \<Rightarrow> string"
  conversion_overrun :: string

datatype outcome = Done | Fails string | InDoubt string

datatype pq_exn = Unique_violation string | Std_exception string

fun exn_what :: "pq_exn \<Rightarrow> string" where
  "exn_what (Unique_violation w) = w"
| "exn_what (Std_exception w) = w"

record db_state = logger_state +
  tables :: tables
  work :: tables
  txn_now :: int
  txns :: nat
  users_seq :: int
  messages_seq :: int
  audit_seq :: int
  salts :: nat
  outcomes :: "outcome list"

subsection \<open>Exceptions and statements\<close>

type_synonym ('s, 'a) txn = "'s db_state_scheme \<Rightarrow> (pq_exn + 'a) \<times> 's db_state_scheme"

definition txn_return :: "'a \<Rightarrow> ('s, 'a) txn" where
  "txn_return a s = (Inr a, s)"

definition txn_throw :: "pq_exn \<Rightarrow> ('s, 'a) txn" where
  "txn_throw e s = (Inl e, s)"

definition txn_bind :: "('s, 'a) txn \<Rightarrow> ('a \<Rightarrow> ('s, 'b) txn) \<Rightarrow> ('s, 'b) txn" where
  "txn_bind m f s = (case m s of (Inl e, s') \<Rightarrow> (Inl e, s') | (Inr a, s') \<Rightarrow> f a s')"

definition txn_do :: "('s db_state_scheme \<Rightarrow> 's db_state_scheme) \<Rightarrow> ('s, unit) txn" where
  "txn_do f s = (Inr (), f s)"

text \<open>\<open>txn.exec\<close> and the transaction's constructor: the next scheduled outcome decides whether the
  statement runs or throws; with no outcome scheduled it runs.\<close>

definition attempt :: "('s, 'a) txn \<Rightarrow> ('s, 'a) txn" where
  "attempt stmt s =
     (case outcomes s of
        [] \<Rightarrow> stmt s
      | Done # os \<Rightarrow> stmt (s\<lparr>outcomes := os\<rparr>)
      | Fails w # os \<Rightarrow> (Inl (Std_exception w), s\<lparr>outcomes := os\<rparr>)
      | InDoubt w # os \<Rightarrow> (Inl (Std_exception w), s\<lparr>outcomes := os\<rparr>))"

definition begin_txn :: "'e pg_env_scheme \<Rightarrow> ('s, unit) txn" where
  "begin_txn env = attempt (\<lambda>s.
     (Inr (), s\<lparr>work := tables s, txn_now := pg_now env (txns s), txns := Suc (txns s)\<rparr>))"

definition commit :: "('s, unit) txn" where
  "commit s =
     (case outcomes s of
        [] \<Rightarrow> (Inr (), s\<lparr>tables := work s\<rparr>)
      | Done # os \<Rightarrow> (Inr (), s\<lparr>tables := work s, outcomes := os\<rparr>)
      | Fails w # os \<Rightarrow> (Inl (Std_exception w), s\<lparr>outcomes := os\<rparr>)
      | InDoubt w # os \<Rightarrow> (Inl (Std_exception w), s\<lparr>tables := work s, outcomes := os\<rparr>))"

text \<open>\<open>row[i].as<int>()\<close>: a value outside the 32-bit range throws.\<close>

definition as_int :: "'e pg_env_scheme \<Rightarrow> int \<Rightarrow> ('s, int) txn" where
  "as_int env i = (if INT_MIN \<le> i \<and> i \<le> INT_MAX then txn_return i
     else txn_throw (Std_exception (conversion_overrun env)))"

subsection \<open>SQL text functions\<close>

text \<open>\<open>length\<close> counts characters of UTF-8 text (bytes that do not continue a character); \<open>trim\<close> strips
  blanks from both ends.\<close>

definition utf8_continuation :: "char \<Rightarrow> bool" where
  "utf8_continuation c \<longleftrightarrow> 128 \<le> (of_char c :: nat) \<and> (of_char c :: nat) < 192"

definition sql_length :: "string \<Rightarrow> nat" where
  "sql_length s = length (filter (\<lambda>c. \<not> utf8_continuation c) s)"

definition sql_trim :: "string \<Rightarrow> string" where
  "sql_trim s = rev (dropWhile (\<lambda>c. c = CHR '' '') (rev (dropWhile (\<lambda>c. c = CHR '' '') s)))"

lemma sql_length_le: "sql_length s \<le> length s"
  by (simp add: sql_length_def)

subsection \<open>Statements\<close>

definition sql_select_users :: "(user_row \<Rightarrow> bool) \<Rightarrow> ('s, user_row list) txn" where
  "sql_select_users p = attempt (\<lambda>s. (Inr (filter p (t_users (work s))), s))"

definition sql_select_joined :: "(message_row \<Rightarrow> bool) \<Rightarrow> ('s, joined list) txn" where
  "sql_select_joined p = attempt (\<lambda>s.
     (Inr [(m, x, y). m \<leftarrow> t_messages (work s), p m,
             x \<leftarrow> t_users (work s), u_id x = m_sender_id m,
             y \<leftarrow> t_users (work s), u_id y = m_receiver_id m], s))"

text \<open>\<open>UPDATE chat.users SET ... WHERE p RETURNING id\<close>. The trigger \<open>trg_users_updated_at\<close> sets
  \<open>updated_at\<close> on every updated row.\<close>

definition upd_users :: "(user_row \<Rightarrow> bool) \<Rightarrow> (user_row \<Rightarrow> user_row) \<Rightarrow> tables \<Rightarrow> tables" where
  "upd_users p f t = t\<lparr>t_users := map (\<lambda>u. if p u then f u else u) (t_users t)\<rparr>"

definition set_users :: "(user_row \<Rightarrow> bool) \<Rightarrow> (int \<Rightarrow> user_row \<Rightarrow> user_row) \<Rightarrow> int \<Rightarrow> tables \<Rightarrow> tables" where
  "set_users p f now = upd_users p (\<lambda>u. (f now u)\<lparr>u_updated_at := now\<rparr>)"

definition sql_update_users ::
  "(user_row \<Rightarrow> bool) \<Rightarrow> (int \<Rightarrow> user_row \<Rightarrow> user_row) \<Rightarrow> ('s, int list) txn" where
  "sql_update_users p f = attempt (\<lambda>s.
     (Inr (map u_id (filter p (t_users (work s)))),
      s\<lparr>work := set_users p f (txn_now s) (work s)\<rparr>))"

text \<open>\<open>INSERT INTO chat.users\<close> with the constraints of \<open>002_create_users.sql\<close>.\<close>

definition add_user :: "user_row \<Rightarrow> tables \<Rightarrow> tables" where
  "add_user u t = t\<lparr>t_users := t_users t @ [u]\<rparr>"

definition new_user :: "int \<Rightarrow> string \<Rightarrow> string \<Rightarrow> int \<Rightarrow> user_row" where
  "new_user nid login hash now =
     \<lparr>u_id = nid, u_login = login, u_password_hash = hash, u_role = ''user'', u_status = ''offline'',
      u_created_at = now, u_updated_at = now, u_last_seen = None\<rparr>"

definition sql_insert_user :: "'e pg_env_scheme \<Rightarrow> string \<Rightarrow> string \<Rightarrow> ('s, int) txn" where
  "sql_insert_user env login hash = attempt (\<lambda>s.
     let nid = users_seq s + 1; s1 = s\<lparr>users_seq := nid\<rparr>
     in if nid > INT_MAX then (Inl (Std_exception (violation env ''users_id_seq'')), s)
        else if sql_length login > 50 then (Inl (Std_exception (violation env ''users_login_varchar'')), s1)
        else if sql_length (sql_trim login) < 3 then (Inl (Std_exception (violation env ''users_login_not_blank'')), s1)
        else if list_ex (\<lambda>u. u_login u = login) (t_users (work s))
        then (Inl (Unique_violation (violation env ''users_login_key'')), s1)
        else (Inr nid, s1\<lparr>work := add_user (new_user nid login hash (txn_now s)) (work s)\<rparr>))"

text \<open>\<open>INSERT INTO chat.messages\<close> with the constraints of \<open>003_create_messages.sql\<close>.\<close>

definition BIGINT_MAX :: int where
  "BIGINT_MAX = 2 ^ 63 - 1"

definition add_message :: "message_row \<Rightarrow> tables \<Rightarrow> tables" where
  "add_message m t = t\<lparr>t_messages := t_messages t @ [m]\<rparr>"

definition user_exists :: "int \<Rightarrow> tables \<Rightarrow> bool" where
  "user_exists i t = list_ex (\<lambda>u. u_id u = i) (t_users t)"

definition sql_insert_message :: "'e pg_env_scheme \<Rightarrow> int \<Rightarrow> int \<Rightarrow> string \<Rightarrow> ('s, int) txn" where
  "sql_insert_message env sender receiver text = attempt (\<lambda>s.
     let nid = messages_seq s + 1; s1 = s\<lparr>messages_seq := nid\<rparr>
     in if nid > BIGINT_MAX then (Inl (Std_exception (violation env ''messages_id_seq'')), s)
        else if sql_length (sql_trim text) = 0 then (Inl (Std_exception (violation env ''messages_text_not_blank'')), s1)
        else if sql_length text > 4096 then (Inl (Std_exception (violation env ''messages_text_size'')), s1)
        else if \<not> user_exists sender (work s) then (Inl (Std_exception (violation env ''messages_sender_id_fkey'')), s1)
        else if \<not> user_exists receiver (work s) then (Inl (Std_exception (violation env ''messages_receiver_id_fkey'')), s1)
        else (Inr nid, s1\<lparr>work := add_message \<lparr>m_id = nid, m_sender_id = sender, m_receiver_id = receiver,
                m_text = text, m_created_at = txn_now s\<rparr> (work s)\<rparr>))"

text \<open>\<open>INSERT INTO chat.audit_log\<close> with the constraints of \<open>004_create_audit_log.sql\<close>.\<close>

definition add_audit :: "audit_row \<Rightarrow> tables \<Rightarrow> tables" where
  "add_audit a t = t\<lparr>t_audit := t_audit t @ [a]\<rparr>"

definition sql_insert_audit ::
  "'e pg_env_scheme \<Rightarrow> int option \<Rightarrow> string \<Rightarrow> string \<Rightarrow> string \<Rightarrow> ('s, unit) txn" where
  "sql_insert_audit env actor action target details = attempt (\<lambda>s.
     let nid = audit_seq s + 1; s1 = s\<lparr>audit_seq := nid\<rparr>
     in if nid > BIGINT_MAX then (Inl (Std_exception (violation env ''audit_log_id_seq'')), s)
        else if sql_length action > 64 \<or> sql_length target > 50
        then (Inl (Std_exception (violation env ''audit_log_varchar'')), s1)
        else if sql_length (sql_trim action) = 0 then (Inl (Std_exception (violation env ''audit_action_not_blank'')), s1)
        else if (case actor of None \<Rightarrow> False | Some i \<Rightarrow> \<not> user_exists i (work s))
        then (Inl (Std_exception (violation env ''audit_log_actor_user_id_fkey'')), s1)
        else (Inr (), s1\<lparr>work := add_audit \<lparr>a_id = nid, a_actor_user_id = actor, a_action = action,
                a_target_login = target, a_details = details, a_created_at = txn_now s\<rparr> (work s)\<rparr>))"

text \<open>\<open>SELECT crypt($1, gen_salt('bf', 12))\<close> and \<open>SELECT crypt($1, $2) = $2\<close>.\<close>

definition sql_hash :: "'e pg_env_scheme \<Rightarrow> string \<Rightarrow> ('s, string) txn" where
  "sql_hash env plain = attempt (\<lambda>s.
     (Inr (crypt env plain (gen_salt env (salts s))), s\<lparr>salts := Suc (salts s)\<rparr>))"

definition sql_verify :: "'e pg_env_scheme \<Rightarrow> string \<Rightarrow> string \<Rightarrow> ('s, bool) txn" where
  "sql_verify env plain hash = attempt (\<lambda>s. (Inr (crypt env plain hash = hash), s))"

lemmas sql_defs = sql_select_users_def sql_select_joined_def sql_update_users_def sql_insert_user_def
  sql_insert_message_def sql_insert_audit_def sql_hash_def sql_verify_def begin_txn_def

subsection \<open>Reasoning about statement sequences\<close>

text \<open>
  \<open>wp m P E s\<close>: running \<open>m\<close> from \<open>s\<close> ends in \<open>P\<close> when it returns and in \<open>E\<close> when it throws. The rules
  walk through a body statement by statement; an outcome schedule is only ever shortened.
\<close>

definition wp ::
  "('s, 'a) txn \<Rightarrow> ('a \<Rightarrow> 's db_state_scheme \<Rightarrow> bool) \<Rightarrow> (pq_exn \<Rightarrow> 's db_state_scheme \<Rightarrow> bool)
     \<Rightarrow> 's db_state_scheme \<Rightarrow> bool" where
  "wp m P E s = (case m s of (Inr a, s') \<Rightarrow> P a s' | (Inl e, s') \<Rightarrow> E e s')"

lemma wp_bind [simp]: "wp (txn_bind m f) P E s = wp m (\<lambda>a. wp (f a) P E) E s"
  by (simp add: wp_def txn_bind_def split: prod.splits sum.splits)

lemma wp_return [simp]: "wp (txn_return a) P E s = P a s"
  by (simp add: wp_def txn_return_def)

lemma wp_throw [simp]: "wp (txn_throw e) P E s = E e s"
  by (simp add: wp_def txn_throw_def)

lemma wp_do [simp]: "wp (txn_do f) P E s = P () (f s)"
  by (simp add: wp_def txn_do_def)

lemma wp_as_int [simp]:
  "wp (as_int env i) P E s =
     (if INT_MIN \<le> i \<and> i \<le> INT_MAX then P i s else E (Std_exception (conversion_overrun env)) s)"
  by (simp add: as_int_def)

text \<open>No commit of the schedule is in doubt.\<close>

definition sure :: "outcome list \<Rightarrow> bool" where
  "sure os \<longleftrightarrow> list_all (\<lambda>x. case x of InDoubt w \<Rightarrow> False | _ \<Rightarrow> True) os"

lemma sure_simps [simp]: "sure []" "sure (x # os) \<longleftrightarrow> (\<forall>w. x \<noteq> InDoubt w) \<and> sure os"
  by (simp_all add: sure_def split: outcome.splits)

definition no_doubt :: "'s db_state_scheme \<Rightarrow> bool" where
  "no_doubt s \<longleftrightarrow> sure (outcomes s)"

lemma wp_attempt:
  assumes "\<And>os. (sure (outcomes s) \<longrightarrow> sure os) \<Longrightarrow>
      case stmt (s\<lparr>outcomes := os\<rparr>) of (Inr a, s') \<Rightarrow> P a s' | (Inl e, s') \<Rightarrow> E e s'"
    and "\<And>os w. (sure (outcomes s) \<longrightarrow> sure os) \<Longrightarrow> E (Std_exception w) (s\<lparr>outcomes := os\<rparr>)"
  shows "wp (attempt stmt) P E s"
proof (cases "outcomes s")
  case Nil
  then have "s\<lparr>outcomes := []\<rparr> = s" by (cases s) simp
  with Nil assms(1) [of "[]"] show ?thesis by (simp add: wp_def attempt_def)
next
  case (Cons x os)
  with assms(1) [of os] assms(2) [of os] show ?thesis
    by (cases x) (simp_all add: wp_def attempt_def)
qed

lemma wp_commit:
  assumes "\<And>os. (sure (outcomes s) \<longrightarrow> sure os) \<Longrightarrow> P () (s\<lparr>tables := work s, outcomes := os\<rparr>)"
    and "\<And>os w. (sure (outcomes s) \<longrightarrow> sure os) \<Longrightarrow> E (Std_exception w) (s\<lparr>outcomes := os\<rparr>)"
    and "\<And>w os. \<not> sure (outcomes s) \<Longrightarrow> E (Std_exception w) (s\<lparr>tables := work s, outcomes := os\<rparr>)"
  shows "wp commit P E s"
proof (cases "outcomes s")
  case Nil
  then have "s\<lparr>tables := work s, outcomes := []\<rparr> = s\<lparr>tables := work s\<rparr>" by (cases s) simp
  with Nil assms(1) [of "[]"] show ?thesis by (simp add: wp_def commit_def)
next
  case (Cons x os)
  with assms(1) [of os] assms(2) [of os] assms(3) [of _ os] show ?thesis
    by (cases x) (simp_all add: wp_def commit_def)
qed

lemma wpE:
  assumes "wp m P E s"
  obtains a s' where "m s = (Inr a, s')" "P a s'" | e s' where "m s = (Inl e, s')" "E e s'"
  using assms by (auto simp: wp_def split: prod.splits sum.splits)

text \<open>Logging leaves the store alone.\<close>

lemma logger_db_frame [simp]:
  fixes s :: "'s db_state_scheme"
  shows "tables (logger_log env l m s) = tables s" "work (logger_log env l m s) = work s"
    "txn_now (logger_log env l m s) = txn_now s" "txns (logger_log env l m s) = txns s"
    "users_seq (logger_log env l m s) = users_seq s" "messages_seq (logger_log env l m s) = messages_seq s"
    "audit_seq (logger_log env l m s) = audit_seq s" "salts (logger_log env l m s) = salts s"
    "outcomes (logger_log env l m s) = outcomes s" "db_state.more (logger_log env l m s) = db_state.more s"
  by (simp_all add: logger_log_def)

lemma no_doubt_log [simp]: "no_doubt (logger_log env l m s) = no_doubt s"
  by (simp add: no_doubt_def)

declare logger_info_def [simp] logger_warn_def [simp] logger_error_def [simp]

subsection \<open>One rule per statement\<close>

text \<open>
  The sequences and the salt counter in the order of the fields; they only grow, also in a
  transaction that is rolled back.
\<close>

definition seqs :: "'s db_state_scheme \<Rightarrow> int \<times> int \<times> int \<times> nat" where
  "seqs s = (users_seq s, messages_seq s, audit_seq s, salts s)"

fun seqs_le :: "int \<times> int \<times> int \<times> nat \<Rightarrow> int \<times> int \<times> int \<times> nat \<Rightarrow> bool" where
  "seqs_le (a, b, c, d) (a', b', c', d') \<longleftrightarrow> a \<le> a' \<and> b \<le> b' \<and> c \<le> c' \<and> d \<le> d'"

lemma seqs_le_refl [simp]: "seqs_le q q"
  by (cases q) simp

lemma seqs_le_trans: "seqs_le p q \<Longrightarrow> seqs_le q r \<Longrightarrow> seqs_le p r"
  by (cases p; cases q; cases r) simp

lemma seqs_log [simp]: "seqs (logger_log env l m s) = seqs s"
  by (simp add: seqs_def)

text \<open>How a step from \<open>s\<close> to \<open>s'\<close> may end: with the tables as they were, or with the tables \<open>t\<close>, which
  without a success answer happens only when a commit was in doubt.\<close>

definition same_rows :: "'s db_state_scheme \<Rightarrow> 's db_state_scheme \<Rightarrow> bool" where
  "same_rows s s' \<longleftrightarrow> tables s' = tables s \<and> seqs_le (seqs s) (seqs s') \<and> (no_doubt s \<longrightarrow> no_doubt s')
     \<and> db_state.more s' = db_state.more s"

definition becomes ::
  "tables \<Rightarrow> int \<times> int \<times> int \<times> nat \<Rightarrow> bool \<Rightarrow> 's db_state_scheme \<Rightarrow> 's db_state_scheme \<Rightarrow> bool" where
  "becomes t q ok s s' \<longleftrightarrow> tables s' = t \<and> (ok \<or> \<not> no_doubt s) \<and> seqs s' = q \<and> seqs_le (seqs s) q
     \<and> (no_doubt s \<longrightarrow> no_doubt s') \<and> db_state.more s' = db_state.more s"

lemma same_rows_refl [simp]: "same_rows s s"
  by (simp add: same_rows_def)

lemma same_rows_trans: "same_rows s s' \<Longrightarrow> same_rows s' s'' \<Longrightarrow> same_rows s s''"
  by (auto simp: same_rows_def intro: seqs_le_trans)

lemma same_rows_log [simp]: "same_rows s (logger_log env l m s') = same_rows s s'"
  by (simp add: same_rows_def)

lemma becomes_log [simp]: "becomes t q ok s (logger_log env l m s') = becomes t q ok s s'"
  by (simp add: becomes_def)

text \<open>Inside a transaction opened in \<open>s\<close>: its view is \<open>w\<close> and the sequences stand at \<open>q\<close>.\<close>

definition in_txn ::
  "'e pg_env_scheme \<Rightarrow> 's db_state_scheme \<Rightarrow> tables \<Rightarrow> int \<times> int \<times> int \<times> nat \<Rightarrow> 's db_state_scheme \<Rightarrow> bool" where
  "in_txn env s w q s1 \<longleftrightarrow> tables s1 = tables s \<and> work s1 = w \<and> txn_now s1 = pg_now env (txns s) \<and> seqs s1 = q
     \<and> seqs_le (seqs s) q \<and> (no_doubt s \<longrightarrow> no_doubt s1) \<and> db_state.more s1 = db_state.more s"

lemma in_txn_log [simp]: "in_txn env s w q (logger_log env' l m s1) = in_txn env s w q s1"
  by (simp add: in_txn_def)

lemma in_txn_rollback: "in_txn env s w q s1 \<Longrightarrow> same_rows s s1"
  by (auto simp: in_txn_def same_rows_def)

lemmas txn_defs = no_doubt_def in_txn_def same_rows_def becomes_def seqs_def

lemma wp_begin:
  assumes "\<And>s1. in_txn env s (tables s) (users_seq s, messages_seq s, audit_seq s, salts s) s1 \<Longrightarrow> P () s1"
    and "\<And>e s1. same_rows s s1 \<Longrightarrow> E e s1"
  shows "wp (begin_txn env) P E s"
  unfolding begin_txn_def by (rule wp_attempt) (auto intro!: assms simp: txn_defs)

lemma wp_select_users:
  assumes "in_txn env s w q s1" "\<And>s2. in_txn env s w q s2 \<Longrightarrow> P (filter p (t_users w)) s2"
    "\<And>e s2. same_rows s s2 \<Longrightarrow> E e s2"
  shows "wp (sql_select_users p) P E s1"
  unfolding sql_select_users_def using assms by (intro wp_attempt) (auto simp: txn_defs)

definition join_messages :: "(message_row \<Rightarrow> bool) \<Rightarrow> tables \<Rightarrow> joined list" where
  "join_messages p t = [(m, x, y). m \<leftarrow> t_messages t, p m, x \<leftarrow> t_users t, u_id x = m_sender_id m,
     y \<leftarrow> t_users t, u_id y = m_receiver_id m]"

lemma wp_select_joined:
  assumes "in_txn env s w q s1" "\<And>s2. in_txn env s w q s2 \<Longrightarrow> P (join_messages p w) s2"
    "\<And>e s2. same_rows s s2 \<Longrightarrow> E e s2"
  shows "wp (sql_select_joined p) P E s1"
  unfolding sql_select_joined_def join_messages_def [symmetric] using assms
  by (intro wp_attempt) (auto simp: txn_defs)

lemma wp_update_users:
  assumes "in_txn env s w q s1"
    "\<And>s2. in_txn env s (set_users p f (pg_now env (txns s)) w) q s2 \<Longrightarrow> P (map u_id (filter p (t_users w))) s2"
    "\<And>e s2. same_rows s s2 \<Longrightarrow> E e s2"
  shows "wp (sql_update_users p f) P E s1"
  unfolding sql_update_users_def using assms by (intro wp_attempt) (auto simp: txn_defs)

lemma wp_insert_user:
  assumes "in_txn env s w (us, ms, au, sl) s1"
    "\<And>s2. in_txn env s (add_user (new_user (us + 1) login hash (pg_now env (txns s))) w) (us + 1, ms, au, sl) s2 \<Longrightarrow>
       us < INT_MAX \<Longrightarrow> \<forall>u\<in>set (t_users w). u_login u \<noteq> login \<Longrightarrow> P (us + 1) s2"
    "\<And>e s2. same_rows s s2 \<Longrightarrow> E e s2"
  shows "wp (sql_insert_user env' login hash) P E s1"
  unfolding sql_insert_user_def using assms
  by (intro wp_attempt) (auto simp: txn_defs Let_def list_ex_iff)

lemma wp_insert_message:
  assumes "in_txn env s w (us, ms, au, sl) s1"
    "\<And>s2. in_txn env s (add_message \<lparr>m_id = ms + 1, m_sender_id = sender, m_receiver_id = receiver, m_text = text,
         m_created_at = pg_now env (txns s)\<rparr> w) (us, ms + 1, au, sl) s2 \<Longrightarrow>
       ms < BIGINT_MAX \<Longrightarrow> sql_length (sql_trim text) \<noteq> 0 \<Longrightarrow> sql_length text \<le> 4096 \<Longrightarrow>
       user_exists sender w \<Longrightarrow> user_exists receiver w \<Longrightarrow> P (ms + 1) s2"
    "\<And>e s2. same_rows s s2 \<Longrightarrow> E e s2"
  shows "wp (sql_insert_message env' sender receiver text) P E s1"
  unfolding sql_insert_message_def using assms
  by (intro wp_attempt) (auto simp: txn_defs Let_def)

lemma wp_insert_audit:
  assumes "in_txn env s w (us, ms, au, sl) s1"
    "\<And>s2. in_txn env s (add_audit \<lparr>a_id = au + 1, a_actor_user_id = actor, a_action = action, a_target_login = target,
         a_details = details, a_created_at = pg_now env (txns s)\<rparr> w) (us, ms, au + 1, sl) s2 \<Longrightarrow>
       (\<And>i. actor = Some i \<Longrightarrow> user_exists i w) \<Longrightarrow> P () s2"
    "\<And>e s2. same_rows s s2 \<Longrightarrow> E e s2"
  shows "wp (sql_insert_audit env' actor action target details) P E s1"
  unfolding sql_insert_audit_def using assms
  by (intro wp_attempt) (auto simp: txn_defs Let_def split: option.splits)

lemma wp_hash:
  assumes "in_txn env s w (us, ms, au, sl) s1"
    "\<And>s2. in_txn env s w (us, ms, au, Suc sl) s2 \<Longrightarrow> P (crypt env' plain (gen_salt env' sl)) s2"
    "\<And>e s2. same_rows s s2 \<Longrightarrow> E e s2"
  shows "wp (sql_hash env' plain) P E s1"
  unfolding sql_hash_def using assms by (intro wp_attempt) (auto simp: txn_defs)

lemma wp_verify:
  assumes "in_txn env s w q s1" "\<And>s2. in_txn env s w q s2 \<Longrightarrow> P (crypt env' plain hash = hash) s2"
    "\<And>e s2. same_rows s s2 \<Longrightarrow> E e s2"
  shows "wp (sql_verify env' plain hash) P E s1"
  unfolding sql_verify_def using assms by (intro wp_attempt) (auto simp: txn_defs)

lemma wp_commit_cases:
  assumes "in_txn env s w q s1"
    "\<And>s2. becomes w q True s s2 \<Longrightarrow> P () s2"
    "\<And>e s2. same_rows s s2 \<Longrightarrow> E e s2"
    "\<And>e s2. becomes w q False s s2 \<Longrightarrow> E e s2"
  shows "wp commit P E s1"
  using assms by (intro wp_commit) (auto simp: txn_defs)

lemmas wp_txn = wp_select_users wp_select_joined wp_update_users wp_insert_user wp_insert_message
  wp_insert_audit wp_hash wp_verify wp_commit_cases

end
