(* ===== verification/Database.thy ===== *)
theory Database
  imports Db_Sql
begin

text \<open>
  The class \<open>Database\<close> of \<open>server/src/Database.cpp\<close>: one definition per method, over the store of
  \<open>Db_Sql\<close>. A method that opens a \<open>try\<close> block is split in the block's body (\<open>..._txn\<close>, a statement
  sequence that may throw) and the method itself, which catches. Reading the body to its end
  without a commit rolls the transaction back. The connection a method holds is the subject of
  \<open>Db_Pool\<close>; here each method is one step.
\<close>

datatype DbStatus = DB_Ok | DB_ValidationError | DB_Unauthorized | DB_Forbidden | DB_NotFound
  | DB_Duplicate | DB_Banned | DB_Error

record DbResult =
  res_status :: DbStatus
  res_message :: string
  res_id :: int

record LoginResult =
  lr_status :: DbStatus
  lr_message :: string
  lr_userId :: int
  lr_login :: string
  lr_role :: string

record UserSummary =
  us_id :: int
  us_login :: string
  us_role :: string
  us_status :: string
  us_lastSeen :: string

record MessageRecord =
  mr_id :: int
  mr_sender :: string
  mr_receiver :: string
  mr_text :: string
  mr_createdAt :: string

definition kDefaultLimit :: int where "kDefaultLimit = 50"
definition kMaxLimit :: int where "kMaxLimit = 500"

definition clampLimit :: "int \<Rightarrow> int" where
  "clampLimit limit = (if limit \<le> 0 then kDefaultLimit else min limit kMaxLimit)"

definition makeResult :: "DbStatus \<Rightarrow> string \<Rightarrow> int \<Rightarrow> DbResult" where
  "makeResult status message rid = \<lparr>res_status = status, res_message = message, res_id = rid\<rparr>"

definition makeLogin :: "DbStatus \<Rightarrow> string \<Rightarrow> LoginResult" where
  "makeLogin status message =
     \<lparr>lr_status = status, lr_message = message, lr_userId = -1, lr_login = [], lr_role = []\<rparr>"

subsection \<open>ping, hashing, audit\<close>

definition ping :: "'e pg_env_scheme \<Rightarrow> 's db_state_scheme \<Rightarrow> bool \<times> 's db_state_scheme" where
  "ping env s =
     (case txn_bind (begin_txn env) (\<lambda>_. attempt (txn_return ())) s of
        (Inr _, s') \<Rightarrow> (True, s')
      | (Inl e, s') \<Rightarrow> (False, logger_error env (''database ping failed: '' @ exn_what e) s'))"

definition hashPassword :: "'e pg_env_scheme \<Rightarrow> string \<Rightarrow> ('s, string) txn" where
  "hashPassword env plainPassword =
     txn_bind (begin_txn env) (\<lambda>_.
     txn_bind (sql_hash env plainPassword) (\<lambda>hash.
     txn_bind commit (\<lambda>_. txn_return hash)))"

definition verifyPassword :: "'e pg_env_scheme \<Rightarrow> string \<Rightarrow> string \<Rightarrow> ('s, bool) txn" where
  "verifyPassword env plainPassword passwordHash =
     txn_bind (begin_txn env) (\<lambda>_.
     txn_bind (sql_verify env plainPassword passwordHash) (\<lambda>ok.
     txn_bind commit (\<lambda>_. txn_return ok)))"

definition audit :: "'e pg_env_scheme \<Rightarrow> int \<Rightarrow> string \<Rightarrow> string \<Rightarrow> string \<Rightarrow> ('s, unit) txn" where
  "audit env actorUserId action targetLogin details =
     (if actorUserId \<le> 0 then sql_insert_audit env None action targetLogin details
      else sql_insert_audit env (Some actorUserId) action targetLogin details)"

subsection \<open>Accounts\<close>

definition registerUser_txn :: "'e pg_env_scheme \<Rightarrow> string \<Rightarrow> string \<Rightarrow> ('s, DbResult) txn" where
  "registerUser_txn env login password =
     txn_bind (begin_txn env) (\<lambda>_.
     txn_bind (sql_hash env password) (\<lambda>passwordHash.
     txn_bind (sql_insert_user env login passwordHash) (\<lambda>uid.
     txn_bind (audit env uid ''register'' login ''user self-registered'') (\<lambda>_.
     txn_bind commit (\<lambda>_.
     txn_bind (txn_do (logger_info env (''user registered: '' @ login))) (\<lambda>_.
     txn_return (makeResult DB_Ok ''registered'' uid)))))))"

definition registerUser ::
  "'e pg_env_scheme \<Rightarrow> string \<Rightarrow> string \<Rightarrow> 's db_state_scheme \<Rightarrow> DbResult \<times> 's db_state_scheme" where
  "registerUser env login password s =
     (if \<not> isValidLogin login
      then (makeResult DB_ValidationError
              (''login must be 3-50 chars: letters, digits, '.', '_' or '-'' @ [CHR 0x27]) (-1), s)
      else let policy = validatePassword password
        in if \<not> policy_ok policy then (makeResult DB_ValidationError (policy_message policy) (-1), s)
        else case registerUser_txn env login password s of
            (Inr r, s') \<Rightarrow> (r, s')
          | (Inl (Unique_violation w), s') \<Rightarrow> (makeResult DB_Duplicate ''login already exists'' (-1), s')
          | (Inl (Std_exception w), s') \<Rightarrow>
              (makeResult DB_Error ''database error'' (-1),
               logger_error env (''registration failed for '' @ login @ '': '' @ w) s'))"

definition set_status :: "string \<Rightarrow> int \<Rightarrow> user_row \<Rightarrow> user_row" where
  "set_status status now u = u\<lparr>u_status := status, u_last_seen := Some now\<rparr>"

definition loginUser_txn :: "'e pg_env_scheme \<Rightarrow> string \<Rightarrow> string \<Rightarrow> ('s, LoginResult) txn" where
  "loginUser_txn env login password =
     txn_bind (begin_txn env) (\<lambda>_.
     txn_bind (sql_select_users (\<lambda>u. u_login u = login)) (\<lambda>res.
     case res of
       [] \<Rightarrow> txn_return (makeLogin DB_Unauthorized ''invalid login or password'')
     | row # _ \<Rightarrow>
         if u_status row = ''banned''
         then txn_return \<lparr>lr_status = DB_Banned, lr_message = ''user is banned'',
                lr_userId = u_id row, lr_login = login, lr_role = u_role row\<rparr>
         else txn_bind (sql_verify env password (u_password_hash row)) (\<lambda>ok.
           if \<not> ok
           then txn_bind (txn_do (logger_warn env (''login failed for user: '' @ login))) (\<lambda>_.
             txn_return (makeLogin DB_Unauthorized ''invalid login or password''))
           else
             txn_bind (sql_update_users (\<lambda>u. u_id u = u_id row) (set_status ''online'')) (\<lambda>_.
             txn_bind (audit env (u_id row) ''login'' login ''login success'') (\<lambda>_.
             txn_bind commit (\<lambda>_.
             txn_bind (txn_do (logger_info env (''login success: '' @ login))) (\<lambda>_.
             txn_return \<lparr>lr_status = DB_Ok, lr_message = ''login ok'',
                lr_userId = u_id row, lr_login = login, lr_role = u_role row\<rparr>)))))))"

definition loginUser ::
  "'e pg_env_scheme \<Rightarrow> string \<Rightarrow> string \<Rightarrow> 's db_state_scheme \<Rightarrow> LoginResult \<times> 's db_state_scheme" where
  "loginUser env login password s =
     (case loginUser_txn env login password s of
        (Inr r, s') \<Rightarrow> (r, s')
      | (Inl e, s') \<Rightarrow>
          (makeLogin DB_Error ''database error'',
           logger_error env (''login failed for '' @ login @ '': '' @ exn_what e) s'))"

definition logoutUser :: "'e pg_env_scheme \<Rightarrow> int \<Rightarrow> 's db_state_scheme \<Rightarrow> DbResult \<times> 's db_state_scheme" where
  "logoutUser env userId s =
     (case txn_bind (begin_txn env) (\<lambda>_.
           txn_bind (sql_update_users (\<lambda>u. u_id u = userId \<and> u_status u \<noteq> ''banned'') (set_status ''offline'')) (\<lambda>_.
           commit)) s of
        (Inr _, s') \<Rightarrow> (makeResult DB_Ok ''logout ok'' userId, s')
      | (Inl e, s') \<Rightarrow> (makeResult DB_Error ''database error'' (-1),
                        logger_error env (''logout failed: '' @ exn_what e) s'))"

subsection \<open>Users\<close>

definition user_summary :: "'e pg_env_scheme \<Rightarrow> user_row \<Rightarrow> UserSummary" where
  "user_summary env u = \<lparr>us_id = u_id u, us_login = u_login u, us_role = u_role u, us_status = u_status u,
     us_lastSeen = (case u_last_seen u of None \<Rightarrow> [] | Some t \<Rightarrow> to_char_utc env t)\<rparr>"

definition getUserId :: "'e pg_env_scheme \<Rightarrow> string \<Rightarrow> 's db_state_scheme \<Rightarrow> int option \<times> 's db_state_scheme" where
  "getUserId env login s =
     (case txn_bind (begin_txn env) (\<lambda>_. sql_select_users (\<lambda>u. u_login u = login)) s of
        (Inr [], s') \<Rightarrow> (None, s')
      | (Inr (row # _), s') \<Rightarrow> (Some (u_id row), s')
      | (Inl e, s') \<Rightarrow> (None, logger_error env (''getUserId failed: '' @ exn_what e) s'))"

definition getUserByLogin ::
  "'e pg_env_scheme \<Rightarrow> string \<Rightarrow> 's db_state_scheme \<Rightarrow> UserSummary option \<times> 's db_state_scheme" where
  "getUserByLogin env login s =
     (case txn_bind (begin_txn env) (\<lambda>_. sql_select_users (\<lambda>u. u_login u = login)) s of
        (Inr [], s') \<Rightarrow> (None, s')
      | (Inr (row # _), s') \<Rightarrow> (Some (user_summary env row), s')
      | (Inl e, s') \<Rightarrow> (None, logger_error env (''getUserByLogin failed: '' @ exn_what e) s'))"

definition listUsers :: "'e pg_env_scheme \<Rightarrow> 's db_state_scheme \<Rightarrow> UserSummary list \<times> 's db_state_scheme" where
  "listUsers env s =
     (case txn_bind (begin_txn env) (\<lambda>_. sql_select_users (\<lambda>u. True)) s of
        (Inr res, s') \<Rightarrow> (map (user_summary env) (order_login env res), s')
      | (Inl e, s') \<Rightarrow> ([], logger_error env (''listUsers failed: '' @ exn_what e) s'))"

subsection \<open>Messages\<close>

definition sendMessage_txn :: "'e pg_env_scheme \<Rightarrow> int \<Rightarrow> string \<Rightarrow> string \<Rightarrow> ('s, DbResult) txn" where
  "sendMessage_txn env senderId receiverLogin text =
     txn_bind (begin_txn env) (\<lambda>_.
     txn_bind (sql_select_users (\<lambda>u. u_login u = receiverLogin)) (\<lambda>receiver.
     case receiver of
       [] \<Rightarrow> txn_return (makeResult DB_NotFound ''receiver not found'' (-1))
     | row # _ \<Rightarrow>
         if u_status row = ''banned'' then txn_return (makeResult DB_Banned ''receiver is banned'' (-1))
         else
           txn_bind (sql_insert_message env senderId (u_id row) text) (\<lambda>inserted.
           txn_bind (as_int env inserted) (\<lambda>messageId.
           txn_bind commit (\<lambda>_.
           txn_return (makeResult DB_Ok ''message stored'' messageId))))))"

definition sendMessage ::
  "'e pg_env_scheme \<Rightarrow> int \<Rightarrow> string \<Rightarrow> string \<Rightarrow> 's db_state_scheme \<Rightarrow> DbResult \<times> 's db_state_scheme" where
  "sendMessage env senderId receiverLogin text s =
     (if text = [] \<or> length text > 4096
      then (makeResult DB_ValidationError ''message must be 1-4096 characters'' (-1), s)
      else case sendMessage_txn env senderId receiverLogin text s of
          (Inr r, s') \<Rightarrow> (r, s')
        | (Inl e, s') \<Rightarrow> (makeResult DB_Error ''database error'' (-1),
                          logger_error env (''sendMessage failed: '' @ exn_what e) s'))"

text \<open>The loop that fills \<open>messages\<close> from a result: the vector lives outside the \<open>try\<close> block, so the
  rows before one whose id does not fit an \<open>int\<close> are still returned.\<close>

definition message_record :: "'e pg_env_scheme \<Rightarrow> joined \<Rightarrow> MessageRecord" where
  "message_record env j = (case j of (m, x, y) \<Rightarrow>
     \<lparr>mr_id = m_id m, mr_sender = u_login x, mr_receiver = u_login y, mr_text = m_text m,
      mr_createdAt = to_char_utc env (m_created_at m)\<rparr>)"

fun collect_messages ::
  "'e pg_env_scheme \<Rightarrow> joined list \<Rightarrow> 's db_state_scheme \<Rightarrow> MessageRecord list \<times> (pq_exn + unit) \<times> 's db_state_scheme" where
  "collect_messages env [] s = ([], Inr (), s)"
| "collect_messages env (j # js) s =
     (case as_int env (m_id (fst j)) s of
        (Inl e, s') \<Rightarrow> ([], Inl e, s')
      | (Inr _, s') \<Rightarrow> (case collect_messages env js s' of (ms, r, s'') \<Rightarrow> (message_record env j # ms, r, s'')))"

definition fetch_messages ::
  "'e pg_env_scheme \<Rightarrow> string \<Rightarrow> (message_row \<Rightarrow> bool) \<Rightarrow> bool \<Rightarrow> int \<Rightarrow> int
     \<Rightarrow> 's db_state_scheme \<Rightarrow> MessageRecord list \<times> 's db_state_scheme" where
  "fetch_messages env name p desc limit offset s =
     (case txn_bind (begin_txn env) (\<lambda>_. sql_select_joined p) s of
        (Inl e, s') \<Rightarrow> ([], logger_error env (name @ '' failed: '' @ exn_what e) s')
      | (Inr res, s') \<Rightarrow>
          (case collect_messages env (take (nat limit) (drop (nat offset) (order_created env desc res))) s' of
             (ms, Inr _, s'') \<Rightarrow> (ms, s'')
           | (ms, Inl e, s'') \<Rightarrow> (ms, logger_error env (name @ '' failed: '' @ exn_what e) s'')))"

definition getInbox ::
  "'e pg_env_scheme \<Rightarrow> int \<Rightarrow> int \<Rightarrow> 's db_state_scheme \<Rightarrow> MessageRecord list \<times> 's db_state_scheme" where
  "getInbox env userId limit s =
     fetch_messages env ''getInbox'' (\<lambda>m. m_receiver_id m = userId) True (clampLimit limit) 0 s"

definition getHistory ::
  "'e pg_env_scheme \<Rightarrow> int \<Rightarrow> string \<Rightarrow> int \<Rightarrow> int \<Rightarrow> 's db_state_scheme \<Rightarrow> MessageRecord list \<times> 's db_state_scheme" where
  "getHistory env userId targetLogin limit offset s =
     (case getUserId env targetLogin s of
        (None, s1) \<Rightarrow> ([], s1)
      | (Some target, s1) \<Rightarrow>
          fetch_messages env ''getHistory''
            (\<lambda>m. (m_sender_id m = userId \<and> m_receiver_id m = target)
                 \<or> (m_sender_id m = target \<and> m_receiver_id m = userId))
            False (clampLimit limit) (max 0 offset) s1)"

definition getAllMessages ::
  "'e pg_env_scheme \<Rightarrow> int \<Rightarrow> 's db_state_scheme \<Rightarrow> MessageRecord list \<times> 's db_state_scheme" where
  "getAllMessages env limit s = fetch_messages env ''getAllMessages'' (\<lambda>m. True) True (clampLimit limit) 0 s"

subsection \<open>Moderation\<close>

definition hasModeratorRights :: "'e pg_env_scheme \<Rightarrow> int \<Rightarrow> 's db_state_scheme \<Rightarrow> bool \<times> 's db_state_scheme" where
  "hasModeratorRights env userId s =
     (case txn_bind (begin_txn env) (\<lambda>_. sql_select_users (\<lambda>u. u_id u = userId)) s of
        (Inr [], s') \<Rightarrow> (False, s')
      | (Inr (row # _), s') \<Rightarrow> (u_role row = ''admin'' \<or> u_role row = ''moderator'', s')
      | (Inl e, s') \<Rightarrow> (False, logger_error env (''hasModeratorRights failed: '' @ exn_what e) s'))"

text \<open>The common shape of \<open>banUser\<close>, \<open>unbanUser\<close> and \<open>kickUser\<close>: an update by login, an audit row, the
  commit and a warning in the log; no row is the \<open>NotFound\<close> answer.\<close>

definition moderate_txn ::
  "'e pg_env_scheme \<Rightarrow> int \<Rightarrow> string \<Rightarrow> (user_row \<Rightarrow> bool) \<Rightarrow> (int \<Rightarrow> user_row \<Rightarrow> user_row)
     \<Rightarrow> string \<Rightarrow> string \<Rightarrow> string \<Rightarrow> string \<Rightarrow> ('s, DbResult) txn" where
  "moderate_txn env actorUserId login p f notFound action details message =
     txn_bind (begin_txn env) (\<lambda>_.
     txn_bind (sql_update_users p f) (\<lambda>res.
     case res of
       [] \<Rightarrow> txn_return (makeResult DB_NotFound notFound (-1))
     | uid # _ \<Rightarrow>
         txn_bind (audit env actorUserId action login details) (\<lambda>_.
         txn_bind commit (\<lambda>_.
         txn_bind (txn_do (logger_warn env (message @ '': '' @ login))) (\<lambda>_.
         txn_return (makeResult DB_Ok message uid))))))"

definition catch_moderate ::
  "'e pg_env_scheme \<Rightarrow> string \<Rightarrow> (pq_exn + DbResult) \<times> 's db_state_scheme \<Rightarrow> DbResult \<times> 's db_state_scheme" where
  "catch_moderate env name r =
     (case r of
        (Inr r, s') \<Rightarrow> (r, s')
      | (Inl e, s') \<Rightarrow> (makeResult DB_Error ''database error'' (-1),
                        logger_error env (name @ '' failed: '' @ exn_what e) s'))"

definition banUser ::
  "'e pg_env_scheme \<Rightarrow> int \<Rightarrow> string \<Rightarrow> 's db_state_scheme \<Rightarrow> DbResult \<times> 's db_state_scheme" where
  "banUser env actorUserId login s = catch_moderate env ''banUser''
     (moderate_txn env actorUserId login (\<lambda>u. u_login u = login) (\<lambda>now u. u\<lparr>u_status := ''banned''\<rparr>)
        ''user not found'' ''ban'' ''user banned'' ''user banned'' s)"

definition unbanUser ::
  "'e pg_env_scheme \<Rightarrow> int \<Rightarrow> string \<Rightarrow> 's db_state_scheme \<Rightarrow> DbResult \<times> 's db_state_scheme" where
  "unbanUser env actorUserId login s = catch_moderate env ''unbanUser''
     (moderate_txn env actorUserId login (\<lambda>u. u_login u = login \<and> u_status u = ''banned'')
        (\<lambda>now u. u\<lparr>u_status := ''offline''\<rparr>)
        ''banned user not found'' ''unban'' ''user unbanned'' ''user unbanned'' s)"

definition kickUser ::
  "'e pg_env_scheme \<Rightarrow> int \<Rightarrow> string \<Rightarrow> 's db_state_scheme \<Rightarrow> DbResult \<times> 's db_state_scheme" where
  "kickUser env actorUserId login s = catch_moderate env ''kickUser''
     (moderate_txn env actorUserId login (\<lambda>u. u_login u = login \<and> u_status u \<noteq> ''banned'')
        (set_status ''offline'')
        ''active non-banned user not found'' ''kick'' ''user session kicked'' ''user kicked'' s)"

definition markUserOffline :: "'e pg_env_scheme \<Rightarrow> string \<Rightarrow> 's db_state_scheme \<Rightarrow> DbResult \<times> 's db_state_scheme" where
  "markUserOffline env login s =
     (case txn_bind (begin_txn env) (\<lambda>_.
           txn_bind (sql_update_users (\<lambda>u. u_login u = login \<and> u_status u \<noteq> ''banned'') (set_status ''offline'')) (\<lambda>res.
           txn_bind commit (\<lambda>_. txn_return res))) s of
        (Inr [], s') \<Rightarrow> (makeResult DB_NotFound ''user not found or banned'' (-1), s')
      | (Inr (uid # _), s') \<Rightarrow> (makeResult DB_Ok ''user offline'' uid, s')
      | (Inl e, s') \<Rightarrow> (makeResult DB_Error ''database error'' (-1),
                        logger_error env (''markUserOffline failed: '' @ exn_what e) s'))"

end
