(* ===== verification/Database_Laws.thy ===== *)
theory Database_Laws
  imports Database
begin

text \<open>
  What each \<open>Database\<close> method does to the tables. The effect lemmas say it for every schedule of
  statement outcomes: a method either leaves the tables as they were or applies one explicit update,
  it applies it when it answers \<open>DB_Ok\<close>, and it applies it with another answer only when a commit was
  in doubt. The invariants of the schema and the properties of the accounts rest on them.
\<close>

subsection \<open>Effects of the writing methods\<close>

definition audit_entry :: "int \<Rightarrow> int \<Rightarrow> int \<Rightarrow> string \<Rightarrow> string \<Rightarrow> string \<Rightarrow> audit_row" where
  "audit_entry nid now actor action target details =
     \<lparr>a_id = nid, a_actor_user_id = (if actor \<le> 0 then None else Some actor), a_action = action,
      a_target_login = target, a_details = details, a_created_at = now\<rparr>"

lemma wp_audit:
  assumes "in_txn env s w (us, ms, au, sl) s1"
    "\<And>s2. in_txn env s (add_audit (audit_entry (au + 1) (pg_now env (txns s)) actor action target details) w)
        (us, ms, au + 1, sl) s2 \<Longrightarrow> (0 < actor \<longrightarrow> user_exists actor w) \<Longrightarrow> P () s2"
    "\<And>e s2. same_rows s s2 \<Longrightarrow> E e s2"
  shows "wp (audit env' actor action target details) P E s1"
  using assms by (auto simp: audit_def audit_entry_def intro!: wp_insert_audit)

definition register_rows :: "'e pg_env_scheme \<Rightarrow> string \<Rightarrow> string \<Rightarrow> 's db_state_scheme \<Rightarrow> tables" where
  "register_rows env login password s =
     add_audit (audit_entry (audit_seq s + 1) (pg_now env (txns s)) (users_seq s + 1) ''register'' login ''user self-registered'')
     (add_user (new_user (users_seq s + 1) login (crypt env password (gen_salt env (salts s))) (pg_now env (txns s)))
        (tables s))"

definition register_seqs :: "'s db_state_scheme \<Rightarrow> int \<times> int \<times> int \<times> nat" where
  "register_seqs s = (users_seq s + 1, messages_seq s, audit_seq s + 1, Suc (salts s))"

lemma registerUser_txn_wp:
  "wp (registerUser_txn env login password)
     (\<lambda>r s'. r = makeResult DB_Ok ''registered'' (users_seq s + 1) \<and> (\<forall>u\<in>set (t_users (tables s)). u_login u \<noteq> login)
        \<and> users_seq s < INT_MAX \<and> becomes (register_rows env login password s) (register_seqs s) True s s')
     (\<lambda>e s'. same_rows s s' \<or> (\<forall>u\<in>set (t_users (tables s)). u_login u \<noteq> login) \<and> users_seq s < INT_MAX
        \<and> becomes (register_rows env login password s) (register_seqs s) False s s') s"
  unfolding registerUser_txn_def wp_bind wp_do wp_return
  by (rule wp_begin; (elim wp_txn wp_audit)?; simp add: register_rows_def register_seqs_def)

lemma registerUser_effect:
  assumes "registerUser env login password s = (r, s')"
  shows "(res_status r \<noteq> DB_Ok \<and> same_rows s s')
    \<or> (isValidLogin login \<and> policy_ok (validatePassword password) \<and> (\<forall>u\<in>set (t_users (tables s)). u_login u \<noteq> login)
        \<and> users_seq s < INT_MAX \<and> (res_status r = DB_Ok \<longrightarrow> res_id r = users_seq s + 1)
        \<and> becomes (register_rows env login password s) (register_seqs s) (res_status r = DB_Ok) s s')"
  using registerUser_txn_wp [of env login password s] assms
  by (elim wpE) (auto simp: registerUser_def Let_def makeResult_def split: if_splits pq_exn.splits)

definition find_login :: "string \<Rightarrow> tables \<Rightarrow> user_row option" where
  "find_login login t = find (\<lambda>u. u_login u = login) (t_users t)"

lemma find_filter: "find P xs = (case filter P xs of [] \<Rightarrow> None | x # _ \<Rightarrow> Some x)"
  by (induction xs) auto

lemma find_login_SomeD:
  assumes "find_login login t = Some row"
  shows "row \<in> set (t_users t)" "u_login row = login"
  using assms by (auto simp: find_login_def find_Some_iff)

definition login_rows :: "'e pg_env_scheme \<Rightarrow> string \<Rightarrow> user_row \<Rightarrow> 's db_state_scheme \<Rightarrow> tables" where
  "login_rows env login row s =
     add_audit (audit_entry (audit_seq s + 1) (pg_now env (txns s)) (u_id row) ''login'' login ''login success'')
       (set_users (\<lambda>u. u_id u = u_id row) (set_status ''online'') (pg_now env (txns s)) (tables s))"

definition audit_seqs :: "'s db_state_scheme \<Rightarrow> int \<times> int \<times> int \<times> nat" where
  "audit_seqs s = (users_seq s, messages_seq s, audit_seq s + 1, salts s)"

lemma loginUser_txn_wp:
  "wp (loginUser_txn env login password)
     (\<lambda>r s'. case find_login login (tables s) of
          None \<Rightarrow> same_rows s s' \<and> lr_status r = DB_Unauthorized
        | Some row \<Rightarrow>
            if u_status row = ''banned'' then same_rows s s' \<and> lr_status r = DB_Banned
            else if crypt env password (u_password_hash row) \<noteq> u_password_hash row
            then same_rows s s' \<and> lr_status r = DB_Unauthorized
            else r = \<lparr>lr_status = DB_Ok, lr_message = ''login ok'', lr_userId = u_id row, lr_login = login,
                      lr_role = u_role row\<rparr>
               \<and> becomes (login_rows env login row s) (audit_seqs s) True s s')
     (\<lambda>e s'. same_rows s s' \<or> (\<exists>row. find_login login (tables s) = Some row \<and> u_status row \<noteq> ''banned''
        \<and> crypt env password (u_password_hash row) = u_password_hash row
        \<and> becomes (login_rows env login row s) (audit_seqs s) False s s')) s"
  unfolding loginUser_txn_def wp_bind wp_do wp_return
  apply (rule wp_begin; (erule wp_select_users)?)
  subgoal for s1 s2
    by (cases "filter (\<lambda>u. u_login u = login) (t_users (tables s))")
       (auto simp: find_login_def find_filter login_rows_def audit_seqs_def makeLogin_def
          in_txn_rollback elim!: wp_txn wp_audit)
  by simp_all

lemma loginUser_effect:
  assumes "loginUser env login password s = (r, s')"
  shows "(lr_status r \<noteq> DB_Ok \<and> same_rows s s')
    \<or> (\<exists>row. find_login login (tables s) = Some row \<and> u_status row \<noteq> ''banned''
        \<and> crypt env password (u_password_hash row) = u_password_hash row
        \<and> (lr_status r = DB_Ok \<longrightarrow> lr_userId r = u_id row \<and> lr_login r = login \<and> lr_role r = u_role row)
        \<and> becomes (login_rows env login row s) (audit_seqs s) (lr_status r = DB_Ok) s s')"
  using loginUser_txn_wp [of env login password s] assms
  by (elim wpE) (auto simp: loginUser_def makeLogin_def split: if_splits option.splits)

definition offline_rows :: "'e pg_env_scheme \<Rightarrow> (user_row \<Rightarrow> bool) \<Rightarrow> 's db_state_scheme \<Rightarrow> tables" where
  "offline_rows env p s =
     set_users (\<lambda>u. p u \<and> u_status u \<noteq> ''banned'') (set_status ''offline'') (pg_now env (txns s)) (tables s)"

lemma logoutUser_effect:
  assumes "logoutUser env userId s = (r, s')"
  shows "(res_status r \<noteq> DB_Ok \<and> same_rows s s')
    \<or> becomes (offline_rows env (\<lambda>u. u_id u = userId) s) (seqs s) (res_status r = DB_Ok) s s'"
proof -
  have "wp (txn_bind (begin_txn env) (\<lambda>_.
           txn_bind (sql_update_users (\<lambda>u. u_id u = userId \<and> u_status u \<noteq> ''banned'') (set_status ''offline'')) (\<lambda>_.
           commit)))
     (\<lambda>_ s'. becomes (offline_rows env (\<lambda>u. u_id u = userId) s) (seqs s) True s s')
     (\<lambda>e s'. same_rows s s' \<or> becomes (offline_rows env (\<lambda>u. u_id u = userId) s) (seqs s) False s s') s"
    unfolding wp_bind by (rule wp_begin; (elim wp_txn)?; simp add: offline_rows_def seqs_def)
  then show ?thesis using assms
    by (elim wpE) (auto simp: logoutUser_def makeResult_def)
qed

lemma set_users_none:
  assumes "\<forall>u\<in>set (t_users t). \<not> p u"
  shows "set_users p f now t = t"
proof -
  have "map (\<lambda>u. if p u then (f now u)\<lparr>u_updated_at := now\<rparr> else u) (t_users t) = t_users t"
    using assms by (auto intro: map_idI)
  then show ?thesis by (cases t) (simp add: set_users_def upd_users_def)
qed

lemma markUserOffline_effect:
  assumes "markUserOffline env login s = (r, s')"
  shows "(res_status r \<noteq> DB_Ok \<and> same_rows s s')
    \<or> becomes (offline_rows env (\<lambda>u. u_login u = login) s) (seqs s) (res_status r = DB_Ok) s s'"
proof -
  have none: "offline_rows env p s = tables s" if "filter (\<lambda>u. p u \<and> u_status u \<noteq> ''banned'') (t_users (tables s)) = []" for p
    using that by (simp add: offline_rows_def set_users_none filter_empty_conv)
  have "wp (txn_bind (begin_txn env) (\<lambda>_.
           txn_bind (sql_update_users (\<lambda>u. u_login u = login \<and> u_status u \<noteq> ''banned'') (set_status ''offline'')) (\<lambda>res.
           txn_bind commit (\<lambda>_. txn_return res))))
     (\<lambda>res s'. res = map u_id (filter (\<lambda>u. u_login u = login \<and> u_status u \<noteq> ''banned'') (t_users (tables s)))
        \<and> becomes (offline_rows env (\<lambda>u. u_login u = login) s) (seqs s) True s s')
     (\<lambda>e s'. same_rows s s' \<or> becomes (offline_rows env (\<lambda>u. u_login u = login) s) (seqs s) False s s') s"
    unfolding wp_bind wp_return by (rule wp_begin; (elim wp_txn)?; simp add: offline_rows_def seqs_def)
  then show ?thesis using assms
    by (elim wpE) (auto simp: markUserOffline_def makeResult_def becomes_def same_rows_def none split: list.splits)
qed

definition message_rows :: "'e pg_env_scheme \<Rightarrow> int \<Rightarrow> int \<Rightarrow> string \<Rightarrow> 's db_state_scheme \<Rightarrow> tables" where
  "message_rows env sender receiver text s =
     add_message \<lparr>m_id = messages_seq s + 1, m_sender_id = sender, m_receiver_id = receiver, m_text = text,
       m_created_at = pg_now env (txns s)\<rparr> (tables s)"

definition message_seqs :: "'s db_state_scheme \<Rightarrow> int \<times> int \<times> int \<times> nat" where
  "message_seqs s = (users_seq s, messages_seq s + 1, audit_seq s, salts s)"

definition text_ok :: "string \<Rightarrow> bool" where
  "text_ok text \<longleftrightarrow> sql_length (sql_trim text) \<noteq> 0 \<and> sql_length text \<le> 4096"

lemma sendMessage_txn_wp:
  "wp (sendMessage_txn env senderId receiverLogin text)
     (\<lambda>r s'. case find_login receiverLogin (tables s) of
          None \<Rightarrow> same_rows s s' \<and> res_status r = DB_NotFound
        | Some row \<Rightarrow>
            if u_status row = ''banned'' then same_rows s s' \<and> res_status r = DB_Banned
            else r = makeResult DB_Ok ''message stored'' (messages_seq s + 1) \<and> messages_seq s < INT_MAX \<and> text_ok text
               \<and> user_exists senderId (tables s) \<and> user_exists (u_id row) (tables s)
               \<and> becomes (message_rows env senderId (u_id row) text s) (message_seqs s) True s s')
     (\<lambda>e s'. same_rows s s' \<or> (\<exists>row. find_login receiverLogin (tables s) = Some row \<and> u_status row \<noteq> ''banned''
        \<and> messages_seq s < INT_MAX \<and> text_ok text
        \<and> user_exists senderId (tables s) \<and> user_exists (u_id row) (tables s)
        \<and> becomes (message_rows env senderId (u_id row) text s) (message_seqs s) False s s')) s"
  unfolding sendMessage_txn_def wp_bind wp_return
  apply (rule wp_begin; (erule wp_select_users)?)
  subgoal for s1 s2
    by (cases "filter (\<lambda>u. u_login u = receiverLogin) (t_users (tables s))")
       (auto simp: find_login_def find_filter message_rows_def message_seqs_def makeResult_def text_ok_def
          in_txn_rollback elim!: wp_txn)
  by simp_all

lemma sendMessage_effect:
  assumes "sendMessage env senderId receiverLogin text s = (r, s')"
  shows "(res_status r \<noteq> DB_Ok \<and> same_rows s s')
    \<or> (\<exists>row. find_login receiverLogin (tables s) = Some row \<and> u_status row \<noteq> ''banned''
        \<and> messages_seq s < INT_MAX \<and> text_ok text \<and> length text \<le> 4096
        \<and> user_exists senderId (tables s) \<and> user_exists (u_id row) (tables s)
        \<and> (res_status r = DB_Ok \<longrightarrow> res_id r = messages_seq s + 1)
        \<and> becomes (message_rows env senderId (u_id row) text s) (message_seqs s) (res_status r = DB_Ok) s s')"
  using sendMessage_txn_wp [of env senderId receiverLogin "text" s] assms
  by (elim wpE) (auto simp: sendMessage_def makeResult_def split: if_splits option.splits)

definition moderate_rows ::
  "'e pg_env_scheme \<Rightarrow> int \<Rightarrow> string \<Rightarrow> (user_row \<Rightarrow> bool) \<Rightarrow> (int \<Rightarrow> user_row \<Rightarrow> user_row) \<Rightarrow> string \<Rightarrow> string
     \<Rightarrow> 's db_state_scheme \<Rightarrow> tables" where
  "moderate_rows env actor login p f action details s =
     add_audit (audit_entry (audit_seq s + 1) (pg_now env (txns s)) actor action login details)
       (set_users p f (pg_now env (txns s)) (tables s))"

lemma moderate_effect:
  assumes "catch_moderate env name (moderate_txn env actor login p f notFound action details message s) = (r, s')"
  shows "(res_status r \<noteq> DB_Ok \<and> same_rows s s')
    \<or> ((\<exists>u\<in>set (t_users (tables s)). p u) \<and> (0 < actor \<longrightarrow> user_exists actor (set_users p f (pg_now env (txns s)) (tables s)))
        \<and> becomes (moderate_rows env actor login p f action details s) (audit_seqs s) (res_status r = DB_Ok) s s')"
proof -
  have "wp (moderate_txn env actor login p f notFound action details message)
     (\<lambda>r s'. (res_status r = DB_NotFound \<and> same_rows s s')
        \<or> (\<exists>u\<in>set (t_users (tables s)). p u) \<and> (0 < actor \<longrightarrow> user_exists actor (set_users p f (pg_now env (txns s)) (tables s)))
          \<and> res_status r = DB_Ok \<and> becomes (moderate_rows env actor login p f action details s) (audit_seqs s) True s s')
     (\<lambda>e s'. same_rows s s' \<or> (\<exists>u\<in>set (t_users (tables s)). p u)
          \<and> (0 < actor \<longrightarrow> user_exists actor (set_users p f (pg_now env (txns s)) (tables s)))
          \<and> becomes (moderate_rows env actor login p f action details s) (audit_seqs s) False s s') s"
    unfolding moderate_txn_def wp_bind wp_do wp_return
    apply (rule wp_begin; (erule wp_update_users)?)
    subgoal for s1 s2
      by (cases "filter p (t_users (tables s))")
         (auto simp: moderate_rows_def audit_seqs_def makeResult_def filter_empty_conv filter_eq_Cons_iff
           in_txn_rollback elim!: wp_txn wp_audit)
    by simp_all
  then show ?thesis using assms
    by (elim wpE) (auto simp: catch_moderate_def makeResult_def)
qed

lemma moderate_id:
  assumes "catch_moderate env name (moderate_txn env actor login p f notFound action details message s) = (r, s')"
    "res_status r = DB_Ok"
  shows "\<exists>u\<in>set (t_users (tables s)). p u \<and> res_id r = u_id u"
proof -
  have "wp (moderate_txn env actor login p f notFound action details message)
     (\<lambda>r s'. res_status r = DB_Ok \<longrightarrow> (\<exists>u\<in>set (t_users (tables s)). p u \<and> res_id r = u_id u)) (\<lambda>e s'. True) s"
    unfolding moderate_txn_def wp_bind wp_do wp_return
    apply (rule wp_begin; (erule wp_update_users)?)
    subgoal for s1 s2
      by (cases "filter p (t_users (tables s))")
         (auto simp: makeResult_def filter_eq_Cons_iff elim!: wp_txn wp_audit)
    by simp_all
  then show ?thesis using assms
    by (elim wpE) (auto simp: catch_moderate_def makeResult_def)
qed

lemma banUser_effect:
  assumes "banUser env actor login s = (r, s')"
  shows "(res_status r \<noteq> DB_Ok \<and> same_rows s s')
    \<or> ((\<exists>u\<in>set (t_users (tables s)). u_login u = login)
        \<and> (0 < actor \<longrightarrow> user_exists actor (set_users (\<lambda>u. u_login u = login) (\<lambda>now u. u\<lparr>u_status := ''banned''\<rparr>) (pg_now env (txns s)) (tables s)))
        \<and> becomes (moderate_rows env actor login (\<lambda>u. u_login u = login) (\<lambda>now u. u\<lparr>u_status := ''banned''\<rparr>) ''ban'' ''user banned'' s)
            (audit_seqs s) (res_status r = DB_Ok) s s')"
  using assms unfolding banUser_def by (rule moderate_effect)

lemma unbanUser_effect:
  assumes "unbanUser env actor login s = (r, s')"
  shows "(res_status r \<noteq> DB_Ok \<and> same_rows s s')
    \<or> ((\<exists>u\<in>set (t_users (tables s)). u_login u = login \<and> u_status u = ''banned'')
        \<and> (0 < actor \<longrightarrow> user_exists actor (set_users (\<lambda>u. u_login u = login \<and> u_status u = ''banned'') (\<lambda>now u. u\<lparr>u_status := ''offline''\<rparr>) (pg_now env (txns s)) (tables s)))
        \<and> becomes (moderate_rows env actor login (\<lambda>u. u_login u = login \<and> u_status u = ''banned'') (\<lambda>now u. u\<lparr>u_status := ''offline''\<rparr>) ''unban'' ''user unbanned'' s)
            (audit_seqs s) (res_status r = DB_Ok) s s')"
  using assms unfolding unbanUser_def by (rule moderate_effect)

lemma kickUser_effect:
  assumes "kickUser env actor login s = (r, s')"
  shows "(res_status r \<noteq> DB_Ok \<and> same_rows s s')
    \<or> ((\<exists>u\<in>set (t_users (tables s)). u_login u = login \<and> u_status u \<noteq> ''banned'')
        \<and> (0 < actor \<longrightarrow> user_exists actor (set_users (\<lambda>u. u_login u = login \<and> u_status u \<noteq> ''banned'') (set_status ''offline'') (pg_now env (txns s)) (tables s)))
        \<and> becomes (moderate_rows env actor login (\<lambda>u. u_login u = login \<and> u_status u \<noteq> ''banned'') (set_status ''offline'') ''kick'' ''user session kicked'' s)
            (audit_seqs s) (res_status r = DB_Ok) s s')"
  using assms unfolding kickUser_def by (rule moderate_effect)

subsection \<open>The reading methods\<close>

lemma select_users_wp:
  "wp (txn_bind (begin_txn env) (\<lambda>_. sql_select_users p))
     (\<lambda>rows s'. rows = filter p (t_users (tables s)) \<and> same_rows s s') (\<lambda>e s'. same_rows s s') s"
  unfolding wp_bind by (rule wp_begin; (erule wp_txn)?; simp add: in_txn_rollback)

lemma select_joined_wp:
  "wp (txn_bind (begin_txn env) (\<lambda>_. sql_select_joined p))
     (\<lambda>rows s'. rows = join_messages p (tables s) \<and> same_rows s s') (\<lambda>e s'. same_rows s s') s"
  unfolding wp_bind by (rule wp_begin; (erule wp_txn)?; simp add: in_txn_rollback)

lemma getUserId_effect:
  assumes "getUserId env login s = (r, s')"
  shows "same_rows s s'" "r = Some i \<Longrightarrow> \<exists>row. find_login login (tables s) = Some row \<and> i = u_id row"
  using select_users_wp [of env "\<lambda>u. u_login u = login" s] assms
  by (elim wpE; auto simp: getUserId_def find_login_def find_filter split: list.splits)+

lemma getUserByLogin_effect:
  assumes "getUserByLogin env login s = (r, s')"
  shows "same_rows s s'" "r = Some i \<Longrightarrow> \<exists>row. find_login login (tables s) = Some row \<and> i = user_summary env row"
  using select_users_wp [of env "\<lambda>u. u_login u = login" s] assms
  by (elim wpE; auto simp: getUserByLogin_def find_login_def find_filter split: list.splits)+

lemma listUsers_effect:
  assumes "listUsers env s = (r, s')"
  shows "same_rows s s'" "r = [] \<or> r = map (user_summary env) (order_login env (t_users (tables s)))"
  using select_users_wp [of env "\<lambda>u. True" s] assms
  by (elim wpE; auto simp: listUsers_def)+

lemma hasModeratorRights_effect:
  assumes "hasModeratorRights env userId s = (r, s')"
  shows "same_rows s s'"
    "r \<Longrightarrow> \<exists>u\<in>set (t_users (tables s)). u_id u = userId \<and> (u_role u = ''admin'' \<or> u_role u = ''moderator'')"
  using select_users_wp [of env "\<lambda>u. u_id u = userId" s] assms
  by (elim wpE; auto simp: hasModeratorRights_def filter_eq_Cons_iff split: list.splits)+

lemma ping_effect: "ping env s = (r, s') \<Longrightarrow> same_rows s s'"
proof -
  assume "ping env s = (r, s')"
  moreover have "wp (txn_bind (begin_txn env) (\<lambda>_. attempt (txn_return ()))) (\<lambda>_. same_rows s) (\<lambda>_. same_rows s) s"
    unfolding wp_bind
    by (rule wp_begin; (rule wp_attempt)?) (auto simp: txn_defs txn_return_def)
  ultimately show ?thesis by (elim wpE) (auto simp: ping_def)
qed

lemma collect_messages_spec:
  assumes "collect_messages env js s = (ms, r, s')"
  shows "s' = s" "\<exists>n. ms = map (message_record env) (take n js)"
    "(\<And>j. j \<in> set js \<Longrightarrow> INT_MIN \<le> m_id (fst j) \<and> m_id (fst j) \<le> INT_MAX) \<Longrightarrow> ms = map (message_record env) js"
proof -
  show "s' = s" using assms
    by (induction js arbitrary: ms) (auto simp: as_int_def txn_return_def txn_throw_def split: if_splits prod.splits)
  show "\<exists>n. ms = map (message_record env) (take n js)" using assms
  proof (induction js arbitrary: ms r s s')
    case (Cons j js)
    show ?case
    proof (cases "ms = []")
      case True
      then show ?thesis by (intro exI [of _ 0]) simp
    next
      case False
      then obtain ms' where ms: "ms = message_record env j # ms'" "collect_messages env js s = (ms', r, s')"
        using Cons.prems by (auto simp: as_int_def txn_return_def txn_throw_def split: if_splits prod.splits)
      then obtain n where "ms' = map (message_record env) (take n js)" using Cons.IH by blast
      with ms show ?thesis by (intro exI [of _ "Suc n"]) simp
    qed
  qed simp
  show "ms = map (message_record env) js"
    if "\<And>j. j \<in> set js \<Longrightarrow> INT_MIN \<le> m_id (fst j) \<and> m_id (fst j) \<le> INT_MAX"
    using assms that by (induction js arbitrary: ms)
      (auto simp: as_int_def txn_return_def split: if_splits prod.splits)
qed

text \<open>A query for messages returns a prefix of its ordered, paged rows (all of them when every id fits).\<close>

lemma fetch_messages_effect:
  fixes s :: "'s db_state_scheme"
  assumes "fetch_messages env name p desc limit offset s = (ms, s')"
  shows "same_rows s s'"
    "\<exists>n. ms = map (message_record env)
       (take n (take (nat limit) (drop (nat offset) (order_created env desc (join_messages p (tables s))))))"
proof -
  let ?js = "take (nat limit) (drop (nat offset) (order_created env desc (join_messages p (tables s))))"
  show "same_rows s s'"
    using select_joined_wp [of env p s] assms
    by (elim wpE) (auto simp: fetch_messages_def dest: collect_messages_spec(1) split: prod.splits sum.splits)
  show "\<exists>n. ms = map (message_record env) (take n ?js)"
  proof (cases "ms = []")
    case True
    then show ?thesis by (intro exI [of _ 0]) simp
  next
    case False
    then have "\<exists>r (s1 :: 's db_state_scheme) s2. collect_messages env ?js s1 = (ms, r, s2)"
      using select_joined_wp [of env p s] assms
      by (elim wpE) (auto simp: fetch_messages_def split: prod.splits sum.splits)
    then show ?thesis using collect_messages_spec(2) by blast
  qed
qed

lemma set_users_simps [simp]:
  "t_messages (set_users p f now t) = t_messages t" "t_audit (set_users p f now t) = t_audit t"
  "t_users (set_users p f now t) = map (\<lambda>u. if p u then (f now u)\<lparr>u_updated_at := now\<rparr> else u) (t_users t)"
  by (simp_all add: set_users_def upd_users_def)

lemma add_rows_simps [simp]:
  "t_users (add_user u t) = t_users t @ [u]" "t_messages (add_user u t) = t_messages t" "t_audit (add_user u t) = t_audit t"
  "t_users (add_message m t) = t_users t" "t_messages (add_message m t) = t_messages t @ [m]" "t_audit (add_message m t) = t_audit t"
  "t_users (add_audit a t) = t_users t" "t_messages (add_audit a t) = t_messages t" "t_audit (add_audit a t) = t_audit t @ [a]"
  by (simp_all add: add_user_def add_message_def add_audit_def)

lemma user_exists_iff: "user_exists i t \<longleftrightarrow> i \<in> set (map u_id (t_users t))"
  by (auto simp: user_exists_def list_ex_iff)

lemma map_set_users:
  assumes "\<And>u. g (f now u) = g u" "\<And>u. g (u\<lparr>u_updated_at := now\<rparr>) = g u"
  shows "map g (t_users (set_users p f now t)) = map g (t_users t)"
  using assms by simp

lemma user_exists_set_users:
  assumes "\<And>u. u_id (f now u) = u_id u"
  shows "user_exists i (set_users p f now t) = user_exists i t"
  unfolding user_exists_iff using map_set_users [of u_id f now p t] assms by simp

subsection \<open>Calls on which no statement fails\<close>

lemma attempt_clear: "outcomes s = [] \<Longrightarrow> attempt stmt s = stmt s"
  by (simp add: attempt_def)

lemma commit_clear: "outcomes s = [] \<Longrightarrow> commit s = (Inr (), s\<lparr>tables := work s\<rparr>)"
  by (simp add: commit_def)

lemma filter_find_login:
  assumes "find_login l t = Some u"
  shows "\<exists>us. filter (\<lambda>u. u_login u = l) (t_users t) = u # us"
  using assms by (auto simp: find_login_def find_filter split: list.splits)

lemmas clear_defs = attempt_clear commit_clear txn_bind_def txn_return_def txn_do_def sql_defs Let_def

lemma loginUser_clear:
  assumes "find_login l (tables s) = Some u" "u_status u \<noteq> ''banned''"
    "crypt env p (u_password_hash u) = u_password_hash u" "outcomes s = []" "audit_seq s < BIGINT_MAX" "sql_length l \<le> 50"
  shows "lr_status (fst (loginUser env l p s)) = DB_Ok"
proof -
  obtain us where us: "filter (\<lambda>u. u_login u = l) (t_users (tables s)) = u # us"
    using filter_find_login [OF assms(1)] by blast
  have ex: "user_exists (u_id u) (set_users P (set_status x) now (tables s))" for P x now
    using find_login_SomeD(1) [OF assms(1)]
    by (subst user_exists_set_users) (auto simp: set_status_def user_exists_iff)
  have len: "sql_length ''login'' = 5" "sql_length (sql_trim ''login'') = 5" by code_simp+
  show ?thesis
    using assms(2-) us len
    by (simp add: loginUser_def loginUser_txn_def clear_defs audit_def ex)
qed

end
