(* ===== verification/Database_Invariants.thy ===== *)
theory Database_Invariants
  imports Database_Laws "HOL-Library.Sublist"
begin

text \<open>
  Invariants of the tables over every sequence of \<open>Database\<close> calls, whatever statements fail and
  whatever commits are in doubt. The locale \<open>table_invariant\<close> asks an invariant to survive the row
  updates the methods make; its lemma gives it over every run. It is interpreted on the schema's
  constraints, on the roles, on a ban, and on the append-only tables.
\<close>

subsection \<open>Calls\<close>

datatype db_call =
    Register string string | Login string string | Logout int | Offline string
  | Send int string string | Inbox int int | History int string int int | All_messages int
  | Users | User_id string | User_by_login string | Rights int | Ping
  | Ban int string | Unban int string | Kick int string

fun db_exec :: "'e pg_env_scheme \<Rightarrow> db_call \<Rightarrow> 's db_state_scheme \<Rightarrow> 's db_state_scheme" where
  "db_exec env (Register l p) s = snd (registerUser env l p s)"
| "db_exec env (Login l p) s = snd (loginUser env l p s)"
| "db_exec env (Logout i) s = snd (logoutUser env i s)"
| "db_exec env (Offline l) s = snd (markUserOffline env l s)"
| "db_exec env (Send i l m) s = snd (sendMessage env i l m s)"
| "db_exec env (Inbox i n) s = snd (getInbox env i n s)"
| "db_exec env (History i l n k) s = snd (getHistory env i l n k s)"
| "db_exec env (All_messages n) s = snd (getAllMessages env n s)"
| "db_exec env Users s = snd (listUsers env s)"
| "db_exec env (User_id l) s = snd (getUserId env l s)"
| "db_exec env (User_by_login l) s = snd (getUserByLogin env l s)"
| "db_exec env (Rights i) s = snd (hasModeratorRights env i s)"
| "db_exec env Ping s = snd (ping env s)"
| "db_exec env (Ban a l) s = snd (banUser env a l s)"
| "db_exec env (Unban a l) s = snd (unbanUser env a l s)"
| "db_exec env (Kick a l) s = snd (kickUser env a l s)"

fun reads_only :: "db_call \<Rightarrow> bool" where
  "reads_only (Inbox i n) = True" | "reads_only (History i l n k) = True" | "reads_only (All_messages n) = True"
| "reads_only Users = True" | "reads_only (User_id l) = True" | "reads_only (User_by_login l) = True"
| "reads_only (Rights i) = True" | "reads_only Ping = True" | "reads_only _ = False"

lemma getInbox_same: "getInbox env i n s = (r, s') \<Longrightarrow> same_rows s s'"
  unfolding getInbox_def by (rule fetch_messages_effect)

lemma getAllMessages_same: "getAllMessages env n s = (r, s') \<Longrightarrow> same_rows s s'"
  unfolding getAllMessages_def by (rule fetch_messages_effect)

lemma getHistory_same:
  assumes "getHistory env i l n k s = (r, s')"
  shows "same_rows s s'"
proof -
  obtain o1 s1 where g: "getUserId env l s = (o1, s1)" by fastforce
  note s1 = getUserId_effect(1) [OF g]
  show ?thesis
  proof (cases o1)
    case None
    with assms g s1 show ?thesis by (simp add: getHistory_def)
  next
    case (Some target)
    with assms g show ?thesis
      by (auto simp: getHistory_def intro: same_rows_trans [OF s1] fetch_messages_effect(1))
  qed
qed

lemma reads_only_same: "reads_only c \<Longrightarrow> same_rows s (db_exec env c s)"
  by (cases c) (simp_all, (metis prod.collapse getInbox_same getHistory_same getAllMessages_same listUsers_effect(1)
    getUserId_effect(1) getUserByLogin_effect(1) hasModeratorRights_effect(1) ping_effect)+)

subsection \<open>The contract of a table invariant\<close>

locale table_invariant =
  fixes I :: "int \<times> int \<times> int \<times> nat \<Rightarrow> tables \<Rightarrow> bool"
    and bannable unbans :: "string \<Rightarrow> bool"
  assumes grows: "I q t \<Longrightarrow> seqs_le q q' \<Longrightarrow> I q' t"
    and registers: "I (us, ms, au, sl) t \<Longrightarrow> isValidLogin l \<Longrightarrow> \<forall>u\<in>set (t_users t). u_login u \<noteq> l \<Longrightarrow>
      us < INT_MAX \<Longrightarrow> I (us + 1, ms, au, sl) (add_user (new_user (us + 1) l hash now) t)"
    and audits: "I (us, ms, au, sl) t \<Longrightarrow> a_id a = au + 1 \<Longrightarrow> (\<forall>i. a_actor_user_id a = Some i \<longrightarrow> user_exists i t) \<Longrightarrow>
      I (us, ms, au + 1, sl) (add_audit a t)"
    and onlines: "I q t \<Longrightarrow> find_login l t = Some row \<Longrightarrow> u_status row \<noteq> ''banned'' \<Longrightarrow>
      I q (set_users (\<lambda>u. u_id u = u_id row) (set_status ''online'') now t)"
    and offlines: "I q t \<Longrightarrow> I q (set_users (\<lambda>u. p u \<and> u_status u \<noteq> ''banned'') (set_status ''offline'') now t)"
    and bans: "I q t \<Longrightarrow> bannable l \<Longrightarrow> I q (set_users (\<lambda>u. u_login u = l) (\<lambda>now u. u\<lparr>u_status := ''banned''\<rparr>) now t)"
    and unbanned: "I q t \<Longrightarrow> unbans l \<Longrightarrow>
      I q (set_users (\<lambda>u. u_login u = l \<and> u_status u = ''banned'') (\<lambda>now u. u\<lparr>u_status := ''offline''\<rparr>) now t)"
    and sends: "I (us, ms, au, sl) t \<Longrightarrow> text_ok x \<Longrightarrow> user_exists i t \<Longrightarrow> user_exists j t \<Longrightarrow>
      I (us, ms + 1, au, sl) (add_message \<lparr>m_id = ms + 1, m_sender_id = i, m_receiver_id = j, m_text = x, m_created_at = now\<rparr> t)"
begin

definition holds :: "'s db_state_scheme \<Rightarrow> bool" where
  "holds s \<longleftrightarrow> I (seqs s) (tables s)"

fun permitted :: "db_call \<Rightarrow> bool" where
  "permitted (Unban a l) = unbans l"
| "permitted (Ban a l) = bannable l"
| "permitted _ = True"

lemma permitted_iff:
  "permitted c \<longleftrightarrow> (\<forall>a l. c = Unban a l \<longrightarrow> unbans l) \<and> (\<forall>a l. c = Ban a l \<longrightarrow> bannable l)"
  by (cases c) simp_all

lemma same_rows_holds: "same_rows s s' \<Longrightarrow> holds s \<Longrightarrow> holds s'"
  by (auto simp: holds_def same_rows_def intro: grows)

lemma becomes_holds: "becomes t q ok s s' \<Longrightarrow> I q t \<Longrightarrow> holds s'"
  by (auto simp: holds_def becomes_def)

lemma audits_entry:
  assumes "I (us, ms, au, sl) t" "0 < actor \<longrightarrow> user_exists actor t"
  shows "I (us, ms, au + 1, sl) (add_audit (audit_entry (au + 1) now actor action target details) t)"
  using assms by (intro audits) (auto simp: audit_entry_def split: if_splits)

lemma holds_seqs: "holds s \<Longrightarrow> I (users_seq s, messages_seq s, audit_seq s, salts s) (tables s)"
  by (simp add: holds_def seqs_def)

lemma registerUser_holds:
  assumes "registerUser env l p s = (r, s')" "holds s"
  shows "holds s'"
proof -
  have "I (register_seqs s) (register_rows env l p s)"
    if "isValidLogin l" "\<forall>u\<in>set (t_users (tables s)). u_login u \<noteq> l" "users_seq s < INT_MAX"
    unfolding register_seqs_def register_rows_def using that
    by (intro audits_entry registers grows [OF holds_seqs [OF assms(2)]])
       (auto simp: user_exists_def new_user_def)
  then show ?thesis
    using registerUser_effect [OF assms(1)] assms(2) by (auto intro: same_rows_holds becomes_holds)
qed

lemma loginUser_holds:
  assumes "loginUser env l p s = (r, s')" "holds s"
  shows "holds s'"
proof -
  have "I (audit_seqs s) (login_rows env l row s)"
    if "find_login l (tables s) = Some row" "u_status row \<noteq> ''banned''" for row
    unfolding audit_seqs_def login_rows_def using that find_login_SomeD [OF that(1)]
    by (intro audits_entry onlines [OF holds_seqs [OF assms(2)]])
       (auto simp: user_exists_set_users set_status_def, auto simp: user_exists_def list_ex_iff)
  then show ?thesis
    using loginUser_effect [OF assms(1)] assms(2) by (auto intro: same_rows_holds becomes_holds)
qed

lemma offline_holds:
  assumes "becomes (offline_rows env p s) (seqs s) ok s s'" "holds s"
  shows "holds s'"
  using becomes_holds [OF assms(1)] offlines assms(2) by (simp add: offline_rows_def holds_def)

lemma sendMessage_holds:
  assumes "sendMessage env i l x s = (r, s')" "holds s"
  shows "holds s'"
proof -
  have "I (message_seqs s) (message_rows env i j x s)"
    if "text_ok x" "user_exists i (tables s)" "user_exists j (tables s)" for j
    unfolding message_seqs_def message_rows_def using that
    by (intro sends holds_seqs assms(2))
  then show ?thesis
    using sendMessage_effect [OF assms(1)] assms(2) by (auto intro: same_rows_holds becomes_holds)
qed

lemma moderate_holds:
  assumes "becomes (moderate_rows env actor l p f action details s) (audit_seqs s) ok s s'"
    "0 < actor \<longrightarrow> user_exists actor (set_users p f (pg_now env (txns s)) (tables s))"
    "I (seqs s) (set_users p f (pg_now env (txns s)) (tables s))"
  shows "holds s'"
  using assms(2,3)
  by (auto intro!: becomes_holds [OF assms(1)] audits_entry simp: moderate_rows_def audit_seqs_def seqs_def)

lemma db_exec_holds:
  assumes "holds s" "permitted c"
  shows "holds (db_exec env c s)"
proof (cases "reads_only c")
  case True
  then show ?thesis using same_rows_holds [OF reads_only_same assms(1)] by blast
next
  case False
  note I = assms(1) [unfolded holds_def]
  show ?thesis
  proof (cases c)
    case (Register l p)
    then show ?thesis using registerUser_holds assms(1) by (metis db_exec.simps(1) prod.collapse)
  next
    case (Login l p)
    then show ?thesis using loginUser_holds assms(1) by (metis db_exec.simps(2) prod.collapse)
  next
    case (Logout i)
    obtain r s' where "logoutUser env i s = (r, s')" by fastforce
    with Logout show ?thesis
      using logoutUser_effect [of env i s r s'] assms(1) by (auto intro: same_rows_holds offline_holds)
  next
    case (Offline l)
    obtain r s' where "markUserOffline env l s = (r, s')" by fastforce
    with Offline show ?thesis
      using markUserOffline_effect [of env l s r s'] assms(1) by (auto intro: same_rows_holds offline_holds)
  next
    case (Send i l x)
    then show ?thesis using sendMessage_holds assms(1) by (metis db_exec.simps(5) prod.collapse)
  next
    case (Ban a l)
    obtain r s' where "banUser env a l s = (r, s')" by fastforce
    with Ban show ?thesis
      using banUser_effect [of env a l s r s'] assms bans [OF I] by (auto intro: same_rows_holds moderate_holds)
  next
    case (Unban a l)
    obtain r s' where "unbanUser env a l s = (r, s')" by fastforce
    with Unban show ?thesis
      using unbanUser_effect [of env a l s r s'] assms unbanned [OF I] by (auto intro: same_rows_holds moderate_holds)
  next
    case (Kick a l)
    obtain r s' where "kickUser env a l s = (r, s')" by fastforce
    with Kick show ?thesis
      using kickUser_effect [of env a l s r s'] assms(1) offlines [OF I] by (auto intro: same_rows_holds moderate_holds)
  qed (use False in simp_all)
qed

lemma run_holds:
  assumes "holds s" "list_all permitted cs"
  shows "holds (fold (db_exec env) cs s)"
  using assms by (induction cs arbitrary: s) (auto intro: db_exec_holds)

lemma run_holds_free:
  assumes "I (seqs s) (tables s)" "\<And>l. bannable l" "\<And>l. unbans l"
  shows "I (seqs (fold (db_exec env) cs s)) (tables (fold (db_exec env) cs s))"
proof -
  have "permitted c" for c using assms(2,3) by (cases c rule: permitted.cases) simp_all
  then have "list_all permitted cs" by (simp add: list_all_iff)
  with run_holds [of s cs env] assms(1) show ?thesis by (simp add: holds_def)
qed

end

subsection \<open>The schema's constraints\<close>

definition user_ok :: "int \<Rightarrow> user_row \<Rightarrow> bool" where
  "user_ok us u \<longleftrightarrow> 1 \<le> u_id u \<and> u_id u \<le> us \<and> isValidLogin (u_login u)
     \<and> u_role u \<in> {''user'', ''moderator'', ''admin''} \<and> u_status u \<in> {''online'', ''offline'', ''banned''}"

definition message_ok :: "int \<Rightarrow> tables \<Rightarrow> message_row \<Rightarrow> bool" where
  "message_ok ms t m \<longleftrightarrow> 1 \<le> m_id m \<and> m_id m \<le> ms \<and> text_ok (m_text m)
     \<and> user_exists (m_sender_id m) t \<and> user_exists (m_receiver_id m) t"

definition audit_ok :: "int \<Rightarrow> tables \<Rightarrow> audit_row \<Rightarrow> bool" where
  "audit_ok au t a \<longleftrightarrow> a_id a \<le> au \<and> (\<forall>i. a_actor_user_id a = Some i \<longrightarrow> user_exists i t)"

fun db_wf :: "int \<times> int \<times> int \<times> nat \<Rightarrow> tables \<Rightarrow> bool" where
  "db_wf (us, ms, au, sl) t \<longleftrightarrow> 0 \<le> us \<and> 0 \<le> ms
     \<and> distinct (map u_id (t_users t)) \<and> distinct (map u_login (t_users t)) \<and> list_all (user_ok us) (t_users t)
     \<and> distinct (map m_id (t_messages t)) \<and> list_all (message_ok ms t) (t_messages t)
     \<and> distinct (map a_id (t_audit t)) \<and> list_all (audit_ok au t) (t_audit t)"

lemma list_all_weaken: "list_all P xs \<Longrightarrow> (\<And>x. P x \<Longrightarrow> Q x) \<Longrightarrow> list_all Q xs"
  by (simp add: list_all_iff)

lemma distinct_above:
  assumes "distinct (map f xs)" "\<forall>x\<in>set xs. f x \<le> (n::int)" "f y = n + 1"
  shows "distinct (map f (xs @ [y]))"
  using assms by fastforce

lemma db_wf_bounds:
  assumes "db_wf (us, ms, au, sl) t"
  shows "\<forall>u\<in>set (t_users t). u_id u \<le> us" "\<forall>m\<in>set (t_messages t). m_id m \<le> ms"
    "\<forall>a\<in>set (t_audit t). a_id a \<le> au"
  using assms by (auto simp: list_all_iff user_ok_def message_ok_def audit_ok_def)

lemma db_wf_grows: "db_wf q t \<Longrightarrow> seqs_le q q' \<Longrightarrow> db_wf q' t"
  by (cases q; cases q') (auto elim!: list_all_weaken simp: user_ok_def message_ok_def audit_ok_def)

lemma user_exists_add [simp]:
  "user_exists i (add_message m t) = user_exists i t" "user_exists i (add_audit a t) = user_exists i t"
  "user_exists i (add_user u t) \<longleftrightarrow> user_exists i t \<or> u_id u = i"
  by (auto simp: user_exists_iff)

lemma db_wf_set_users:
  assumes "db_wf q t" "\<And>u. u_id (f now u) = u_id u" "\<And>u. u_login (f now u) = u_login u"
    "\<And>u. u_role (f now u) = u_role u" "\<And>u. u_status (f now u) \<in> {''online'', ''offline'', ''banned''}"
  shows "db_wf q (set_users p f now t)"
proof (cases q)
  case (fields us ms au sl)
  have "map u_id (t_users (set_users p f now t)) = map u_id (t_users t)"
    "map u_login (t_users (set_users p f now t)) = map u_login (t_users t)"
    using assms(2,3) by (auto intro!: map_set_users simp del: set_users_simps)
  moreover have "user_ok us ((f now u)\<lparr>u_updated_at := now\<rparr>)" if "user_ok us u" for u
    using that assms(2-4) assms(5) [of u] by (auto simp: user_ok_def)
  then have "list_all (user_ok us) (t_users (set_users p f now t))"
    using assms(1) fields by (auto simp: list_all_iff)
  moreover have "list_all (message_ok ms (set_users p f now t)) (t_messages t)"
    "list_all (audit_ok au (set_users p f now t)) (t_audit t)"
    using assms(1) fields by (auto elim!: list_all_weaken simp: message_ok_def audit_ok_def user_exists_set_users assms(2))
  ultimately show ?thesis using assms(1) fields by (simp del: set_users_simps(3))
qed

interpretation schema: table_invariant db_wf "\<lambda>l. True" "\<lambda>l. True"
proof
  show "db_wf q' t" if "db_wf q t" "seqs_le q q'" for q q' t
    using that by (rule db_wf_grows)
  show "db_wf (us + 1, ms, au, sl) (add_user (new_user (us + 1) l hash now) t)"
    if "db_wf (us, ms, au, sl) t" "isValidLogin l" "\<forall>u\<in>set (t_users t). u_login u \<noteq> l" for us ms au sl t l hash now
    using that db_wf_bounds [OF that(1)] distinct_above [of u_id "t_users t" us "new_user (us + 1) l hash now"]
    by (auto elim!: list_all_weaken simp: user_ok_def message_ok_def audit_ok_def new_user_def)
  show "db_wf (us, ms, au + 1, sl) (add_audit a t)"
    if "db_wf (us, ms, au, sl) t" "a_id a = au + 1" "\<forall>i. a_actor_user_id a = Some i \<longrightarrow> user_exists i t" for us ms au sl t a
    using that db_wf_bounds [OF that(1)] distinct_above [of a_id "t_audit t" au a]
    by (auto elim!: list_all_weaken simp: message_ok_def audit_ok_def)
  show "db_wf (us, ms + 1, au, sl) (add_message \<lparr>m_id = ms + 1, m_sender_id = i, m_receiver_id = j, m_text = x, m_created_at = now\<rparr> t)"
    if "db_wf (us, ms, au, sl) t" "text_ok x" "user_exists i t" "user_exists j t" for us ms au sl t x i j now
    using that db_wf_bounds [OF that(1)] distinct_above [of m_id "t_messages t" ms "\<lparr>m_id = ms + 1, m_sender_id = i, m_receiver_id = j, m_text = x, m_created_at = now\<rparr>"]
    by (auto elim!: list_all_weaken simp: message_ok_def audit_ok_def)
qed (auto intro!: db_wf_set_users simp: set_status_def)

subsection \<open>Append-only tables and immutable accounts\<close>

definition account :: "user_row \<Rightarrow> int \<times> string \<times> string \<times> string \<times> int" where
  "account u = (u_id u, u_login u, u_password_hash u, u_role u, u_created_at u)"

definition extends :: "tables \<Rightarrow> tables \<Rightarrow> bool" where
  "extends t0 t \<longleftrightarrow> prefix (t_messages t0) (t_messages t) \<and> prefix (t_audit t0) (t_audit t)
     \<and> prefix (map account (t_users t0)) (map account (t_users t))
     \<and> list_all (\<lambda>u. u_role u = ''user'') (drop (length (t_users t0)) (t_users t))"

lemma extends_refl [simp]: "extends t t"
  by (simp add: extends_def)

lemma extends_set_users:
  assumes "extends t0 t" "\<And>u. account (f now u) = account u"
  shows "extends t0 (set_users p f now t)"
proof -
  have "map account (t_users (set_users p f now t)) = map account (t_users t)"
    using assms(2) by (intro map_set_users) (simp_all add: account_def)
  moreover have "u_role (f now u) = u_role u" for u
    using assms(2) [of u] by (simp add: account_def)
  ultimately show ?thesis
    using assms(1) by (auto simp: extends_def list_all_iff drop_map simp del: set_users_simps(3))
      (auto simp: drop_map)
qed

interpretation grow: table_invariant "\<lambda>q. extends t0" "\<lambda>l. True" "\<lambda>l. True" for t0
proof
  show "extends t0 (add_user (new_user (us + 1) l hash now) t)" if "extends t0 t" for us l hash now t
    using that by (auto simp: extends_def new_user_def drop_Cons' dest: prefix_length_le)
qed (auto intro!: extends_set_users simp: set_status_def account_def, auto simp: extends_def)

subsection \<open>One account\<close>

lemma find_map: "(\<And>x. P (g x) = P x) \<Longrightarrow> find P (map g xs) = map_option g (find P xs)"
  by (induction xs) auto

lemma find_login_set_users:
  assumes "\<And>u. u_login (f now u) = u_login u"
  shows "find_login l (set_users p f now t)
     = map_option (\<lambda>u. if p u then (f now u)\<lparr>u_updated_at := now\<rparr> else u) (find_login l t)"
  unfolding find_login_def set_users_simps using assms by (intro find_map) simp

lemma find_append: "find P (xs @ ys) = (case find P xs of None \<Rightarrow> find P ys | Some x \<Rightarrow> Some x)"
  by (induction xs) auto

lemma find_login_add [simp]:
  "find_login l (add_message m t) = find_login l t" "find_login l (add_audit a t) = find_login l t"
  "find_login l (add_user u t)
     = (case find_login l t of None \<Rightarrow> if u_login u = l then Some u else None | Some v \<Rightarrow> Some v)"
  by (auto simp: find_login_def find_append split: option.splits)

lemma same_id_row:
  assumes "distinct (map u_id (t_users t))" "u \<in> set (t_users t)" "v \<in> set (t_users t)" "u_id u = u_id v"
  shows "u = v"
  using assms by (auto simp: distinct_map dest: inj_onD)

definition is_banned :: "string \<Rightarrow> tables \<Rightarrow> bool" where
  "is_banned l t \<longleftrightarrow> (case find_login l t of None \<Rightarrow> False | Some u \<Rightarrow> u_status u = ''banned'')"

definition is_free :: "string \<Rightarrow> tables \<Rightarrow> bool" where
  "is_free l t \<longleftrightarrow> (case find_login l t of None \<Rightarrow> False | Some u \<Rightarrow> u_status u \<noteq> ''banned'')"

definition banned_wf :: "string \<Rightarrow> int \<times> int \<times> int \<times> nat \<Rightarrow> tables \<Rightarrow> bool" where
  "banned_wf l q t \<longleftrightarrow> db_wf q t \<and> is_banned l t"

definition free_wf :: "string \<Rightarrow> int \<times> int \<times> int \<times> nat \<Rightarrow> tables \<Rightarrow> bool" where
  "free_wf l q t \<longleftrightarrow> db_wf q t \<and> is_free l t"

lemma db_wf_ids: "db_wf q t \<Longrightarrow> distinct (map u_id (t_users t))"
  by (cases q) simp

lemma status_add:
  "is_banned l t \<Longrightarrow> is_banned l (add_user u t)" "is_banned l (add_message m t) = is_banned l t"
  "is_banned l (add_audit a t) = is_banned l t"
  "is_free l t \<Longrightarrow> is_free l (add_user u t)" "is_free l (add_message m t) = is_free l t"
  "is_free l (add_audit a t) = is_free l t"
  by (auto simp: is_banned_def is_free_def split: option.splits)

lemma status_set_users:
  assumes "\<And>u. u_login (f now u) = u_login u"
  shows "is_banned l (set_users p f now t) \<longleftrightarrow>
      (case find_login l t of None \<Rightarrow> False | Some u \<Rightarrow> u_status (if p u then f now u else u) = ''banned'')"
    "is_free l (set_users p f now t) \<longleftrightarrow>
      (case find_login l t of None \<Rightarrow> False | Some u \<Rightarrow> u_status (if p u then f now u else u) \<noteq> ''banned'')"
  using assms by (auto simp: is_banned_def is_free_def find_login_set_users split: option.splits)

lemma is_banned_online:
  assumes "db_wf q t" "is_banned l t" "find_login l' t = Some row" "u_status row \<noteq> ''banned''"
  shows "is_banned l (set_users (\<lambda>u. u_id u = u_id row) (set_status ''online'') now t)"
proof -
  obtain v where v: "find_login l t = Some v" "u_status v = ''banned''"
    using assms(2) by (auto simp: is_banned_def split: option.splits)
  have "u_id v \<noteq> u_id row"
    using same_id_row [OF db_wf_ids [OF assms(1)]] find_login_SomeD(1) [OF v(1)] find_login_SomeD(1) [OF assms(3)]
      v(2) assms(4) by blast
  with v show ?thesis by (simp add: status_set_users set_status_def)
qed

lemma is_banned_ban:
  assumes "\<exists>u\<in>set (t_users t). u_login u = l"
  shows "is_banned l (set_users (\<lambda>u. u_login u = l) (\<lambda>now u. u\<lparr>u_status := ''banned''\<rparr>) now t)"
proof -
  obtain v where v: "find_login l t = Some v"
    using assms by (cases "find_login l t") (auto simp: find_login_def find_None_iff)
  with find_login_SomeD(2) [OF v] show ?thesis by (simp add: status_set_users)
qed

interpretation ban: table_invariant "banned_wf l" "\<lambda>x. True" "\<lambda>x. x \<noteq> l" for l
proof
  show "banned_wf l q (set_users (\<lambda>u. u_id u = u_id row) (set_status ''online'') now t)"
    if "banned_wf l q t" "find_login l' t = Some row" "u_status row \<noteq> ''banned''" for q t l' row now
    using that by (auto simp: banned_wf_def intro: schema.onlines is_banned_online)
  show "banned_wf l q (set_users (\<lambda>u. p u \<and> u_status u \<noteq> ''banned'') (set_status ''offline'') now t)"
    if "banned_wf l q t" for q p now t
    using that schema.offlines
    by (simp add: banned_wf_def status_set_users set_status_def) (simp add: is_banned_def split: option.splits)
  show "banned_wf l q (set_users (\<lambda>u. u_login u = l') (\<lambda>now u. u\<lparr>u_status := ''banned''\<rparr>) now t)"
    if "banned_wf l q t" for q l' now t
    using that schema.bans by (simp add: banned_wf_def status_set_users) (simp add: is_banned_def split: option.splits)
  show "banned_wf l q (set_users (\<lambda>u. u_login u = l' \<and> u_status u = ''banned'') (\<lambda>now u. u\<lparr>u_status := ''offline''\<rparr>) now t)"
    if "banned_wf l q t" "l' \<noteq> l" for q l' now t
    using that schema.unbanned find_login_SomeD(2) [of l t]
    by (simp add: banned_wf_def status_set_users) (auto simp add: is_banned_def split: option.splits)
qed (auto simp: banned_wf_def status_add intro: schema.grows schema.registers schema.audits schema.sends simp del: db_wf.simps)

interpretation unbanned: table_invariant "free_wf l" "\<lambda>x. x \<noteq> l" "\<lambda>x. True" for l
proof
  show "free_wf l q (set_users (\<lambda>u. u_id u = u_id row) (set_status ''online'') now t)"
    if "free_wf l q t" "find_login l' t = Some row" "u_status row \<noteq> ''banned''" for q t l' row now
    using that schema.onlines
    by (simp add: free_wf_def status_set_users set_status_def)
       (simp add: is_free_def set_status_def split: option.splits)
  show "free_wf l q (set_users (\<lambda>u. p u \<and> u_status u \<noteq> ''banned'') (set_status ''offline'') now t)"
    if "free_wf l q t" for q p now t
    using that schema.offlines
    by (simp add: free_wf_def status_set_users set_status_def)
       (simp add: is_free_def set_status_def split: option.splits)
  show "free_wf l q (set_users (\<lambda>u. u_login u = l') (\<lambda>now u. u\<lparr>u_status := ''banned''\<rparr>) now t)"
    if "free_wf l q t" "l' \<noteq> l" for q l' now t
    using that schema.bans find_login_SomeD(2) [of l t]
    by (simp add: free_wf_def status_set_users) (auto simp add: is_free_def split: option.splits)
  show "free_wf l q (set_users (\<lambda>u. u_login u = l' \<and> u_status u = ''banned'') (\<lambda>now u. u\<lparr>u_status := ''offline''\<rparr>) now t)"
    if "free_wf l q t" for q l' now t
    using that schema.unbanned
    by (simp add: free_wf_def status_set_users) (simp add: is_free_def split: option.splits)
qed (auto simp: free_wf_def status_add intro: schema.grows schema.registers schema.audits schema.sends simp del: db_wf.simps)

end
