(* ===== verification/Database_Props.thy ===== *)
theory Database_Props
  imports Database_Invariants "HOL-Library.Multiset"
begin

text \<open>
  The properties of the \<open>Database\<close> class: they hold for every schedule of failing statements and, where
  it matters, of commits in doubt. \<open>demo_env\<close> and \<open>demo_db\<close> are a concrete PostgreSQL and an empty
  database on which the hypotheses hold.
\<close>

subsection \<open>A concrete database\<close>

definition demo_env :: pg_env where
  "demo_env = \<lparr>log_time = (\<lambda>n. ''12:00''), create_directories = (\<lambda>p. None), can_append = (\<lambda>p. True),
     crypt = (\<lambda>p h. take 2 (h @ ''ab'') @ p), gen_salt = (\<lambda>n. ''ab''), pg_now = (\<lambda>n. int n), to_char_utc = (\<lambda>t. ''t''),
     order_login = (\<lambda>us. us),
     order_created = (\<lambda>desc js. if desc then rev (sort_key (\<lambda>j. m_created_at (fst j)) js)
                                else sort_key (\<lambda>j. m_created_at (fst j)) js),
     violation = (\<lambda>c. c), conversion_overrun = ''overrun''\<rparr>"

definition no_rows :: tables where
  "no_rows = \<lparr>t_users = [], t_messages = [], t_audit = []\<rparr>"

definition demo_db :: db_state where
  "demo_db = \<lparr>logFile = None, stderrFallback = True, logLines = (\<lambda>p. []), cerr = [], clock_reads = 0,
     tables = no_rows, work = no_rows, txn_now = 0, txns = 0, users_seq = 0, messages_seq = 0, audit_seq = 0,
     salts = 0, outcomes = []\<rparr>"

definition demo_users :: db_state where
  "demo_users = fold (db_exec demo_env) [Register ''alice'' ''password12'', Register ''bob'' ''password34''] demo_db"

lemma demo_db_wf: "db_wf (seqs demo_db) (tables demo_db)"
  by (simp add: demo_db_def seqs_def no_rows_def)

lemma demo_users_wf: "db_wf (seqs demo_users) (tables demo_users)"
  unfolding demo_users_def by (rule schema.run_holds_free [OF demo_db_wf]) simp_all

subsection \<open>Constraints, accounts, atomicity\<close>

text \<open>(C10) Whatever calls are made, in whatever order, whatever statements fail and whatever commits are
  in doubt, the tables keep the schema's constraints: identifiers and logins stay unique and below the
  sequences, roles and statuses stay in their sets, every message and audit row refers to users that
  exist, and every stored text is non-blank and at most 4096 characters long.\<close>

theorem db_constraints_preserved:
  assumes "db_wf (seqs s) (tables s)"
  shows "db_wf (seqs (fold (db_exec env) cs s)) (tables (fold (db_exec env) cs s))"
  using assms by (rule schema.run_holds_free) simp_all

theorem db_constraints_preserved_witness:
  "db_wf (seqs (fold (db_exec demo_env) [Register ''alice'' ''password12'', Ban 0 ''alice''] demo_db))
     (tables (fold (db_exec demo_env) [Register ''alice'' ''password12'', Ban 0 ''alice''] demo_db))"
  by (rule db_constraints_preserved [OF demo_db_wf])

text \<open>(C19) Messages and audit rows are append-only and accounts are immutable: after any calls the old
  messages and audit rows are a prefix of the new ones, every account keeps its identifier, login,
  password hash, role and creation time, and every account added since has the role \<open>user\<close>. In
  particular no call of the server's database layer grants a role.\<close>

theorem rows_append_only: "extends (tables s) (tables (fold (db_exec env) cs s))"
  by (rule grow.run_holds_free) simp_all

fun db_status :: "'e pg_env_scheme \<Rightarrow> db_call \<Rightarrow> 's db_state_scheme \<Rightarrow> DbStatus" where
  "db_status env (Register l p) s = res_status (fst (registerUser env l p s))"
| "db_status env (Login l p) s = lr_status (fst (loginUser env l p s))"
| "db_status env (Logout i) s = res_status (fst (logoutUser env i s))"
| "db_status env (Offline l) s = res_status (fst (markUserOffline env l s))"
| "db_status env (Send i l m) s = res_status (fst (sendMessage env i l m s))"
| "db_status env (Ban a l) s = res_status (fst (banUser env a l s))"
| "db_status env (Unban a l) s = res_status (fst (unbanUser env a l s))"
| "db_status env (Kick a l) s = res_status (fst (kickUser env a l s))"
| "db_status env _ s = DB_Error"

text \<open>(C13) A call that does not answer \<open>Ok\<close> leaves every table as it was, whichever of its statements
  failed, unless a commit was in doubt; so does every reading call, whatever it answers.\<close>

theorem failed_call_changes_nothing:
  assumes "no_doubt s" "db_status env c s \<noteq> DB_Ok"
  shows "tables (db_exec env c s) = tables s"
proof (cases "reads_only c")
  case True
  then show ?thesis using reads_only_same [of c s env] by (simp add: same_rows_def)
next
  case False
  note becomes_def [simp] same_rows_def [simp]
  show ?thesis
  proof (cases c)
    case (Register l p)
    then show ?thesis using assms registerUser_effect [OF prod.collapse [symmetric], of env l p s] by auto
  next
    case (Login l p)
    then show ?thesis using assms loginUser_effect [OF prod.collapse [symmetric], of env l p s] by auto
  next
    case (Logout i)
    then show ?thesis using assms logoutUser_effect [OF prod.collapse [symmetric], of env i s] by auto
  next
    case (Offline l)
    then show ?thesis using assms markUserOffline_effect [OF prod.collapse [symmetric], of env l s] by auto
  next
    case (Send i l m)
    then show ?thesis using assms sendMessage_effect [OF prod.collapse [symmetric], of env i l m s] by auto
  next
    case (Ban a l)
    then show ?thesis using assms banUser_effect [OF prod.collapse [symmetric], of env a l s] by auto
  next
    case (Unban a l)
    then show ?thesis using assms unbanUser_effect [OF prod.collapse [symmetric], of env a l s] by auto
  next
    case (Kick a l)
    then show ?thesis using assms kickUser_effect [OF prod.collapse [symmetric], of env a l s] by auto
  qed (use False in simp_all)
qed

theorem failed_call_changes_nothing_witness:
  "tables (db_exec demo_env (Ban 0 ''alice'') (demo_db\<lparr>outcomes := [Done, Fails ''x'']\<rparr>)) = no_rows"
proof -
  have "no_doubt (demo_db\<lparr>outcomes := [Done, Fails ''x'']\<rparr>)" by (simp add: no_doubt_def)
  moreover have "db_status demo_env (Ban 0 ''alice'') (demo_db\<lparr>outcomes := [Done, Fails ''x'']\<rparr>) \<noteq> DB_Ok"
    by code_simp
  ultimately show ?thesis
    using failed_call_changes_nothing [of "demo_db\<lparr>outcomes := [Done, Fails ''x'']\<rparr>" demo_env "Ban 0 ''alice''"]
    by (simp add: demo_db_def)
qed

lemma banned_login:
  assumes "is_banned l (tables s)" "loginUser env l p s = (q, s')"
  shows "lr_status q \<in> {DB_Banned, DB_Error} \<and> tables s' = tables s"
proof -
  obtain u where "find_login l (tables s) = Some u" "u_status u = ''banned''"
    using assms(1) by (auto simp: is_banned_def split: option.splits)
  then show ?thesis
    using loginUser_txn_wp [of env l p s] assms(2)
    by (elim wpE) (auto simp: loginUser_def makeLogin_def same_rows_def)
qed

text \<open>(C5) A ban holds: once \<open>banUser\<close> has answered \<open>Ok\<close>, no sequence of calls that does not unban that
  login makes a login to it succeed, with any password; the answer is \<open>Banned\<close>, or \<open>Error\<close> when a statement
  fails, and the tables are not touched by the attempt.\<close>

theorem ban_blocks_login:
  assumes "db_wf (seqs s) (tables s)" "banUser env a l s = (r, s1)" "res_status r = DB_Ok"
    "\<forall>b. Unban b l \<notin> set cs" "loginUser env l p (fold (db_exec env) cs s1) = (q, s2)"
  shows "lr_status q \<in> {DB_Banned, DB_Error} \<and> tables s2 = tables (fold (db_exec env) cs s1)"
proof -
  let ?s = "fold (db_exec env) cs s1"
  have ids: "db_wf (seqs s1) (tables s1)"
    using schema.db_exec_holds [of s "Ban a l" env] assms(1,2) by (simp add: schema.holds_def)
  have "is_banned l (tables s1)"
    using banUser_effect [OF assms(2)] assms(3)
    by (auto simp: becomes_def moderate_rows_def status_add is_banned_ban)
  with ids have "ban.holds l s1" by (simp add: ban.holds_def banned_wf_def)
  moreover have "list_all (ban.permitted l) cs"
    using assms(4) by (auto simp: list_all_iff ban.permitted_iff)
  ultimately have "is_banned l (tables ?s)"
    using ban.run_holds [of l s1 cs env] by (simp add: ban.holds_def banned_wf_def)
  then show ?thesis using banned_login assms(5) by blast
qed

theorem ban_blocks_login_witness:
  "lr_status (fst (loginUser demo_env ''alice'' ''password12''
     (fold (db_exec demo_env) [Logout 1, Login ''alice'' ''password12''] (snd (banUser demo_env 0 ''alice'' demo_users)))))
   \<in> {DB_Banned, DB_Error}"
proof -
  have "res_status (fst (banUser demo_env 0 ''alice'' demo_users)) = DB_Ok" by code_simp
  then show ?thesis
    using ban_blocks_login [of demo_users demo_env 0 "''alice''" _ _ "[Logout 1, Login ''alice'' ''password12'']"
        "''password12''", OF demo_users_wf prod.collapse [symmetric] _ _ prod.collapse [symmetric]] by simp
qed

text \<open>\<open>crypt\<close> of pgcrypto: hashing a password with a hash of that password as the salt gives the hash back.\<close>

definition crypt_verifies :: "'e pg_env_scheme \<Rightarrow> bool" where
  "crypt_verifies env \<longleftrightarrow> (\<forall>p salt. crypt env p (crypt env p salt) = crypt env p salt)"

text \<open>The account a registration made, after any later calls.\<close>

lemma registered_account:
  assumes "registerUser env l p s = (r, s1)" "res_status r = DB_Ok" "db_wf (seqs s) (tables s)"
    "\<forall>a. Ban a l \<notin> set cs"
  shows "\<exists>u. find_login l (tables (fold (db_exec env) cs s1)) = Some u \<and> u_status u \<noteq> ''banned'' \<and> u_id u = res_id r
     \<and> u_role u = ''user'' \<and> u_password_hash u = crypt env p (gen_salt env (salts s))"
proof -
  let ?s = "fold (db_exec env) cs s1"
  let ?u = "new_user (users_seq s + 1) l (crypt env p (gen_salt env (salts s))) (pg_now env (txns s))"
  have eff: "\<forall>u\<in>set (t_users (tables s)). u_login u \<noteq> l" "tables s1 = register_rows env l p s"
    "res_id r = users_seq s + 1"
    using registerUser_effect [OF assms(1)] assms(2) by (auto simp: becomes_def)
  have none: "find_login l (tables s) = None" using eff(1) by (simp add: find_login_def find_None_iff)
  have "db_wf (seqs s1) (tables s1)"
    using schema.registerUser_holds [OF assms(1)] assms(3) by (simp add: schema.holds_def)
  then have "unbanned.holds l s1"
    using none by (simp add: unbanned.holds_def free_wf_def is_free_def eff(2) register_rows_def new_user_def)
  moreover have "list_all (unbanned.permitted l) cs"
    using assms(4) by (auto simp: list_all_iff unbanned.permitted_iff)
  ultimately have wf: "free_wf l (seqs ?s) (tables ?s)"
    using unbanned.run_holds [of l s1 cs env] by (simp add: unbanned.holds_def)
  then obtain u where u: "find_login l (tables ?s) = Some u" "u_status u \<noteq> ''banned''"
    by (auto simp: free_wf_def is_free_def split: option.splits)
  have "extends (tables s1) (tables ?s)" by (rule grow.run_holds_free) simp_all
  then have "account ?u \<in> account ` set (t_users (tables ?s))"
    by (auto simp: extends_def eff(2) register_rows_def dest!: set_mono_prefix)
  then obtain v where v: "v \<in> set (t_users (tables ?s))" "account v = account ?u" by (metis imageE)
  moreover have "u_login v = l" using v(2) by (simp add: account_def new_user_def)
  moreover have "distinct (map u_login (t_users (tables ?s)))"
    using wf by (cases "seqs ?s") (simp add: free_wf_def)
  ultimately have "v = u"
    using find_login_SomeD [OF u(1)] by (auto simp: distinct_map dest: inj_onD)
  with u v(2) eff(3) show ?thesis by (simp add: account_def new_user_def)
qed

text \<open>(C18) Register, then log in: once \<open>registerUser\<close> has answered \<open>Ok\<close>, then after any calls that do not
  ban the login, logging in with the same password succeeds as the registered account with the role
  \<open>user\<close>, unless a statement of the login fails (and with none scheduled to fail it does succeed). With
  another password it succeeds only if that password has the same hash.\<close>

theorem register_then_login:
  assumes "crypt_verifies env" "db_wf (seqs s) (tables s)"
    and reg: "registerUser env l p s = (r, s1)" "res_status r = DB_Ok"
    and later: "\<forall>a. Ban a l \<notin> set cs" "s2 = fold (db_exec env) cs s1"
    and login: "loginUser env l p' s2 = (q, s3)"
  shows "(p' = p \<longrightarrow> lr_status q \<in> {DB_Ok, DB_Error} \<and> (outcomes s2 = [] \<longrightarrow> audit_seq s2 < BIGINT_MAX \<longrightarrow> lr_status q = DB_Ok))
    \<and> (lr_status q = DB_Ok \<longrightarrow> lr_userId q = res_id r \<and> lr_role q = ''user''
        \<and> crypt env p' (crypt env p (gen_salt env (salts s))) = crypt env p (gen_salt env (salts s)))"
proof -
  obtain u where u: "find_login l (tables s2) = Some u" "u_status u \<noteq> ''banned''" "u_id u = res_id r"
    "u_role u = ''user''" "u_password_hash u = crypt env p (gen_salt env (salts s))"
    using registered_account [OF reg assms(2) later(1)] later(2) by blast
  have valid: "isValidLogin l" using registerUser_effect [OF reg(1)] reg(2) by auto
  have ok: "lr_status q = DB_Ok \<longrightarrow> lr_userId q = res_id r \<and> lr_role q = ''user''
        \<and> crypt env p' (crypt env p (gen_salt env (salts s))) = crypt env p (gen_salt env (salts s))"
    using loginUser_effect [OF login] u by auto
  have "lr_status q \<in> {DB_Ok, DB_Error}" if "p' = p"
    using loginUser_txn_wp [of env l p' s2] login u assms(1) that
    by (elim wpE) (auto simp: loginUser_def makeLogin_def crypt_verifies_def)
  moreover have "lr_status q = DB_Ok" if "p' = p" "outcomes s2 = []" "audit_seq s2 < BIGINT_MAX"
    using loginUser_clear [of l s2 u env p'] u assms(1) that login valid_login_length [OF valid] sql_length_le [of l]
    by (simp add: crypt_verifies_def)
  ultimately show ?thesis using ok by blast
qed

lemma demo_crypt: "crypt_verifies demo_env"
  by (auto simp: crypt_verifies_def demo_env_def min_def)

theorem register_then_login_witness:
  "lr_status (fst (loginUser demo_env ''alice'' ''password12''
     (fold (db_exec demo_env) [Register ''bob'' ''password34''] (snd (registerUser demo_env ''alice'' ''password12'' demo_db)))))
   = DB_Ok"
proof -
  let ?s1 = "snd (registerUser demo_env ''alice'' ''password12'' demo_db)"
  let ?s2 = "fold (db_exec demo_env) [Register ''bob'' ''password34''] ?s1"
  have "res_status (fst (registerUser demo_env ''alice'' ''password12'' demo_db)) = DB_Ok" by code_simp
  moreover have "outcomes ?s2 = [] \<and> audit_seq ?s2 < BIGINT_MAX" by code_simp
  ultimately show ?thesis
    using register_then_login [OF demo_crypt demo_db_wf prod.collapse [symmetric], of "''alice''" "''password12''"
        "[Register ''bob'' ''password34'']" ?s2 "''password12''", OF _ _ _ prod.collapse [symmetric]]
    by simp
qed

subsection \<open>Messages\<close>

text \<open>What \<open>ORDER BY m.created_at\<close> promises: the same rows, in the order of their creation times. Rows
  with the same time may come in any order.\<close>

definition orders :: "'e pg_env_scheme \<Rightarrow> bool" where
  "orders env \<longleftrightarrow> (\<forall>desc js. mset (order_created env desc js) = mset js
     \<and> sorted_wrt (\<lambda>x y. if desc then m_created_at (fst y) \<le> m_created_at (fst x)
                          else m_created_at (fst x) \<le> m_created_at (fst y)) (order_created env desc js))"

lemma demo_orders: "orders demo_env"
proof -
  have "sorted_wrt (\<lambda>x y. m_created_at (fst x) \<le> m_created_at (fst y)) (sort_key (\<lambda>j :: joined. m_created_at (fst j)) js)" for js
    using sorted_sort_key [of "\<lambda>j :: joined. m_created_at (fst j)" js] by (simp add: sorted_map)
  then show ?thesis by (simp add: orders_def demo_env_def sorted_wrt_rev)
qed

lemma set_join_messages:
  "(m, x, y) \<in> set (join_messages p t) \<longleftrightarrow> m \<in> set (t_messages t) \<and> p m \<and> x \<in> set (t_users t)
     \<and> u_id x = m_sender_id m \<and> y \<in> set (t_users t) \<and> u_id y = m_receiver_id m"
  by (auto simp: join_messages_def)

lemma fetch_messages_rows:
  assumes "orders env" "fetch_messages env name p desc limit offset s = (ms, s')"
  shows "\<forall>r\<in>set ms. \<exists>m x y. (m, x, y) \<in> set (join_messages p (tables s)) \<and> r = message_record env (m, x, y)"
    "length ms \<le> nat limit"
proof -
  let ?o = "order_created env desc (join_messages p (tables s))"
  obtain n where ms: "ms = map (message_record env) (take n (take (nat limit) (drop (nat offset) ?o)))"
    using fetch_messages_effect(2) [OF assms(2)] by blast
  have "set ?o = set (join_messages p (tables s))"
    using assms(1) by (metis orders_def set_mset_mset)
  then show "\<forall>r\<in>set ms. \<exists>m x y. (m, x, y) \<in> set (join_messages p (tables s)) \<and> r = message_record env (m, x, y)"
    using ms by (fastforce dest: in_set_takeD in_set_dropD)
  show "length ms \<le> nat limit" using ms by simp
qed

lemma clampLimit_range: "1 \<le> clampLimit n \<and> clampLimit n \<le> 500"
  by (auto simp: clampLimit_def kDefaultLimit_def kMaxLimit_def)

text \<open>(C30) An inbox shows only the user's own mail: every record of \<open>getInbox\<close> is a stored message whose
  receiver is that user, with the sender's and receiver's logins, its text and its id; there are at
  most 500 of them whatever limit is asked for.\<close>

theorem inbox_is_own_mail:
  assumes "orders env" "getInbox env i limit s = (ms, s')"
  shows "length ms \<le> 500 \<and> (\<forall>r\<in>set ms. \<exists>m\<in>set (t_messages (tables s)). \<exists>x\<in>set (t_users (tables s)). \<exists>y\<in>set (t_users (tables s)).
     m_receiver_id m = i \<and> u_id x = m_sender_id m \<and> u_id y = i \<and>
     r = \<lparr>mr_id = m_id m, mr_sender = u_login x, mr_receiver = u_login y, mr_text = m_text m, mr_createdAt = to_char_utc env (m_created_at m)\<rparr>)"
  using fetch_messages_rows [OF assms(1) assms(2) [unfolded getInbox_def]] clampLimit_range [of limit]
  by (fastforce simp: set_join_messages message_record_def)

definition demo_mail :: db_state where
  "demo_mail = fold (db_exec demo_env) [Send 1 ''bob'' ''hello'', Send 2 ''alice'' ''hi''] demo_users"

theorem inbox_is_own_mail_witness:
  "map mr_text (fst (getInbox demo_env 2 0 demo_mail)) = [''hello''] \<and> list_all (\<lambda>r.
     list_ex (\<lambda>m. m_receiver_id m = 2 \<and> mr_text r = m_text m) (t_messages (tables demo_mail)))
       (fst (getInbox demo_env 2 0 demo_mail))"
proof
  show "map mr_text (fst (getInbox demo_env 2 0 demo_mail)) = [''hello'']" by code_simp
  show "list_all (\<lambda>r. list_ex (\<lambda>m. m_receiver_id m = 2 \<and> mr_text r = m_text m) (t_messages (tables demo_mail)))
       (fst (getInbox demo_env 2 0 demo_mail))"
    using inbox_is_own_mail [OF demo_orders prod.collapse [symmetric], of 2 0 demo_mail]
    unfolding list_all_iff list_ex_iff by fastforce
qed

text \<open>(C31) A history shows only the two parties' conversation: every record of \<open>getHistory\<close> is a stored
  message between the asking user and the account with the target login, in one direction or the
  other; there are at most 500 of them.\<close>

theorem history_is_own_conversation:
  assumes "orders env" "getHistory env i l limit offset s = (ms, s')"
  shows "length ms \<le> 500 \<and> (\<forall>r\<in>set ms. \<exists>m\<in>set (t_messages (tables s)). \<exists>u\<in>set (t_users (tables s)). u_login u = l \<and>
     mr_id r = m_id m \<and> mr_text r = m_text m \<and>
     (m_sender_id m = i \<and> m_receiver_id m = u_id u \<or> m_sender_id m = u_id u \<and> m_receiver_id m = i))"
proof -
  obtain o1 s1 where g: "getUserId env l s = (o1, s1)" by fastforce
  have rows: "tables s1 = tables s" using getUserId_effect(1) [OF g] by (simp add: same_rows_def)
  show ?thesis
  proof (cases o1)
    case None
    with assms(2) g show ?thesis by (simp add: getHistory_def)
  next
    case (Some target)
    then obtain u where u: "find_login l (tables s) = Some u" "target = u_id u"
      using getUserId_effect(2) [OF g] by blast
    from Some g assms(2) have "fetch_messages env ''getHistory''
            (\<lambda>m. (m_sender_id m = i \<and> m_receiver_id m = target) \<or> (m_sender_id m = target \<and> m_receiver_id m = i))
            False (clampLimit limit) (max 0 offset) s1 = (ms, s')"
      by (simp add: getHistory_def)
    from fetch_messages_rows [OF assms(1) this] show ?thesis
      using find_login_SomeD [OF u(1)] u(2) rows clampLimit_range [of limit]
      by (fastforce simp: set_join_messages message_record_def)
  qed
qed

theorem history_is_own_conversation_witness:
  "length (fst (getHistory demo_env 1 ''bob'' 0 0 demo_mail)) = 2 \<and> length (fst (getHistory demo_env 1 ''bob'' 0 0 demo_mail)) \<le> 500"
  using history_is_own_conversation [OF demo_orders prod.collapse [symmetric], of 1 "''bob''" 0 0 demo_mail]
  by (rule_tac conjI, code_simp) simp

text \<open>A sorted list whose greatest key belongs to one element starts with that element.\<close>

lemma sorted_desc_hd:
  assumes "sorted_wrt (\<lambda>x y. k y \<le> (k x :: int)) xs" "x \<in> set xs" "\<And>y. y \<in> set xs \<Longrightarrow> y \<noteq> x \<Longrightarrow> k y < k x"
  shows "\<exists>ys. xs = x # ys"
  using assms by (cases xs) force+

lemma fetch_clear:
  assumes "outcomes s = []"
    "\<And>j. j \<in> set (order_created env desc (join_messages p (tables s))) \<Longrightarrow> INT_MIN \<le> m_id (fst j) \<and> m_id (fst j) \<le> INT_MAX"
  shows "fst (fetch_messages env name p desc limit offset s)
     = map (message_record env) (take (nat limit) (drop (nat offset) (order_created env desc (join_messages p (tables s)))))"
proof -
  let ?s1 = "s\<lparr>work := tables s, txn_now := pg_now env (txns s), txns := Suc (txns s)\<rparr>"
  let ?js = "take (nat limit) (drop (nat offset) (order_created env desc (join_messages p (tables s))))"
  obtain ms r s2 where c: "collect_messages env ?js ?s1 = (ms, r, s2)" by (metis prod_cases3)
  have "ms = map (message_record env) ?js"
    using collect_messages_spec(3) [OF c] assms(2) by (meson in_set_dropD in_set_takeD)
  with c show ?thesis
    using assms(1)
    by (simp add: fetch_messages_def clear_defs join_messages_def [symmetric] split: sum.splits)
qed



end
