(* ===== verification/Server_State.thy ===== *)
theory Server_State
  imports Sockets Server_Config Database_Props
begin

text \<open>
  The state the server's threads share, and the part of \<open>ClientHandler\<close> that other threads call. The
  record \<open>world\<close> extends the store of \<open>Database\<close> (itself an extension of the log) with the kernel, the
  session registry's map, the live \<open>ClientHandler\<close> objects by address (the null pointer is 0) and the
  fields of \<open>Server\<close>. Dereferencing an address at which no object lives is undefined behaviour in
  C++; the model records it in \<open>dangling\<close>.
\<close>

subsection \<open>Records\<close>

record 'k srv_sys = "'k sys" +
  sys_bind :: "'k \<Rightarrow> int \<Rightarrow> uint16 \<Rightarrow> int \<times> 'k"
  sys_listen :: "'k \<Rightarrow> int \<Rightarrow> int \<Rightarrow> int \<times> 'k"
  sys_accept :: "'k \<Rightarrow> int \<Rightarrow> int \<times> 'k"

record 'k srv_env = pg_env +
  os :: "'k srv_sys"

record ClientHandler =
  clientSocket :: SocketHandle
  ch_maxFrameSize :: nat
  authed :: bool
  userId :: int
  username :: string
  role :: string

definition mk_ClientHandler :: "SocketHandle \<Rightarrow> nat \<Rightarrow> ClientHandler" where
  "mk_ClientHandler socket maxFrame =
     \<lparr>clientSocket = socket, ch_maxFrameSize = maxFrame, authed = False, userId = -1, username = [], role = []\<rparr>"

record 'k world = db_state +
  kernel :: 'k
  sessions :: "int \<Rightarrow> nat list option"
  handlers :: "nat \<Rightarrow> ClientHandler option"
  dangling :: bool

definition nullptr :: nat where
  "nullptr = 0"

text \<open>An assignment to fields of the object at \<open>h\<close>.\<close>

definition upd_handler :: "nat \<Rightarrow> (ClientHandler \<Rightarrow> ClientHandler) \<Rightarrow> ('k, 'z) world_scheme \<Rightarrow> ('k, 'z) world_scheme" where
  "upd_handler h f w =
     (case handlers w h of
        None \<Rightarrow> w\<lparr>dangling := True\<rparr>
      | Some c \<Rightarrow> w\<lparr>handlers := (handlers w)(h \<mapsto> f c)\<rparr>)"

subsection \<open>Sending\<close>

definition sendResponse ::
  "('k, 'e) srv_env_scheme \<Rightarrow> nat \<Rightarrow> string \<Rightarrow> ('k, 'z) world_scheme \<Rightarrow> bool \<times> ('k, 'z) world_scheme" where
  "sendResponse env h payload w =
     (case handlers w h of
        None \<Rightarrow> (False, w\<lparr>dangling := True\<rparr>)
      | Some c \<Rightarrow>
          case sendFrame_native (os env) (clientSocket c) (kernel w) payload (ch_maxFrameSize c) of
            (ok, k) \<Rightarrow> (ok, w\<lparr>kernel := k\<rparr>))"

text \<open>A response whose result the caller drops.\<close>

definition respond ::
  "('k, 'e) srv_env_scheme \<Rightarrow> nat \<Rightarrow> string \<Rightarrow> ('k, 'z) world_scheme \<Rightarrow> ('k, 'z) world_scheme" where
  "respond env h payload w = snd (sendResponse env h payload w)"

definition deliverFrame ::
  "('k, 'e) srv_env_scheme \<Rightarrow> nat \<Rightarrow> string \<Rightarrow> ('k, 'z) world_scheme \<Rightarrow> bool \<times> ('k, 'z) world_scheme" where
  "deliverFrame env h payload w = sendResponse env h payload w"

definition close_client :: "('k, 'e) srv_env_scheme \<Rightarrow> nat \<Rightarrow> ('k, 'z) world_scheme \<Rightarrow> ('k, 'z) world_scheme" where
  "close_client env h w =
     (case handlers w h of
        None \<Rightarrow> w\<lparr>dangling := True\<rparr>
      | Some c \<Rightarrow> upd_handler h (\<lambda>c. c\<lparr>clientSocket := kInvalidSocket\<rparr>)
                    (w\<lparr>kernel := closeSocket (os env) (clientSocket c) (kernel w)\<rparr>))"

definition disconnectFromAdmin ::
  "('k, 'e) srv_env_scheme \<Rightarrow> nat \<Rightarrow> ('k, 'z) world_scheme \<Rightarrow> ('k, 'z) world_scheme" where
  "disconnectFromAdmin env h w = close_client env h (respond env h ''KICKED'' w)"

subsection \<open>What the calls leave alone\<close>

text \<open>The store's operations change nothing outside the store.\<close>

lemma more_frame:
  fixes s s' :: "('k, 'z) world_scheme"
  assumes "db_state.more s' = db_state.more s"
  shows "kernel s' = kernel s" "sessions s' = sessions s" "handlers s' = handlers s" "dangling s' = dangling s"
    "world.more s' = world.more s"
  using assms by (cases s; cases s'; simp)+

lemma log_frame [simp]:
  fixes w :: "('k, 'z) world_scheme"
  shows "kernel (logger_log env l m w) = kernel w" "sessions (logger_log env l m w) = sessions w"
    "handlers (logger_log env l m w) = handlers w" "dangling (logger_log env l m w) = dangling w"
    "world.more (logger_log env l m w) = world.more w"
  by (simp_all add: logger_log_def)

text \<open>The tables, the sequences and the outcome schedule: what the store's laws speak about.\<close>

definition store :: "('k, 'z) world_scheme \<Rightarrow> tables \<times> (int \<times> int \<times> int \<times> nat) \<times> outcome list" where
  "store w = (tables w, seqs w, outcomes w)"

lemma sendResponse_frame [simp]:
  "tables (snd (sendResponse env h p w)) = tables w" "sessions (snd (sendResponse env h p w)) = sessions w"
  "handlers (snd (sendResponse env h p w)) = handlers w"
  "dangling (snd (sendResponse env h p w)) \<longleftrightarrow> dangling w \<or> handlers w h = None"
  "world.more (snd (sendResponse env h p w)) = world.more w"
  "store (snd (sendResponse env h p w)) = store w"
  by (auto simp: sendResponse_def store_def seqs_def split: option.splits prod.splits)

lemma respond_frame [simp]:
  "tables (respond env h p w) = tables w" "sessions (respond env h p w) = sessions w"
  "handlers (respond env h p w) = handlers w"
  "dangling (respond env h p w) \<longleftrightarrow> dangling w \<or> handlers w h = None"
  "world.more (respond env h p w) = world.more w"
  "store (respond env h p w) = store w"
  by (simp_all add: respond_def)

end
