(* ===== verification/Session_Registry.thy ===== *)
theory Session_Registry
  imports Server_State
begin

text \<open>
  The class \<open>SessionRegistry\<close> of \<open>server/src/SessionRegistry.cpp\<close>: the live sessions of each user, as
  addresses of \<open>ClientHandler\<close> objects. The locale \<open>session_registry\<close> is what its clients rely on; its
  lemmas show that registering and unregistering keep the registry an exact picture of which
  handler is logged in as whom.
\<close>

subsection \<open>Operations\<close>

definition addSession :: "int \<Rightarrow> nat \<Rightarrow> ('k, 'z) world_scheme \<Rightarrow> ('k, 'z) world_scheme" where
  "addSession uid h w =
     w\<lparr>sessions := (sessions w)(uid \<mapsto> (case sessions w uid of None \<Rightarrow> [] | Some hs \<Rightarrow> hs) @ [h])\<rparr>"

definition removeSession :: "int \<Rightarrow> nat \<Rightarrow> ('k, 'z) world_scheme \<Rightarrow> ('k, 'z) world_scheme" where
  "removeSession uid h w =
     (case sessions w uid of
        None \<Rightarrow> w
      | Some hs \<Rightarrow>
          (let hs' = filter (\<lambda>x. x \<noteq> h) hs
           in if hs' = [] then w\<lparr>sessions := (sessions w)(uid := None)\<rparr>
              else w\<lparr>sessions := (sessions w)(uid \<mapsto> hs')\<rparr>))"

fun deliver_loop ::
  "('k, 'e) srv_env_scheme \<Rightarrow> string \<Rightarrow> nat list \<Rightarrow> nat \<Rightarrow> ('k, 'z) world_scheme \<Rightarrow> nat \<times> ('k, 'z) world_scheme" where
  "deliver_loop env payload [] delivered w = (delivered, w)"
| "deliver_loop env payload (h # hs) delivered w =
     (if h = nullptr then deliver_loop env payload hs delivered w
      else case deliverFrame env h payload w of
          (ok, w') \<Rightarrow> deliver_loop env payload hs (if ok then Suc delivered else delivered) w')"

definition deliverToUser ::
  "('k, 'e) srv_env_scheme \<Rightarrow> int \<Rightarrow> string \<Rightarrow> ('k, 'z) world_scheme \<Rightarrow> nat \<times> ('k, 'z) world_scheme" where
  "deliverToUser env uid payload w =
     (case sessions w uid of
        None \<Rightarrow> (0, w)
      | Some hs \<Rightarrow> deliver_loop env payload hs 0 w)"

fun disconnect_loop ::
  "('k, 'e) srv_env_scheme \<Rightarrow> nat list \<Rightarrow> ('k, 'z) world_scheme \<Rightarrow> ('k, 'z) world_scheme" where
  "disconnect_loop env [] w = w"
| "disconnect_loop env (h # hs) w =
     disconnect_loop env hs (if h = nullptr then w else disconnectFromAdmin env h w)"

definition disconnectUser ::
  "('k, 'e) srv_env_scheme \<Rightarrow> int \<Rightarrow> ('k, 'z) world_scheme \<Rightarrow> nat \<times> ('k, 'z) world_scheme" where
  "disconnectUser env uid w =
     (case sessions w uid of
        None \<Rightarrow> (0, w)
      | Some hs \<Rightarrow> (length hs, disconnect_loop env hs w))"

subsection \<open>The contract\<close>

definition view :: "('k, 'z) world_scheme \<Rightarrow> int \<Rightarrow> nat list" where
  "view w uid = (case sessions w uid of None \<Rightarrow> [] | Some hs \<Rightarrow> hs)"

locale session_registry =
  fixes view :: "'s \<Rightarrow> int \<Rightarrow> nat list"
    and add remove :: "int \<Rightarrow> nat \<Rightarrow> 's \<Rightarrow> 's"
  assumes view_add: "view (add u h s) = (view s)(u := view s u @ [h])"
    and view_remove: "view (remove u h s) = (view s)(u := removeAll h (view s u))"
begin

text \<open>The registry shows exactly the logins in \<open>auth\<close>: each logged-in handler once, under its user.\<close>

definition shows_logins :: "(nat \<Rightarrow> int option) \<Rightarrow> 's \<Rightarrow> bool" where
  "shows_logins auth s \<longleftrightarrow> (\<forall>u. distinct (view s u) \<and> set (view s u) = {h. auth h = Some u})"

lemma login_shown:
  assumes "shows_logins auth s" "auth h = None"
  shows "shows_logins (auth(h \<mapsto> u)) (add u h s)"
  using assms by (auto simp: shows_logins_def view_add)

lemma logout_shown:
  assumes "shows_logins auth s" "auth h = Some u"
  shows "shows_logins (auth(h := None)) (remove u h s)"
  using assms by (auto simp: shows_logins_def view_remove distinct_removeAll)

lemma relogin_shown:
  assumes "shows_logins auth s" "auth h = Some u"
  shows "shows_logins (auth(h \<mapsto> v)) (add v h (remove u h s))"
  using login_shown [OF logout_shown [OF assms], of h v] by simp

end

interpretation reg: session_registry view addSession removeSession
proof
  show "view (addSession u h w) = (view w)(u := view w u @ [h])" for u h and w :: "('k, 'z) world_scheme"
    by (auto simp: fun_eq_iff view_def addSession_def split: option.splits)
  show "view (removeSession u h w) = (view w)(u := removeAll h (view w u))" for u h and w :: "('k, 'z) world_scheme"
    by (auto simp: fun_eq_iff view_def removeSession_def removeAll_filter_not_eq Let_def eq_commute [of _ h]
          split: option.splits)
qed

text \<open>No user keeps an empty list of sessions, and no session is null.\<close>

definition registry_tight :: "('k, 'z) world_scheme \<Rightarrow> bool" where
  "registry_tight w \<longleftrightarrow> (\<forall>u hs. sessions w u = Some hs \<longrightarrow> hs \<noteq> [] \<and> nullptr \<notin> set hs)"

lemma addSession_tight: "registry_tight w \<Longrightarrow> h \<noteq> nullptr \<Longrightarrow> registry_tight (addSession u h w)"
  by (auto simp: registry_tight_def addSession_def split: option.splits)

lemma removeSession_tight: "registry_tight w \<Longrightarrow> registry_tight (removeSession u h w)"
  by (auto simp: registry_tight_def removeSession_def Let_def split: option.splits if_splits)

lemma registry_frame [simp]:
  "kernel (addSession u h w) = kernel w" "handlers (addSession u h w) = handlers w" "dangling (addSession u h w) = dangling w"
  "store (addSession u h w) = store w" "tables (addSession u h w) = tables w" "world.more (addSession u h w) = world.more w"
  "kernel (removeSession u h w) = kernel w" "handlers (removeSession u h w) = handlers w"
  "dangling (removeSession u h w) = dangling w" "store (removeSession u h w) = store w"
  "tables (removeSession u h w) = tables w" "world.more (removeSession u h w) = world.more w"
  by (auto simp: addSession_def removeSession_def store_def seqs_def Let_def split: option.splits)

subsection \<open>Delivery and disconnection\<close>

lemma deliver_loop_frame:
  assumes "deliver_loop env payload hs d w = (n, w')"
  shows "sessions w' = sessions w" "handlers w' = handlers w" "store w' = store w" "tables w' = tables w"
    "world.more w' = world.more w" "n \<le> d + length hs"
    "dangling w' \<longleftrightarrow> dangling w \<or> (\<exists>h\<in>set hs. h \<noteq> nullptr \<and> handlers w h = None)"
proof -
  have "sessions w' = sessions w \<and> handlers w' = handlers w \<and> store w' = store w \<and> tables w' = tables w
    \<and> world.more w' = world.more w \<and> n \<le> d + length hs
    \<and> (dangling w' \<longleftrightarrow> dangling w \<or> (\<exists>h\<in>set hs. h \<noteq> nullptr \<and> handlers w h = None))"
    using assms
  proof (induction env payload hs d w rule: deliver_loop.induct)
    case (2 env payload h hs d w)
    obtain ok w1 where s: "sendResponse env h payload w = (ok, w1)" by fastforce
    have f: "sessions w1 = sessions w" "handlers w1 = handlers w" "store w1 = store w" "tables w1 = tables w"
      "world.more w1 = world.more w" "dangling w1 \<longleftrightarrow> dangling w \<or> handlers w h = None"
      using sendResponse_frame [of env h payload w] s by simp_all
    show ?case
      using 2 s f by (cases "h = nullptr") (auto simp: deliverFrame_def split: if_splits)
  qed simp
  then show "sessions w' = sessions w" "handlers w' = handlers w" "store w' = store w" "tables w' = tables w"
    "world.more w' = world.more w" "n \<le> d + length hs"
    "dangling w' \<longleftrightarrow> dangling w \<or> (\<exists>h\<in>set hs. h \<noteq> nullptr \<and> handlers w h = None)"
    by simp_all
qed

lemma disconnectFromAdmin_frame [simp]:
  "sessions (disconnectFromAdmin env h w) = sessions w" "store (disconnectFromAdmin env h w) = store w"
  "tables (disconnectFromAdmin env h w) = tables w" "world.more (disconnectFromAdmin env h w) = world.more w"
  "dangling (disconnectFromAdmin env h w) \<longleftrightarrow> dangling w \<or> handlers w h = None"
  "handlers (disconnectFromAdmin env h w) =
     (handlers w)(h := map_option (\<lambda>c. c\<lparr>clientSocket := kInvalidSocket\<rparr>) (handlers w h))"
  by (auto simp: disconnectFromAdmin_def close_client_def upd_handler_def store_def seqs_def fun_eq_iff respond_def
        sendResponse_def split: option.splits prod.splits)

definition after_kick :: "nat set \<Rightarrow> (nat \<Rightarrow> ClientHandler option) \<Rightarrow> nat \<Rightarrow> ClientHandler option" where
  "after_kick H hs h = (if h \<in> H then map_option (\<lambda>c. c\<lparr>clientSocket := kInvalidSocket\<rparr>) (hs h) else hs h)"

lemma disconnect_loop_frame:
  "sessions (disconnect_loop env hs w) = sessions w" "store (disconnect_loop env hs w) = store w"
  "tables (disconnect_loop env hs w) = tables w" "world.more (disconnect_loop env hs w) = world.more w"
  "dangling (disconnect_loop env hs w) \<longleftrightarrow> dangling w \<or> (\<exists>h\<in>set hs. h \<noteq> nullptr \<and> handlers w h = None)"
  "handlers (disconnect_loop env hs w) = after_kick (set hs - {nullptr}) (handlers w)"
  by (induction hs arbitrary: w, auto simp: after_kick_def fun_eq_iff option.map_comp comp_def) fastforce

end
