(* ===== verification/Client_Handler.thy ===== *)
theory Client_Handler
  imports Session_Registry
begin

text \<open>
  The class \<open>ClientHandler\<close> of \<open>server/src/ClientHandler.cpp\<close>: one definition per method, on the object
  at address \<open>h\<close> of the shared state, and the command loop \<open>run\<close>. A \<open>std::istringstream\<close> is the text
  that is still to be read.
\<close>

subsection \<open>Helpers\<close>

fun statusToText :: "DbStatus \<Rightarrow> string" where
  "statusToText DB_Ok = ''OK''"
| "statusToText DB_ValidationError = ''VALIDATION''"
| "statusToText DB_Unauthorized = ''UNAUTHORIZED''"
| "statusToText DB_Forbidden = ''FORBIDDEN''"
| "statusToText DB_NotFound = ''NOT_FOUND''"
| "statusToText DB_Duplicate = ''DUPLICATE''"
| "statusToText DB_Banned = ''BANNED''"
| "statusToText DB_Error = ''DB''"

definition tail :: "string \<Rightarrow> string" where
  "tail iss = (let value = fst (getline iss)
     in if value \<noteq> [] \<and> hd value = CHR '' '' then tl value else value)"

definition parseIntOrDefault :: "string \<Rightarrow> int \<Rightarrow> int" where
  "parseIntOrDefault value fallback =
     (if value = [] then fallback
      else case stoi value of Inr n \<Rightarrow> n | Inl e \<Rightarrow> fallback)"

text \<open>\<open>this\<close>: the fields of the object at \<open>h\<close>. A method only runs on a live object.\<close>

definition this :: "nat \<Rightarrow> ('k, 'z) world_scheme \<Rightarrow> ClientHandler" where
  "this h w = (case handlers w h of Some c \<Rightarrow> c | None \<Rightarrow> mk_ClientHandler kInvalidSocket 0)"

subsection \<open>Sessions\<close>

definition cleanupSession ::
  "('k, 'e) srv_env_scheme \<Rightarrow> nat \<Rightarrow> ('k, 'z) world_scheme \<Rightarrow> ('k, 'z) world_scheme" where
  "cleanupSession env h w =
     (if \<not> authed (this h w) then w
      else
        let w1 = removeSession (userId (this h w)) h w;
            w2 = snd (logoutUser env (userId (this h w1)) w1);
            w3 = logger_info env (''user logged out: '' @ username (this h w2)) w2
        in upd_handler h (\<lambda>c. c\<lparr>authed := False, userId := -1, username := [], role := []\<rparr>) w3)"

definition requireAuth ::
  "('k, 'e) srv_env_scheme \<Rightarrow> nat \<Rightarrow> ('k, 'z) world_scheme \<Rightarrow> bool \<times> ('k, 'z) world_scheme" where
  "requireAuth env h w =
     (if \<not> authed (this h w) then (False, respond env h ''ERROR_NOT_AUTH'' w) else (True, w))"

definition requireModerator ::
  "('k, 'e) srv_env_scheme \<Rightarrow> nat \<Rightarrow> ('k, 'z) world_scheme \<Rightarrow> bool \<times> ('k, 'z) world_scheme" where
  "requireModerator env h w =
     (case requireAuth env h w of
        (False, w1) \<Rightarrow> (False, w1)
      | (True, w1) \<Rightarrow>
          if role (this h w1) \<noteq> ''admin'' \<and> role (this h w1) \<noteq> ''moderator''
          then (False, respond env h ''ERROR_FORBIDDEN moderator role required'' w1)
          else case hasModeratorRights env (userId (this h w1)) w1 of
              (False, w2) \<Rightarrow> (False, respond env h ''ERROR_FORBIDDEN moderator role required'' w2)
            | (True, w2) \<Rightarrow> (True, w2))"

subsection \<open>Commands\<close>

definition handleRegister ::
  "('k, 'e) srv_env_scheme \<Rightarrow> nat \<Rightarrow> string \<Rightarrow> string \<Rightarrow> ('k, 'z) world_scheme \<Rightarrow> bool \<times> ('k, 'z) world_scheme" where
  "handleRegister env h login pass w =
     (case registerUser env login pass w of (result, w1) \<Rightarrow>
        if res_status result = DB_Ok then (True, respond env h ''REGISTER_OK'' w1)
        else (False, respond env h (''REGISTER_ERROR '' @ statusToText (res_status result) @ '' '' @ res_message result) w1))"

definition handleLogin ::
  "('k, 'e) srv_env_scheme \<Rightarrow> nat \<Rightarrow> string \<Rightarrow> string \<Rightarrow> ('k, 'z) world_scheme \<Rightarrow> bool \<times> ('k, 'z) world_scheme" where
  "handleLogin env h login pass w =
     (case loginUser env login pass w of (result, w1) \<Rightarrow>
        if lr_status result \<noteq> DB_Ok
        then (False, respond env h (''LOGIN_ERROR '' @ statusToText (lr_status result) @ '' '' @ lr_message result) w1)
        else
          let w2 = cleanupSession env h w1;
              w3 = upd_handler h (\<lambda>c. c\<lparr>authed := True, userId := lr_userId result,
                     username := lr_login result, role := lr_role result\<rparr>) w2;
              w4 = addSession (userId (this h w3)) h w3
          in (True, respond env h (''LOGIN_OK '' @ role (this h w4)) w4))"

definition handleLogout ::
  "('k, 'e) srv_env_scheme \<Rightarrow> nat \<Rightarrow> ('k, 'z) world_scheme \<Rightarrow> ('k, 'z) world_scheme" where
  "handleLogout env h w =
     (if \<not> authed (this h w) then respond env h ''LOGOUT_OK'' w
      else respond env h ''LOGOUT_OK'' (cleanupSession env h w))"

text \<open>One response per element of a result list.\<close>

fun respond_all ::
  "('k, 'e) srv_env_scheme \<Rightarrow> nat \<Rightarrow> ('a \<Rightarrow> string) \<Rightarrow> 'a list \<Rightarrow> ('k, 'z) world_scheme \<Rightarrow> ('k, 'z) world_scheme" where
  "respond_all env h f [] w = w"
| "respond_all env h f (x # xs) w = respond_all env h f xs (respond env h (f x) w)"

definition handleList ::
  "('k, 'e) srv_env_scheme \<Rightarrow> nat \<Rightarrow> ('k, 'z) world_scheme \<Rightarrow> ('k, 'z) world_scheme" where
  "handleList env h w =
     (case requireAuth env h w of
        (False, w1) \<Rightarrow> w1
      | (True, w1) \<Rightarrow>
          case listUsers env (respond env h ''USERS_BEGIN'' w1) of (users, w2) \<Rightarrow>
            respond env h ''USERS_END''
              (respond_all env h (\<lambda>user. ''USER '' @ us_login user @ '' '' @ us_status user @ '' '' @ us_role user
                 @ '' '' @ us_lastSeen user) users w2))"

definition handleInbox ::
  "('k, 'e) srv_env_scheme \<Rightarrow> nat \<Rightarrow> ('k, 'z) world_scheme \<Rightarrow> ('k, 'z) world_scheme" where
  "handleInbox env h w =
     (case requireAuth env h w of
        (False, w1) \<Rightarrow> w1
      | (True, w1) \<Rightarrow>
          let w2 = respond env h ''INBOX_BEGIN'' w1
          in case getInbox env (userId (this h w2)) 100 w2 of (msgs, w3) \<Rightarrow>
            respond env h ''INBOX_END''
              (respond_all env h (\<lambda>msg. ''INBOX_MSG '' @ mr_sender msg @ '' '' @ mr_createdAt msg @ '' '' @ mr_text msg) msgs w3))"

definition handleMessage ::
  "('k, 'e) srv_env_scheme \<Rightarrow> nat \<Rightarrow> string \<Rightarrow> string \<Rightarrow> ('k, 'z) world_scheme \<Rightarrow> ('k, 'z) world_scheme" where
  "handleMessage env h to text w =
     (case requireAuth env h w of
        (False, w1) \<Rightarrow> w1
      | (True, w1) \<Rightarrow>
          case sendMessage env (userId (this h w1)) to text w1 of (result, w2) \<Rightarrow>
            if res_status result \<noteq> DB_Ok
            then respond env h (''MESSAGE_ERROR '' @ statusToText (res_status result) @ '' '' @ res_message result) w2
            else
              case getUserByLogin env to (respond env h (''MESSAGE_OK '' @ to_string (res_id result)) w2) of
                (None, w3) \<Rightarrow> w3
              | (Some receiver, w3) \<Rightarrow>
                  snd (deliverToUser env (us_id receiver) (''MESSAGE '' @ username (this h w3) @ '' '' @ text) w3))"

definition message_line :: "string \<Rightarrow> MessageRecord \<Rightarrow> string" where
  "message_line tag msg = tag @ '' '' @ mr_sender msg @ '' '' @ mr_receiver msg @ '' '' @ mr_createdAt msg @ '' '' @ mr_text msg"

definition handleHistory ::
  "('k, 'e) srv_env_scheme \<Rightarrow> nat \<Rightarrow> string \<Rightarrow> int \<Rightarrow> int \<Rightarrow> ('k, 'z) world_scheme \<Rightarrow> ('k, 'z) world_scheme" where
  "handleHistory env h target limit offset w =
     (case requireAuth env h w of
        (False, w1) \<Rightarrow> w1
      | (True, w1) \<Rightarrow>
          let w2 = respond env h ''HISTORY_BEGIN'' w1
          in case getHistory env (userId (this h w2)) target limit offset w2 of (msgs, w3) \<Rightarrow>
            respond env h ''HISTORY_END'' (respond_all env h (message_line ''HIST'') msgs w3))"

definition handleAllMessages ::
  "('k, 'e) srv_env_scheme \<Rightarrow> nat \<Rightarrow> int \<Rightarrow> ('k, 'z) world_scheme \<Rightarrow> ('k, 'z) world_scheme" where
  "handleAllMessages env h limit w =
     (case requireModerator env h w of
        (False, w1) \<Rightarrow> w1
      | (True, w1) \<Rightarrow>
          case getAllMessages env limit (respond env h ''ALL_MESSAGES_BEGIN'' w1) of (msgs, w2) \<Rightarrow>
            respond env h ''ALL_MESSAGES_END'' (respond_all env h (message_line ''MSG'') msgs w2))"

definition error_text :: "DbResult \<Rightarrow> string" where
  "error_text result = ''ERROR_'' @ statusToText (res_status result) @ '' '' @ res_message result"

definition handleBan ::
  "('k, 'e) srv_env_scheme \<Rightarrow> nat \<Rightarrow> string \<Rightarrow> ('k, 'z) world_scheme \<Rightarrow> ('k, 'z) world_scheme" where
  "handleBan env h login w =
     (case requireModerator env h w of
        (False, w1) \<Rightarrow> w1
      | (True, w1) \<Rightarrow>
          case banUser env (userId (this h w1)) login w1 of (result, w2) \<Rightarrow>
            if res_status result = DB_Ok
            then respond env h ''OK''
                   (if res_id result \<ge> 0 then snd (disconnectUser env (res_id result) w2) else w2)
            else respond env h (error_text result) w2)"

definition handleUnban ::
  "('k, 'e) srv_env_scheme \<Rightarrow> nat \<Rightarrow> string \<Rightarrow> ('k, 'z) world_scheme \<Rightarrow> ('k, 'z) world_scheme" where
  "handleUnban env h login w =
     (case requireModerator env h w of
        (False, w1) \<Rightarrow> w1
      | (True, w1) \<Rightarrow>
          case unbanUser env (userId (this h w1)) login w1 of (result, w2) \<Rightarrow>
            respond env h (if res_status result = DB_Ok then ''OK'' else error_text result) w2)"

definition handleKick ::
  "('k, 'e) srv_env_scheme \<Rightarrow> nat \<Rightarrow> string \<Rightarrow> ('k, 'z) world_scheme \<Rightarrow> ('k, 'z) world_scheme" where
  "handleKick env h login w =
     (case requireModerator env h w of
        (False, w1) \<Rightarrow> w1
      | (True, w1) \<Rightarrow>
          case kickUser env (userId (this h w1)) login w1 of (result, w2) \<Rightarrow>
            if res_status result \<noteq> DB_Ok then respond env h (error_text result) w2
            else case disconnectUser env (res_id result) w2 of (kicked, w3) \<Rightarrow>
              respond env h (if kicked > 0 then ''OK'' else ''ERROR_NOT_FOUND active session not found'') w3)"

subsection \<open>The command loop\<close>

text \<open>The body of the loop once a frame has been read.\<close>

definition dispatch ::
  "('k, 'e) srv_env_scheme \<Rightarrow> nat \<Rightarrow> string \<Rightarrow> ('k, 'z) world_scheme \<Rightarrow> ('k, 'z) world_scheme" where
  "dispatch env h frame w =
     (case extract_word frame of (cmd, iss) \<Rightarrow>
        if cmd = ''REGISTER'' then
          (case extract_word iss of (login, iss1) \<Rightarrow> case extract_word iss1 of (pass, iss2) \<Rightarrow>
             snd (handleRegister env h login pass w))
        else if cmd = ''LOGIN'' then
          (case extract_word iss of (login, iss1) \<Rightarrow> case extract_word iss1 of (pass, iss2) \<Rightarrow>
             snd (handleLogin env h login pass w))
        else if cmd = ''LOGOUT'' then handleLogout env h w
        else if cmd = ''LIST'' then handleList env h w
        else if cmd = ''INBOX'' then handleInbox env h w
        else if cmd = ''MESSAGE'' then
          (case extract_word iss of (to, iss1) \<Rightarrow> handleMessage env h to (tail iss1) w)
        else if cmd = ''HISTORY'' then
          (case extract_word iss of (target, iss1) \<Rightarrow> case extract_word iss1 of (limitText, iss2) \<Rightarrow>
           case extract_word iss2 of (offsetText, iss3) \<Rightarrow>
             handleHistory env h target (parseIntOrDefault limitText 50) (parseIntOrDefault offsetText 0) w)
        else if cmd = ''ALL_MESSAGES'' then
          (case extract_word iss of (limitText, iss1) \<Rightarrow> handleAllMessages env h (parseIntOrDefault limitText 100) w)
        else if cmd = ''BAN'' then (case extract_word iss of (login, iss1) \<Rightarrow> handleBan env h login w)
        else if cmd = ''UNBAN'' then (case extract_word iss of (login, iss1) \<Rightarrow> handleUnban env h login w)
        else if cmd = ''KICK'' then (case extract_word iss of (login, iss1) \<Rightarrow> handleKick env h login w)
        else respond env h ''UNKNOWN_CMD'' w)"

text \<open>One iteration: the result says whether the loop goes on.\<close>

definition run_step ::
  "('k, 'e) srv_env_scheme \<Rightarrow> nat \<Rightarrow> ('k, 'z) world_scheme \<Rightarrow> bool \<times> ('k, 'z) world_scheme" where
  "run_step env h w =
     (case receiveFrame_native (os env) (clientSocket (this h w)) (kernel w) (ch_maxFrameSize (this h w)) of
        (status, frame, k) \<Rightarrow>
          let w1 = w\<lparr>kernel := k\<rparr>
          in if status = RF_Closed then (False, w1)
             else if status = RF_TooLarge then (False, respond env h ''ERROR_FRAME_TOO_LARGE'' w1)
             else if status \<noteq> RF_Ok then (False, logger_warn env ''client frame read failed'' w1)
             else (True, dispatch env h frame w1))"

text \<open>\<open>run\<close> on at most \<open>fuel\<close> iterations; \<open>None\<close> when the loop has not ended by then.\<close>

fun run_loop ::
  "('k, 'e) srv_env_scheme \<Rightarrow> nat \<Rightarrow> nat \<Rightarrow> ('k, 'z) world_scheme \<Rightarrow> ('k, 'z) world_scheme option" where
  "run_loop env h 0 w = None"
| "run_loop env h (Suc fuel) w =
     (case run_step env h w of
        (False, w') \<Rightarrow> Some w'
      | (True, w') \<Rightarrow> run_loop env h fuel w')"

definition run_end ::
  "('k, 'e) srv_env_scheme \<Rightarrow> nat \<Rightarrow> ('k, 'z) world_scheme \<Rightarrow> ('k, 'z) world_scheme" where
  "run_end env h w = logger_info env ''client disconnected'' (cleanupSession env h w)"

definition run ::
  "('k, 'e) srv_env_scheme \<Rightarrow> nat \<Rightarrow> nat \<Rightarrow> ('k, 'z) world_scheme \<Rightarrow> ('k, 'z) world_scheme option" where
  "run env h fuel w = map_option (run_end env h) (run_loop env h fuel (logger_info env ''client connected'' w))"

text \<open>The destructor ends with the object's storage being freed.\<close>

definition destroy_ClientHandler ::
  "('k, 'e) srv_env_scheme \<Rightarrow> nat \<Rightarrow> ('k, 'z) world_scheme \<Rightarrow> ('k, 'z) world_scheme" where
  "destroy_ClientHandler env h w =
     (let w' = close_client env h (cleanupSession env h w)
      in w'\<lparr>handlers := (handlers w')(h := None)\<rparr>)"

end
