(* ===== verification/Handler_Laws.thy ===== *)
theory Handler_Laws
  imports Client_Handler
begin

text \<open>
  What the commands of a client leave alone, and what they keep. \<open>store_invariant\<close> lifts an invariant
  of the database to the command loop; \<open>logins_ok\<close> says that the session registry is an exact picture
  of which live handler is logged in as whom, so that it never holds an address that dangles.
\<close>

subsection \<open>Database calls do not touch the rest of the state\<close>

lemma effect_more:
  "same_rows s s' \<Longrightarrow> db_state.more s' = db_state.more s" "becomes t q ok s s' \<Longrightarrow> db_state.more s' = db_state.more s"
  by (simp_all add: same_rows_def becomes_def)

lemma db_exec_more: "db_state.more (db_exec env c s) = db_state.more s"
proof (cases "reads_only c")
  case True
  then show ?thesis using effect_more(1) reads_only_same by blast
next
  case False
  note effect_more [dest]
  show ?thesis
  proof (cases c)
    case (Register l p)
    then show ?thesis using registerUser_effect [OF prod.collapse [symmetric], of env l p s] by auto
  next
    case (Login l p)
    then show ?thesis using loginUser_effect [OF prod.collapse [symmetric], of env l p s] by auto
  next
    case (Logout i)
    then show ?thesis using logoutUser_effect [OF prod.collapse [symmetric], of env i s] by auto
  next
    case (Offline l)
    then show ?thesis using markUserOffline_effect [OF prod.collapse [symmetric], of env l s] by auto
  next
    case (Send i l m)
    then show ?thesis using sendMessage_effect [OF prod.collapse [symmetric], of env i l m s] by auto
  next
    case (Ban a l)
    then show ?thesis using banUser_effect [OF prod.collapse [symmetric], of env a l s] by auto
  next
    case (Unban a l)
    then show ?thesis using unbanUser_effect [OF prod.collapse [symmetric], of env a l s] by auto
  next
    case (Kick a l)
    then show ?thesis using kickUser_effect [OF prod.collapse [symmetric], of env a l s] by auto
  qed (use False in simp_all)
qed

lemma db_more:
  "db_state.more (snd (registerUser env l p s)) = db_state.more s"
  "db_state.more (snd (loginUser env l p s)) = db_state.more s"
  "db_state.more (snd (logoutUser env i s)) = db_state.more s"
  "db_state.more (snd (sendMessage env i l x s)) = db_state.more s"
  "db_state.more (snd (getInbox env i n s)) = db_state.more s"
  "db_state.more (snd (getHistory env i l n k s)) = db_state.more s"
  "db_state.more (snd (getAllMessages env n s)) = db_state.more s"
  "db_state.more (snd (listUsers env s)) = db_state.more s"
  "db_state.more (snd (getUserByLogin env l s)) = db_state.more s"
  "db_state.more (snd (hasModeratorRights env i s)) = db_state.more s"
  "db_state.more (snd (ping env s)) = db_state.more s"
  "db_state.more (snd (banUser env i l s)) = db_state.more s"
  "db_state.more (snd (unbanUser env i l s)) = db_state.more s"
  "db_state.more (snd (kickUser env i l s)) = db_state.more s"
  by (simp_all flip: db_exec.simps add: db_exec_more)

lemmas db_kernel [simp] = db_more [THEN more_frame(1)]
lemmas db_sessions [simp] = db_more [THEN more_frame(2)]
lemmas db_handlers [simp] = db_more [THEN more_frame(3)]
lemmas db_dangling [simp] = db_more [THEN more_frame(4)]
lemmas db_world_more [simp] = db_more [THEN more_frame(5)]

lemma upd_handler_simps [simp]:
  "handlers (upd_handler h f w) = (handlers w)(h := map_option f (handlers w h))"
  "sessions (upd_handler h f w) = sessions w" "kernel (upd_handler h f w) = kernel w"
  "dangling (upd_handler h f w) \<longleftrightarrow> dangling w \<or> handlers w h = None" "store (upd_handler h f w) = store w"
  "tables (upd_handler h f w) = tables w" "world.more (upd_handler h f w) = world.more w"
  by (auto simp: upd_handler_def store_def seqs_def fun_eq_iff split: option.splits)

lemma store_log [simp]: "store (logger_log env l m w) = store w"
  by (simp add: store_def)

lemma store_kernel [simp]: "store (w\<lparr>kernel := k\<rparr>) = store w" "store (w\<lparr>handlers := H\<rparr>) = store w"
  by (simp_all add: store_def seqs_def)

lemma this_simps:
  "handlers w' = handlers w \<Longrightarrow> this h w' = this h w"
  by (simp add: this_def)

lemma this_upd [simp]:
  "handlers w h = Some c \<Longrightarrow> this h w = c" "handlers w h = None \<Longrightarrow> authed (this h w) = False"
  by (simp_all add: this_def mk_ClientHandler_def)

lemma respond_all_frame [simp]:
  "sessions (respond_all env h f xs w) = sessions w" "handlers (respond_all env h f xs w) = handlers w"
  "store (respond_all env h f xs w) = store w" "tables (respond_all env h f xs w) = tables w"
  "world.more (respond_all env h f xs w) = world.more w"
  "dangling (respond_all env h f xs w) \<longleftrightarrow> dangling w \<or> xs \<noteq> [] \<and> handlers w h = None"
  by (induction xs arbitrary: w) auto

lemma deliverToUser_frame [simp]:
  "sessions (snd (deliverToUser env u p w)) = sessions w" "handlers (snd (deliverToUser env u p w)) = handlers w"
  "store (snd (deliverToUser env u p w)) = store w" "tables (snd (deliverToUser env u p w)) = tables w"
  "world.more (snd (deliverToUser env u p w)) = world.more w"
  "dangling (snd (deliverToUser env u p w)) \<longleftrightarrow> dangling w \<or> (\<exists>h\<in>set (view w u). h \<noteq> nullptr \<and> handlers w h = None)"
  using deliver_loop_frame [OF prod.collapse [symmetric], of env p "view w u" 0 w]
  by (auto simp: deliverToUser_def view_def split: option.splits)

lemma disconnectUser_frame [simp]:
  "sessions (snd (disconnectUser env u w)) = sessions w" "store (snd (disconnectUser env u w)) = store w"
  "handlers (snd (disconnectUser env u w)) = after_kick (set (view w u) - {nullptr}) (handlers w)"
  "tables (snd (disconnectUser env u w)) = tables w" "world.more (snd (disconnectUser env u w)) = world.more w"
  "dangling (snd (disconnectUser env u w)) \<longleftrightarrow> dangling w \<or> (\<exists>h\<in>set (view w u). h \<noteq> nullptr \<and> handlers w h = None)"
  "fst (disconnectUser env u w) = length (view w u)"
  by (auto simp: disconnectUser_def view_def disconnect_loop_frame after_kick_def fun_eq_iff split: option.splits)

lemma close_client_frame [simp]:
  "sessions (close_client env h w) = sessions w" "store (close_client env h w) = store w"
  "tables (close_client env h w) = tables w" "world.more (close_client env h w) = world.more w"
  "handlers (close_client env h w) = (handlers w)(h := map_option (\<lambda>c. c\<lparr>clientSocket := kInvalidSocket\<rparr>) (handlers w h))"
  "dangling (close_client env h w) \<longleftrightarrow> dangling w \<or> handlers w h = None"
  by (auto simp: close_client_def fun_eq_iff store_def seqs_def upd_handler_def split: option.splits)

subsection \<open>Properties closed under the handlers' primitives\<close>

text \<open>A property that survives every permitted database call, every response, log line, registry operation
  and login-field assignment survives every command.\<close>

locale command_closed =
  fixes env :: "('k, 'e) srv_env_scheme"
    and Q :: "('k, 'z) world_scheme \<Rightarrow> bool"
    and allowed :: "db_call \<Rightarrow> bool"
  assumes Q_call: "Q w \<Longrightarrow> allowed c \<Longrightarrow> Q (db_exec env c w)"
    and most_allowed: "(\<And>a l. c \<noteq> Unban a l) \<Longrightarrow> allowed c"
    and Q_respond: "Q w \<Longrightarrow> Q (respond env h p w)"
    and Q_log: "Q w \<Longrightarrow> Q (logger_log env lv m w)"
    and Q_add: "Q w \<Longrightarrow> Q (addSession u h w)"
    and Q_remove: "Q w \<Longrightarrow> Q (removeSession u h w)"
    and Q_upd: "Q w \<Longrightarrow> Q (upd_handler h (\<lambda>c. c\<lparr>authed := a, userId := i, username := n, role := r\<rparr>) w)"
    and Q_deliver: "Q w \<Longrightarrow> Q (snd (deliverToUser env u p w))"
    and Q_disconnect: "Q w \<Longrightarrow> Q (snd (disconnectUser env u w))"
begin

lemma Q_calls:
  assumes "Q w"
  shows "Q (snd (registerUser env l p w))" "Q (snd (loginUser env l p w))" "Q (snd (logoutUser env i w))"
    "Q (snd (sendMessage env i l x w))" "Q (snd (getInbox env i n w))" "Q (snd (getHistory env i l n k w))"
    "Q (snd (getAllMessages env n w))" "Q (snd (listUsers env w))" "Q (snd (getUserByLogin env l w))"
    "Q (snd (hasModeratorRights env i w))" "Q (snd (banUser env i l w))" "Q (snd (kickUser env i l w))"
    "Q (snd (ping env w))"
  by (simp_all flip: db_exec.simps add: Q_call most_allowed assms)

lemma Q_respond_all: "Q w \<Longrightarrow> Q (respond_all env h g xs w)"
  by (induction xs arbitrary: w) (simp_all add: Q_respond)

lemmas Q_rest = Q_respond Q_log Q_add Q_remove Q_upd Q_deliver Q_disconnect Q_respond_all

lemma Q_cleanup: "Q w \<Longrightarrow> Q (cleanupSession env h w)"
  by (simp add: cleanupSession_def Let_def Q_calls Q_rest)

lemma Q_requireAuth: "Q w \<Longrightarrow> Q (snd (requireAuth env h w))"
  by (simp add: requireAuth_def Q_rest)

lemma Q_requireModerator: "Q w \<Longrightarrow> Q (snd (requireModerator env h w))"
  using Q_requireAuth [of w h]
  by (auto simp: requireModerator_def case_prod_unfold Q_rest Q_calls split: bool.splits)

lemma Q_handlers:
  assumes "Q w"
  shows "Q (snd (handleRegister env h l p w))" "Q (snd (handleLogin env h l p w))" "Q (handleLogout env h w)"
    "Q (handleList env h w)" "Q (handleInbox env h w)" "Q (handleMessage env h l x w)"
    "Q (handleHistory env h l n k w)" "Q (handleAllMessages env h n w)" "Q (handleBan env h l w)" "Q (handleKick env h l w)"
  using Q_requireAuth [OF assms, of h] Q_requireModerator [OF assms, of h] assms
  by (auto simp: handleRegister_def handleLogin_def handleLogout_def handleList_def handleInbox_def handleMessage_def
        handleHistory_def handleAllMessages_def handleBan_def handleKick_def case_prod_unfold Let_def Q_rest Q_calls Q_cleanup
        split: bool.splits option.splits)

lemma Q_unban:
  assumes "Q w" "\<And>a. allowed (Unban a l)"
  shows "Q (handleUnban env h l w)"
  using Q_requireModerator [OF assms(1), of h] Q_call [OF _ assms(2)]
  by (auto simp: handleUnban_def case_prod_unfold Q_rest split: bool.splits)

text \<open>The login an \<open>UNBAN\<close> frame names.\<close>

definition frame_allowed :: "string \<Rightarrow> bool" where
  "frame_allowed frame \<longleftrightarrow> (fst (extract_word frame) = ''UNBAN'' \<longrightarrow>
     (\<forall>a. allowed (Unban a (fst (extract_word (snd (extract_word frame)))))))"

lemma Q_dispatch:
  assumes "Q w" "frame_allowed frame"
  shows "Q (dispatch env h frame w)"
  unfolding dispatch_def case_prod_unfold
  using assms Q_unban [OF assms(1)] by (simp add: Q_handlers Q_rest frame_allowed_def)

end

subsection \<open>Invariants of the store\<close>

text \<open>A property of the tables that every permitted database call keeps is kept by every command.\<close>

locale store_invariant =
  fixes env :: "('k, 'e) srv_env_scheme"
    and Q :: "('k, 'z) world_scheme \<Rightarrow> bool"
    and allowed :: "db_call \<Rightarrow> bool"
  assumes Q_store: "Q w \<Longrightarrow> store w' = store w \<Longrightarrow> Q w'"
    and Q_call_kept: "Q w \<Longrightarrow> allowed c \<Longrightarrow> Q (db_exec env c w)"
    and allows_most: "(\<And>a l. c \<noteq> Unban a l) \<Longrightarrow> allowed c"

sublocale store_invariant \<subseteq> command_closed env Q allowed
proof
  show "Q (db_exec env c w)" if "Q w" "allowed c" for w c using that by (rule Q_call_kept)
  show "allowed c" if "\<And>a l. c \<noteq> Unban a l" for c using that by (rule allows_most)
qed (erule Q_store; simp)+

context store_invariant
begin

lemma Q_other:
  assumes "Q w"
  shows "Q (close_client env h w)" "Q (w\<lparr>kernel := k\<rparr>)" "Q (w\<lparr>handlers := H\<rparr>)"
  by (rule Q_store [OF assms]; simp)+

lemma Q_run_step:
  assumes "Q w" "\<And>fr k. receiveFrame_native (os env) (clientSocket (this h w)) (kernel w) (ch_maxFrameSize (this h w)) = (RF_Ok, fr, k)
    \<Longrightarrow> frame_allowed fr"
  shows "Q (snd (run_step env h w))"
  using assms by (auto simp: run_step_def Let_def Q_rest Q_other Q_dispatch split: prod.splits)

lemma Q_end: "Q w \<Longrightarrow> Q (run_end env h w)"
  by (simp add: run_end_def Q_rest Q_other Q_cleanup)

lemma Q_destroy: "Q w \<Longrightarrow> Q (destroy_ClientHandler env h w)"
  by (simp add: destroy_ClientHandler_def Let_def Q_rest Q_other Q_cleanup)

end

lemma store_eqD: "store w' = store w \<Longrightarrow> tables w' = tables w \<and> seqs w' = seqs w"
  by (simp add: store_def)

interpretation schema_srv: store_invariant env "\<lambda>w. db_wf (seqs w) (tables w)" "\<lambda>c. True"
  for env :: "('k, 'e) srv_env_scheme"
  using schema.db_exec_holds
  by unfold_locales (auto dest!: store_eqD simp: schema.holds_def schema.permitted_iff simp del: db_wf.simps)

interpretation grow_srv: store_invariant env "\<lambda>w. extends t0 (tables w)" "\<lambda>c. True"
  for env :: "('k, 'e) srv_env_scheme" and t0
  using grow.db_exec_holds
  by unfold_locales (auto dest!: store_eqD simp: grow.holds_def grow.permitted_iff)

interpretation ban_srv: store_invariant env "\<lambda>w. banned_wf l (seqs w) (tables w)" "\<lambda>c. \<forall>a. c \<noteq> Unban a l"
  for env :: "('k, 'e) srv_env_scheme" and l
proof
  fix w :: "('k, 'z) world_scheme" and c
  assume "banned_wf l (seqs w) (tables w)" "\<forall>a. c \<noteq> Unban a l"
  then show "banned_wf l (seqs (db_exec env c w)) (tables (db_exec env c w))"
    using ban.db_exec_holds [of l w c env] by (auto simp: ban.holds_def ban.permitted_iff)
qed (auto dest!: store_eqD)

subsection \<open>Who is logged in\<close>

definition auth_of :: "(nat \<Rightarrow> ClientHandler option) \<Rightarrow> nat \<Rightarrow> int option" where
  "auth_of hs h = (case hs h of Some c \<Rightarrow> if authed c then Some (userId c) else None | None \<Rightarrow> None)"

definition logins_ok :: "('k, 'z) world_scheme \<Rightarrow> bool" where
  "logins_ok w \<longleftrightarrow> reg.shows_logins (auth_of (handlers w)) w \<and> registry_tight w \<and> \<not> dangling w
     \<and> handlers w nullptr = None"

lemma shows_cong: "sessions w' = sessions w \<Longrightarrow> reg.shows_logins auth w' = reg.shows_logins auth w"
  by (simp add: reg.shows_logins_def view_def)

lemma tight_cong: "sessions w' = sessions w \<Longrightarrow> registry_tight w' = registry_tight w"
  by (simp add: registry_tight_def)

text \<open>Every address in the registry is that of a live handler.\<close>

lemma logins_live: "logins_ok w \<Longrightarrow> h \<in> set (view w u) \<Longrightarrow> \<exists>c. handlers w h = Some c \<and> authed c \<and> userId c = u"
  by (force simp: logins_ok_def reg.shows_logins_def auth_of_def split: option.splits if_splits)

lemma logins_ok_same:
  assumes "logins_ok w" "sessions w' = sessions w" "auth_of (handlers w') = auth_of (handlers w)" "\<not> dangling w'"
    "handlers w' nullptr = None"
  shows "logins_ok w'"
  using assms by (simp add: logins_ok_def shows_cong [OF assms(2)] tight_cong [OF assms(2)])

lemma auth_of_after_kick [simp]: "auth_of (after_kick H hs) = auth_of hs"
  by (auto simp: auth_of_def after_kick_def fun_eq_iff split: option.splits)

lemma auth_of_upd: "auth_of (hs(h := map_option f (hs h))) = (auth_of hs)(h := auth_of (hs(h := map_option f (hs h))) h)"
  by (auto simp: auth_of_def fun_eq_iff)

lemma logins_ok_frame:
  assumes "logins_ok w" "sessions w' = sessions w" "handlers w' = handlers w" "dangling w' = dangling w"
  shows "logins_ok w'"
  using assms by (intro logins_ok_same [OF assms(1,2)]) (auto simp: logins_ok_def)

lemma logins_ok_db:
  assumes "logins_ok w"
  shows "logins_ok (db_exec env c w)"
  using more_frame [OF db_exec_more, of env c w] by (intro logins_ok_frame [OF assms])

lemma logins_ok_calls:
  assumes "logins_ok w"
  shows "logins_ok (snd (registerUser env l p w))" "logins_ok (snd (loginUser env l p w))" "logins_ok (snd (logoutUser env i w))"
    "logins_ok (snd (sendMessage env i l x w))" "logins_ok (snd (getInbox env i n w))" "logins_ok (snd (getHistory env i l n k w))"
    "logins_ok (snd (getAllMessages env n w))" "logins_ok (snd (listUsers env w))" "logins_ok (snd (getUserByLogin env l w))"
    "logins_ok (snd (hasModeratorRights env i w))" "logins_ok (snd (banUser env i l w))" "logins_ok (snd (kickUser env i l w))"
    "logins_ok (snd (unbanUser env i l w))" "logins_ok (snd (ping env w))"
  by (simp_all flip: db_exec.simps add: logins_ok_db assms)

lemma logins_ok_rest:
  assumes "logins_ok w" "handlers w h \<noteq> None"
  shows "logins_ok (respond env h p w)" "logins_ok (respond_all env h g xs w)"
  using assms by (auto intro!: logins_ok_frame [OF assms(1)])

lemma logins_ok_log: "logins_ok w \<Longrightarrow> logins_ok (logger_log env lv m w)"
  by (auto intro: logins_ok_frame)

lemma logins_ok_kernel: "logins_ok w \<Longrightarrow> logins_ok (w\<lparr>kernel := k\<rparr>)"
  by (auto intro: logins_ok_frame)

lemma logins_ok_deliver: "logins_ok w \<Longrightarrow> logins_ok (snd (deliverToUser env u p w))"
  by (rule logins_ok_frame [of w]) (force dest: logins_live)+

lemma logins_ok_disconnect:
  assumes ok: "logins_ok w"
  shows "logins_ok (snd (disconnectUser env u w))"
proof (rule logins_ok_same [OF ok])
  show "\<not> dangling (snd (disconnectUser env u w))"
    using ok logins_live [OF ok, of _ u] by (force simp: logins_ok_def)
  show "handlers (snd (disconnectUser env u w)) nullptr = None"
    using ok by (simp add: after_kick_def logins_ok_def)
qed simp_all

definition logged_out :: "ClientHandler \<Rightarrow> ClientHandler" where
  "logged_out c = (if authed c then c\<lparr>authed := False, userId := -1, username := [], role := []\<rparr> else c)"

lemma cleanup_frame:
  assumes "handlers w h = Some c"
  shows "handlers (cleanupSession env h w) = (handlers w)(h \<mapsto> logged_out c)"
    "sessions (cleanupSession env h w) = (if authed c then sessions (removeSession (userId c) h w) else sessions w)"
    "dangling (cleanupSession env h w) = dangling w" "kernel (cleanupSession env h w) = kernel w"
    "world.more (cleanupSession env h w) = world.more w"
  using assms by (auto simp: cleanupSession_def Let_def logged_out_def fun_eq_iff this_def)

lemma cleanup_ok:
  assumes "logins_ok w" "handlers w h = Some c"
  shows "logins_ok (cleanupSession env h w)" "auth_of (handlers (cleanupSession env h w)) h = None"
proof -
  note f = cleanup_frame [OF assms(2), of env]
  show out: "auth_of (handlers (cleanupSession env h w)) h = None"
    by (simp add: f auth_of_def logged_out_def)
  show "logins_ok (cleanupSession env h w)"
  proof (cases "authed c")
    case True
    have "reg.shows_logins ((auth_of (handlers w))(h := None)) (removeSession (userId c) h w)"
      using assms True by (intro reg.logout_shown) (auto simp: logins_ok_def auth_of_def)
    moreover have "auth_of (handlers (cleanupSession env h w)) = (auth_of (handlers w))(h := None)"
      by (auto simp: fun_eq_iff f auth_of_def logged_out_def)
    ultimately show ?thesis
      using assms removeSession_tight [of w "userId c" h] True f
      by (auto simp: logins_ok_def shows_cong [of "cleanupSession env h w" "removeSession (userId c) h w"]
            tight_cong [of "cleanupSession env h w" "removeSession (userId c) h w"])
  next
    case False
    with assms f show ?thesis
      by (intro logins_ok_frame [OF assms(1)]) (auto simp: logged_out_def)
  qed
qed

lemma login_ok:
  assumes "logins_ok w" "handlers w h = Some c" "auth_of (handlers w) h = None"
  shows "logins_ok (addSession u h (upd_handler h (\<lambda>c. c\<lparr>authed := True, userId := u, username := n, role := r\<rparr>) w))"
    (is "logins_ok (addSession u h ?w)")
proof -
  have "reg.shows_logins ((auth_of (handlers w))(h \<mapsto> u)) (addSession u h w)"
    using assms by (intro reg.login_shown) (auto simp: logins_ok_def)
  moreover have "auth_of (handlers ?w) = (auth_of (handlers w))(h \<mapsto> u)"
    using assms(2) by (auto simp: auth_of_def fun_eq_iff)
  moreover have "sessions (addSession u h ?w) = sessions (addSession u h w)" by (simp add: addSession_def)
  moreover have "h \<noteq> nullptr" using assms by (auto simp: logins_ok_def)
  ultimately show ?thesis
    using assms addSession_tight [of w h u]
    by (auto simp: logins_ok_def shows_cong [of "addSession u h ?w" "addSession u h w"]
          tight_cong [of "addSession u h ?w" "addSession u h w"])
qed

lemma live_after:
  "handlers (snd (requireAuth env h w)) = handlers w" "handlers (snd (requireModerator env h w)) = handlers w"
  by (auto simp: requireAuth_def requireModerator_def case_prod_unfold split: bool.splits)

lemma logins_ok_require:
  assumes "logins_ok w" "handlers w h \<noteq> None"
  shows "logins_ok (snd (requireAuth env h w))" "logins_ok (snd (requireModerator env h w))"
  using assms by (auto simp: requireAuth_def requireModerator_def case_prod_unfold logins_ok_rest logins_ok_calls split: bool.splits)

lemma handleLogin_ok:
  assumes "logins_ok w" "handlers w h = Some c"
  shows "logins_ok (snd (handleLogin env h l p w))"
proof -
  obtain r w1 where r: "loginUser env l p w = (r, w1)" by fastforce
  have w1: "logins_ok w1" "handlers w1 h = Some c"
    using logins_ok_calls(2) [OF assms(1), of env l p] db_handlers(2) [of env l p w] assms(2) r by simp_all
  let ?w2 = "cleanupSession env h w1"
  have w2: "handlers ?w2 h = Some (logged_out c)" using cleanup_frame [OF w1(2), of env] by simp
  note in_ok = login_ok [OF cleanup_ok(1) [OF w1, of env] w2 cleanup_ok(2) [OF w1, of env]]
  show ?thesis
    using r w1 w2 in_ok
    by (auto simp: handleLogin_def Let_def this_def logins_ok_rest)
qed

lemma logins_ok_handlers:
  assumes "logins_ok w" "handlers w h = Some c"
  shows "logins_ok (snd (handleRegister env h l p w))" "logins_ok (handleLogout env h w)"
    "logins_ok (handleList env h w)" "logins_ok (handleInbox env h w)" "logins_ok (handleMessage env h l x w)"
    "logins_ok (handleHistory env h l n k w)" "logins_ok (handleAllMessages env h n w)"
    "logins_ok (handleUnban env h l w)"
  using logins_ok_require [of w h env] assms cleanup_ok(1) [OF assms, of env] cleanup_frame(1) [OF assms(2), of env]
  by (auto simp: handleRegister_def handleLogout_def handleList_def handleInbox_def handleMessage_def handleUnban_def
        handleHistory_def handleAllMessages_def case_prod_unfold Let_def logins_ok_rest logins_ok_calls live_after
        logins_ok_deliver split: bool.splits option.splits)

lemma after_kick_live [simp]: "after_kick H hs h = None \<longleftrightarrow> hs h = None" "(\<exists>c. after_kick H hs h = Some c) \<longleftrightarrow> (\<exists>c. hs h = Some c)"
  by (auto simp: after_kick_def)

lemma logins_ok_moderation:
  assumes "logins_ok w" "handlers w h = Some c"
  shows "logins_ok (handleBan env h l w)" "logins_ok (handleKick env h l w)"
proof -
  note req = logins_ok_require(2) [OF assms(1), of h env] live_after(2) [of env h w]
  let ?w = "snd (requireModerator env h w)"
  have w: "logins_ok ?w" "handlers ?w h = Some c" using req assms by simp_all
  have "logins_ok (snd (banUser env i l ?w))" "handlers (snd (banUser env i l ?w)) h = Some c"
    "logins_ok (snd (kickUser env i l ?w))" "handlers (snd (kickUser env i l ?w)) h = Some c" for i
    using w by (simp_all add: logins_ok_calls)
  with w show "logins_ok (handleBan env h l w)" "logins_ok (handleKick env h l w)"
    by (auto simp: handleBan_def handleKick_def case_prod_unfold intro!: logins_ok_disconnect logins_ok_rest split: bool.splits)
qed

lemma logins_ok_dispatch:
  assumes "logins_ok w" "handlers w h = Some c"
  shows "logins_ok (dispatch env h frame w)"
  unfolding dispatch_def case_prod_unfold
  using logins_ok_handlers [OF assms, of env] logins_ok_moderation [OF assms, of env] handleLogin_ok [OF assms, of env] assms
  by (simp add: logins_ok_rest)

lemma logins_ok_run_step:
  assumes "logins_ok w" "handlers w h = Some c"
  shows "logins_ok (snd (run_step env h w))"
proof -
  have "logins_ok (w\<lparr>kernel := k\<rparr>)" "handlers (w\<lparr>kernel := k\<rparr>) h = Some c" for k
    using assms by (simp_all add: logins_ok_kernel)
  then show ?thesis
    by (auto simp: run_step_def Let_def logins_ok_log logins_ok_rest intro!: logins_ok_dispatch split: prod.splits)
qed

text \<open>Commands create and destroy no handler.\<close>

lemma cleanup_dom: "dom (handlers (cleanupSession env h w)) = dom (handlers w)"
  by (auto simp: cleanupSession_def Let_def)

lemma after_kick_dom [simp]: "dom (after_kick H hs) = dom hs"
  by (auto simp: dom_def)

lemma requireAuth_frame:
  "requireAuth env h w = (b, w') \<Longrightarrow> handlers w' = handlers w" "requireModerator env h w = (b, w') \<Longrightarrow> handlers w' = handlers w"
  using live_after [of env h w] by auto

lemma dispatch_dom: "dom (handlers (dispatch env h frame w)) = dom (handlers w)"
proof -
  have "dom (handlers (snd (handleLogin env h l p w))) = dom (handlers w)" for l p
    using cleanup_dom [of env h "snd (loginUser env l p w)"]
    by (auto simp: handleLogin_def case_prod_unfold Let_def)
  moreover have "dom (handlers (handleLogout env h w)) = dom (handlers w)"
    using cleanup_dom [of env h w] by (simp add: handleLogout_def)
  moreover have "dom (handlers (handleBan env h l w)) = dom (handlers w)" "dom (handlers (handleKick env h l w)) = dom (handlers w)" for l
    by (auto simp: handleBan_def handleKick_def case_prod_unfold live_after split: bool.splits)
  moreover have "handlers (snd (handleRegister env h l p w)) = handlers w" "handlers (handleList env h w) = handlers w"
    "handlers (handleInbox env h w) = handlers w" "handlers (handleMessage env h l x w) = handlers w"
    "handlers (handleHistory env h l n k w) = handlers w" "handlers (handleAllMessages env h n w) = handlers w"
    "handlers (handleUnban env h l w) = handlers w" for l p x n k
    by (auto simp: handleRegister_def handleList_def handleInbox_def handleMessage_def handleHistory_def Let_def
          handleAllMessages_def handleUnban_def case_prod_unfold live_after split: bool.splits option.splits)
  ultimately show ?thesis
    unfolding dispatch_def case_prod_unfold by simp
qed

lemma run_step_dom: "dom (handlers (snd (run_step env h w))) = dom (handlers w)"
  by (auto simp: run_step_def Let_def dispatch_dom split: prod.splits)

lemma logins_ok_end:
  assumes "logins_ok w" "handlers w h = Some c"
  shows "logins_ok (run_end env h w)" "dom (handlers (run_end env h w)) = dom (handlers w)"
  using cleanup_ok(1) [OF assms, of env] cleanup_dom [of env h w] by (simp_all add: run_end_def logins_ok_log)

lemma logins_ok_destroy:
  assumes "logins_ok w" "handlers w h = Some c"
  shows "logins_ok (destroy_ClientHandler env h w)"
    "handlers (destroy_ClientHandler env h w) = (handlers w)(h := None)"
proof -
  let ?w = "cleanupSession env h w"
  let ?d = "destroy_ClientHandler env h w"
  show d: "handlers ?d = (handlers w)(h := None)"
    using cleanup_frame(1) [OF assms(2), of env] by (auto simp: destroy_ClientHandler_def Let_def)
  show "logins_ok ?d"
  proof (rule logins_ok_same [OF cleanup_ok(1) [OF assms, of env]])
    show "sessions ?d = sessions ?w" "handlers ?d nullptr = None"
      using d assms by (auto simp: destroy_ClientHandler_def Let_def logins_ok_def)
    show "auth_of (handlers ?d) = auth_of (handlers ?w)"
      using cleanup_ok(2) [OF assms, of env] cleanup_frame(1) [OF assms(2), of env]
      by (auto simp: d fun_eq_iff auth_of_def)
    show "\<not> dangling ?d"
      using cleanup_frame [OF assms(2), of env] assms(1) by (simp add: destroy_ClientHandler_def Let_def logins_ok_def)
  qed
qed

subsection \<open>Fields of extensions\<close>

lemma cleanup_more [simp]: "world.more (cleanupSession env h w) = world.more w"
  by (simp add: cleanupSession_def Let_def)

lemma require_more [simp]:
  "world.more (snd (requireAuth env h w)) = world.more w" "world.more (snd (requireModerator env h w)) = world.more w"
  by (auto simp: requireAuth_def requireModerator_def case_prod_unfold split: bool.splits)

lemma dispatch_more [simp]: "world.more (dispatch env h frame w) = world.more w"
proof -
  have "world.more (snd (handleLogin env h l p w)) = world.more w" "world.more (handleLogout env h w) = world.more w"
    "world.more (handleBan env h l w) = world.more w" "world.more (handleKick env h l w) = world.more w"
    "world.more (snd (handleRegister env h l p w)) = world.more w" "world.more (handleList env h w) = world.more w"
    "world.more (handleInbox env h w) = world.more w" "world.more (handleMessage env h l x w) = world.more w"
    "world.more (handleHistory env h l n k w) = world.more w" "world.more (handleAllMessages env h n w) = world.more w"
    "world.more (handleUnban env h l w) = world.more w" for l p x n k
    by (auto simp: handleLogin_def handleLogout_def handleBan_def handleKick_def handleRegister_def handleList_def
          handleInbox_def handleMessage_def handleHistory_def handleAllMessages_def handleUnban_def Let_def
          case_prod_unfold split: bool.splits option.splits)
  then show ?thesis unfolding dispatch_def case_prod_unfold by simp
qed

lemma run_more [simp]:
  "world.more (snd (run_step env h w)) = world.more w" "world.more (run_end env h w) = world.more w"
  "world.more (destroy_ClientHandler env h w) = world.more w"
  by (auto simp: run_step_def run_end_def destroy_ClientHandler_def Let_def split: prod.splits)

end
