(* ===== verification/Db_Pool.thy ===== *)
theory Db_Pool
  imports Messenger_Prelude "HOL-Library.Multiset"
begin

text \<open>
  The connection pool of \<open>server/src/Database.cpp\<close>: \<open>DatabasePool\<close> and its \<open>Connection\<close> handle. A
  PostgreSQL connection is a number; opening one is a parameter. The condition variable is modelled
  by the threads of \<open>pool_sys\<close>: a thread in \<open>acquire\<close> that finds no connection goes to sleep, a
  release first pushes the connection under the lock and then, as a step of its own, notifies one
  sleeper, and sleepers may wake up spuriously.
\<close>

subsection \<open>The pool and the handle\<close>

text \<open>\<open>notifications\<close> counts the calls of \<open>notify_one\<close> that are due.\<close>

record DatabasePool =
  available :: "nat list"
  notifications :: nat

text \<open>\<open>pool_\<close> is null or the pool, \<open>connection_\<close> is null or a connection.\<close>

record Connection =
  conn_pool :: bool
  conn_connection :: "nat option"

datatype open_result = Opened | Not_open | Open_throws string

datatype pool_error = Pool_size_zero | Connect_failed string | Not_opened

fun open_loop :: "(nat \<Rightarrow> open_result) \<Rightarrow> nat \<Rightarrow> nat \<Rightarrow> DatabasePool \<Rightarrow> pool_error + DatabasePool" where
  "open_loop connect i 0 p = Inr p"
| "open_loop connect i (Suc n) p =
     (case connect i of
        Open_throws what \<Rightarrow> Inl (Connect_failed what)
      | Not_open \<Rightarrow> Inl Not_opened
      | Opened \<Rightarrow> open_loop connect (Suc i) n (p\<lparr>available := available p @ [i]\<rparr>))"

definition mk_DatabasePool :: "(nat \<Rightarrow> open_result) \<Rightarrow> nat \<Rightarrow> pool_error + DatabasePool" where
  "mk_DatabasePool connect poolSize =
     (if poolSize = 0 then Inl Pool_size_zero
      else open_loop connect 0 poolSize \<lparr>available = [], notifications = 0\<rparr>)"

definition mk_Connection :: "nat option \<Rightarrow> Connection" where
  "mk_Connection c = \<lparr>conn_pool = True, conn_connection = c\<rparr>"

text \<open>\<open>acquire\<close> once the lock is held: \<open>None\<close> is the wait.\<close>

definition acquire :: "DatabasePool \<Rightarrow> (Connection \<times> DatabasePool) option" where
  "acquire p = (case available p of
       [] \<Rightarrow> None
     | c # cs \<Rightarrow> Some (mk_Connection (Some c), p\<lparr>available := cs\<rparr>))"

definition pool_size :: "DatabasePool \<Rightarrow> nat" where
  "pool_size p = length (available p)"

definition release :: "nat option \<Rightarrow> DatabasePool \<Rightarrow> DatabasePool" where
  "release connection p = (case connection of
       None \<Rightarrow> p
     | Some c \<Rightarrow> p\<lparr>available := available p @ [c], notifications := Suc (notifications p)\<rparr>)"

definition destroy_Connection :: "Connection \<Rightarrow> DatabasePool \<Rightarrow> DatabasePool" where
  "destroy_Connection x p =
     (if conn_pool x \<and> conn_connection x \<noteq> None then release (conn_connection x) p else p)"

text \<open>The move constructor gives the new handle and what is left of \<open>other\<close>.\<close>

definition move_Connection :: "Connection \<Rightarrow> Connection \<times> Connection" where
  "move_Connection other =
     (\<lparr>conn_pool = conn_pool other, conn_connection = conn_connection other\<rparr>,
      other\<lparr>conn_connection := None, conn_pool := False\<rparr>)"

text \<open>The move assignment \<open>self = std::move(other)\<close> of two different handles; assigning a handle to
  itself does nothing.\<close>

definition assign_Connection ::
  "Connection \<Rightarrow> Connection \<Rightarrow> DatabasePool \<Rightarrow> Connection \<times> Connection \<times> DatabasePool" where
  "assign_Connection self other p =
     (let p' = (if conn_pool self \<and> conn_connection self \<noteq> None then release (conn_connection self) p else p)
      in (self\<lparr>conn_pool := conn_pool other, conn_connection := conn_connection other\<rparr>,
          other\<lparr>conn_connection := None, conn_pool := False\<rparr>, p'))"

text \<open>\<open>get\<close> dereferences \<open>connection_\<close>: \<open>None\<close> is the null pointer of a handle that was moved from.\<close>

definition conn_get :: "Connection \<Rightarrow> nat option" where
  "conn_get x = conn_connection x"

text \<open>A handle fresh from \<open>acquire\<close> can be dereferenced, and so can the one it is moved to, which then has the same connection.\<close>

lemma acquire_get: "acquire p = Some (x, p') \<Longrightarrow> conn_get x = Some (hd (available p)) \<and> available p = hd (available p) # available p'"
  by (auto simp: acquire_def conn_get_def mk_Connection_def split: list.splits)

lemma move_get: "move_Connection other = (x, rest) \<Longrightarrow> conn_get x = conn_get other \<and> conn_get rest = None"
  by (auto simp: move_Connection_def conn_get_def)

subsection \<open>Connections are conserved\<close>

text \<open>The connection a live handle owns; a handle that was moved from owns none.\<close>

definition owned :: "Connection \<Rightarrow> nat multiset" where
  "owned x = (case conn_connection x of Some c \<Rightarrow> if conn_pool x then {#c#} else {#} | None \<Rightarrow> {#})"

definition in_pool :: "DatabasePool \<Rightarrow> nat multiset" where
  "in_pool p = mset (available p)"

text \<open>A handle with a connection knows its pool.\<close>

definition handle_ok :: "Connection \<Rightarrow> bool" where
  "handle_ok x \<longleftrightarrow> (conn_connection x \<noteq> None \<longrightarrow> conn_pool x)"

lemmas pool_defs = owned_def in_pool_def handle_ok_def release_def destroy_Connection_def move_Connection_def
  assign_Connection_def mk_Connection_def

lemma acquire_conserves:
  assumes "acquire p = Some (x, p')"
  shows "in_pool p = in_pool p' + owned x" "handle_ok x" "owned x \<noteq> {#}" "notifications p' = notifications p"
  using assms by (auto simp: acquire_def pool_defs split: list.splits)

lemma destroy_conserves: "handle_ok x \<Longrightarrow> in_pool (destroy_Connection x p) = in_pool p + owned x"
  by (auto simp: pool_defs split: option.splits)

lemma move_conserves:
  assumes "move_Connection x = (y, x')" "handle_ok x"
  shows "owned y = owned x" "owned x' = {#}" "handle_ok y" "handle_ok x'"
  using assms by (auto simp: pool_defs split: option.splits)

lemma assign_conserves:
  assumes "assign_Connection x y p = (x', y', p')" "handle_ok x" "handle_ok y"
  shows "in_pool p' + owned x' + owned y' = in_pool p + owned x + owned y" "owned x' = owned y" "owned y' = {#}"
    "handle_ok x'" "handle_ok y'"
  using assms by (auto simp: pool_defs Let_def split: option.splits)

lemma open_loop_all:
  "open_loop connect i n p = Inr p' \<Longrightarrow>
     available p' = available p @ [i..<i + n] \<and> notifications p' = notifications p \<and> (\<forall>j. i \<le> j \<and> j < i + n \<longrightarrow> connect j = Opened)"
proof (induction n arbitrary: i p)
  case (Suc n)
  then have i: "connect i = Opened" "open_loop connect (Suc i) n (p\<lparr>available := available p @ [i]\<rparr>) = Inr p'"
    by (auto split: open_result.splits)
  from Suc.IH [OF i(2)] have IH: "available p' = available p @ i # [Suc i..<i + Suc n]"
    "notifications p' = notifications p" "\<And>j. Suc i \<le> j \<Longrightarrow> j < i + Suc n \<Longrightarrow> connect j = Opened" by auto
  have "connect j = Opened" if "i \<le> j" "j < i + Suc n" for j
    using that i(1) IH(3) by (cases "j = i") auto
  with IH show ?case by (simp add: upt_conv_Cons)
qed auto

subsection \<open>Threads that share the pool\<close>

record pool_sys =
  pool :: DatabasePool
  runnable :: "nat list"
  asleep :: "nat list"
  held :: "(nat \<times> Connection) list"

inductive pool_step :: "bool \<Rightarrow> pool_sys \<Rightarrow> pool_sys \<Rightarrow> bool" for spurious where
  Request: "t \<notin> set (runnable s) \<Longrightarrow> t \<notin> set (asleep s) \<Longrightarrow> t \<notin> fst ` set (held s) \<Longrightarrow>
    pool_step spurious s (s\<lparr>runnable := t # runnable s\<rparr>)"
| Acquire: "runnable s = xs @ t # ys \<Longrightarrow> acquire (pool s) = Some (x, p') \<Longrightarrow>
    pool_step spurious s (s\<lparr>pool := p', runnable := xs @ ys, held := (t, fst (move_Connection x)) # held s\<rparr>)"
| Wait: "runnable s = xs @ t # ys \<Longrightarrow> acquire (pool s) = None \<Longrightarrow>
    pool_step spurious s (s\<lparr>runnable := xs @ ys, asleep := t # asleep s\<rparr>)"
| Spurious: "spurious \<Longrightarrow> asleep s = xs @ t # ys \<Longrightarrow>
    pool_step spurious s (s\<lparr>asleep := xs @ ys, runnable := t # runnable s\<rparr>)"
| Destroy: "held s = xs @ (t, x) # ys \<Longrightarrow>
    pool_step spurious s (s\<lparr>pool := destroy_Connection x (pool s), held := xs @ ys\<rparr>)"
| Notify: "notifications (pool s) = Suc n \<Longrightarrow> asleep s = xs @ t # ys \<Longrightarrow>
    pool_step spurious s (s\<lparr>pool := (pool s)\<lparr>notifications := n\<rparr>, asleep := xs @ ys, runnable := t # runnable s\<rparr>)"
| Notify_none: "notifications (pool s) = Suc n \<Longrightarrow> asleep s = [] \<Longrightarrow>
    pool_step spurious s (s\<lparr>pool := (pool s)\<lparr>notifications := n\<rparr>\<rparr>)"

inductive_cases pool_stepE: "pool_step b s s'"

definition connections :: "pool_sys \<Rightarrow> nat multiset" where
  "connections s = in_pool (pool s) + sum_list (map (\<lambda>h. owned (snd h)) (held s))"

definition pool_ok :: "pool_sys \<Rightarrow> bool" where
  "pool_ok s \<longleftrightarrow> list_all (\<lambda>h. handle_ok (snd h) \<and> owned (snd h) \<noteq> {#}) (held s)
     \<and> distinct (runnable s @ asleep s @ map fst (held s))
     \<and> (asleep s = [] \<or> length (available (pool s)) \<le> notifications (pool s) + length (runnable s))"

lemma pool_step_connections:
  assumes "pool_step b s s'" "pool_ok s"
  shows "connections s' = connections s"
  using assms
proof cases
  case (Acquire xs t ys x p')
  then show ?thesis
    using acquire_conserves [OF Acquire(3)] move_conserves(1) [of x "fst (move_Connection x)" "snd (move_Connection x)"]
    by (simp add: connections_def)
next
  case (Destroy xs t x ys)
  then show ?thesis using assms(2) by (simp add: connections_def destroy_conserves pool_ok_def)
qed (simp_all add: connections_def in_pool_def)

lemma pool_step_ok:
  assumes "pool_step b s s'" "pool_ok s"
  shows "pool_ok s'"
  using assms(1)
proof cases
  case (Acquire xs t ys x p')
  have "length (available (pool s)) = Suc (length (available p'))"
    using Acquire(3) by (auto simp: acquire_def split: list.splits)
  with Acquire show ?thesis
    using assms(2) acquire_conserves [OF Acquire(3)]
      move_conserves [of x "fst (move_Connection x)" "snd (move_Connection x)"]
    by (auto simp: pool_ok_def)
next
  case (Wait xs t ys)
  then have "available (pool s) = []" by (auto simp: acquire_def split: list.splits)
  with Wait show ?thesis using assms(2) by (auto simp: pool_ok_def)
next
  case (Destroy xs t x ys)
  then show ?thesis using assms(2)
    by (auto simp: pool_ok_def destroy_Connection_def release_def split: option.splits)
qed (use assms(2) in \<open>auto simp: pool_ok_def\<close>)

lemma pool_run:
  assumes "(pool_step b)\<^sup>*\<^sup>* s s'" "pool_ok s"
  shows "pool_ok s' \<and> connections s' = connections s"
  using assms by (induction rule: rtranclp_induct) (auto simp: pool_step_ok pool_step_connections)

definition pool_start :: "DatabasePool \<Rightarrow> pool_sys" where
  "pool_start p = \<lparr>pool = p, runnable = [], asleep = [], held = []\<rparr>"

lemma pool_reachable:
  assumes "mk_DatabasePool connect n = Inr p" "(pool_step b)\<^sup>*\<^sup>* (pool_start p) s"
  shows "pool_ok s" "connections s = mset [0..<n]" "0 < n"
proof -
  have p: "available p = [0..<n]" "0 < n"
    using assms(1) open_loop_all [of connect 0 n] by (auto simp: mk_DatabasePool_def split: if_splits)
  have "pool_ok (pool_start p)" by (simp add: pool_ok_def pool_start_def)
  from pool_run [OF assms(2) this] p show "pool_ok s" "connections s = mset [0..<n]" "0 < n"
    by (simp_all add: connections_def pool_start_def in_pool_def)
qed

lemma owned_single: "handle_ok x \<Longrightarrow> owned x \<noteq> {#} \<Longrightarrow> \<exists>c. owned x = {#c#} \<and> conn_connection x = Some c"
  by (auto simp: owned_def split: option.splits if_splits)

definition held_connection :: "nat \<times> Connection \<Rightarrow> nat" where
  "held_connection h = the (conn_connection (snd h))"

lemma held_mset:
  "list_all (\<lambda>h. handle_ok (snd h) \<and> owned (snd h) \<noteq> {#}) hs \<Longrightarrow>
     sum_list (map (\<lambda>h. owned (snd h)) hs) = mset (map held_connection hs)"
  by (induction hs) (auto simp: held_connection_def dest!: owned_single)

text \<open>(C11) Connections are neither lost, duplicated nor shared: in every state that threads acquiring and
  releasing can reach, the free connections and the ones held are together exactly the ones the
  constructor opened, each once, and no thread holds two.\<close>

theorem pool_exclusive:
  assumes "mk_DatabasePool connect n = Inr p" "(pool_step b)\<^sup>*\<^sup>* (pool_start p) s"
  shows "mset (available (pool s) @ map held_connection (held s)) = mset [0..<n]
    \<and> distinct (available (pool s) @ map held_connection (held s)) \<and> distinct (map fst (held s))"
proof -
  have ok: "pool_ok s" and all: "connections s = mset [0..<n]" using pool_reachable [OF assms] by simp_all
  then have "mset (available (pool s) @ map held_connection (held s)) = mset [0..<n]"
    using held_mset [of "held s"] by (simp add: connections_def in_pool_def pool_ok_def)
  moreover from this have "distinct (available (pool s) @ map held_connection (held s))"
    using mset_eq_imp_distinct_iff distinct_upt by blast
  ultimately show ?thesis using ok by (simp add: pool_ok_def)
qed

theorem pool_exclusive_witness:
  "distinct (available (pool (pool_start \<lparr>available = [0, 1], notifications = 0\<rparr>\<lparr>runnable := [7]\<rparr>))
     @ map held_connection (held (pool_start \<lparr>available = [0, 1], notifications = 0\<rparr>\<lparr>runnable := [7]\<rparr>)))"
proof -
  have "mk_DatabasePool (\<lambda>i. Opened) 2 = Inr \<lparr>available = [0, 1], notifications = 0\<rparr>" by code_simp
  moreover have "(pool_step True)\<^sup>*\<^sup>* (pool_start \<lparr>available = [0, 1], notifications = 0\<rparr>)
      (pool_start \<lparr>available = [0, 1], notifications = 0\<rparr>\<lparr>runnable := [7]\<rparr>)"
    using Request [of 7 "pool_start \<lparr>available = [0, 1], notifications = 0\<rparr>" True]
    by (intro r_into_rtranclp) (simp add: pool_start_def)
  ultimately show ?thesis using pool_exclusive [of "\<lambda>i. Opened" 2] by blast
qed

subsection \<open>No lost wake-up\<close>

lemma wake_and_acquire:
  assumes "notifications (pool s) = Suc k" "asleep s = xs @ t # ys" "available (pool s) \<noteq> []"
  shows "\<exists>s'. (pool_step b)\<^sup>*\<^sup>* s s' \<and> t \<in> fst ` set (held s')"
proof -
  let ?s = "s\<lparr>pool := (pool s)\<lparr>notifications := k\<rparr>, asleep := xs @ ys, runnable := t # runnable s\<rparr>"
  have "pool_step b s ?s" using assms(1,2) by (rule Notify)
  moreover obtain x p' where a: "acquire (pool ?s) = Some (x, p')"
    using assms(3) by (cases "available (pool s)") (auto simp: acquire_def)
  have "pool_step b ?s (?s\<lparr>pool := p', runnable := [] @ runnable s, held := (t, fst (move_Connection x)) # held ?s\<rparr>)"
    by (rule Acquire [OF _ a]) simp
  ultimately have "(pool_step b)\<^sup>*\<^sup>* s (?s\<lparr>pool := p', runnable := [] @ runnable s, held := (t, fst (move_Connection x)) # held ?s\<rparr>)"
    by (meson converse_rtranclp_into_rtranclp r_into_rtranclp)
  moreover have "t \<in> fst ` set (held (?s\<lparr>pool := p', runnable := [] @ runnable s, held := (t, fst (move_Connection x)) # held ?s\<rparr>))"
    by simp
  ultimately show ?thesis by blast
qed

lemma release_and_acquire:
  assumes "pool_ok s" "held s \<noteq> []" "t \<in> set (asleep s)"
  shows "\<exists>s'. (pool_step b)\<^sup>*\<^sup>* s s' \<and> t \<in> fst ` set (held s')"
proof -
  obtain u x ys where h: "held s = [] @ (u, x) # ys" using assms(2) by (cases "held s") auto
  let ?s = "s\<lparr>pool := destroy_Connection x (pool s), held := [] @ ys\<rparr>"
  have "pool_step b s ?s" by (rule Destroy [OF h])
  moreover obtain as bs where "asleep ?s = as @ t # bs" using assms(3) split_list by fastforce
  moreover have "available (pool ?s) \<noteq> []" "\<exists>k. notifications (pool ?s) = Suc k"
    using assms(1) h owned_single [of x] by (auto simp: pool_ok_def destroy_Connection_def release_def handle_ok_def)
  ultimately obtain s' where "(pool_step b)\<^sup>*\<^sup>* ?s s'" "t \<in> fst ` set (held s')"
    using wake_and_acquire by blast
  with \<open>pool_step b s ?s\<close> show ?thesis by (meson converse_rtranclp_into_rtranclp)
qed

text \<open>(C21) No wake-up is lost: from every reachable state, a thread that sleeps in \<open>acquire\<close> can still get
  a connection by the steps of the other threads and their notifications alone, without a spurious
  wake-up. So the pool never deadlocks a waiting thread.\<close>

theorem pool_no_lost_wakeup:
  assumes "mk_DatabasePool connect n = Inr p" "(pool_step b)\<^sup>*\<^sup>* (pool_start p) s" "t \<in> set (asleep s)"
  shows "\<exists>s'. (pool_step False)\<^sup>*\<^sup>* s s' \<and> t \<in> fst ` set (held s')"
proof (cases "held s = []")
  case False
  then show ?thesis using release_and_acquire pool_reachable(1) [OF assms(1,2)] assms(3) by blast
next
  case True
  have ok: "pool_ok s" and all: "connections s = mset [0..<n]" "0 < n" using pool_reachable [OF assms(1,2)] by simp_all
  have "mset (available (pool s)) = mset [0..<n]" using all(1) True by (simp add: connections_def in_pool_def)
  then have av: "available (pool s) \<noteq> []" using all(2) mset_eq_length by fastforce
  obtain as bs where as: "asleep s = as @ t # bs" using assms(3) split_list by fastforce
  show ?thesis
  proof (cases "notifications (pool s)")
    case (Suc k)
    then show ?thesis using wake_and_acquire as av by blast
  next
    case 0
    then obtain r rs where r: "runnable s = [] @ r # rs"
      using ok av assms(3) by (cases "runnable s") (auto simp: pool_ok_def)
    obtain x p' where a: "acquire (pool s) = Some (x, p')"
      using av by (cases "available (pool s)") (auto simp: acquire_def)
    let ?s = "s\<lparr>pool := p', runnable := [] @ rs, held := (r, fst (move_Connection x)) # held s\<rparr>"
    have st: "pool_step False s ?s" by (rule Acquire [OF r a])
    have "pool_ok ?s" using pool_step_ok [OF st ok] .
    then obtain s' where "(pool_step False)\<^sup>*\<^sup>* ?s s'" "t \<in> fst ` set (held s')"
      using release_and_acquire [of ?s t False] assms(3) by auto
    with st show ?thesis by (meson converse_rtranclp_into_rtranclp)
  qed
qed

definition demo_pool :: pool_sys where
  "demo_pool = \<lparr>pool = \<lparr>available = [], notifications = 0\<rparr>, runnable = [], asleep = [2], held = [(1, mk_Connection (Some 0))]\<rparr>"

lemma demo_pool_reachable: "(pool_step False)\<^sup>*\<^sup>* (pool_start \<lparr>available = [0], notifications = 0\<rparr>) demo_pool"
proof -
  let ?s0 = "pool_start \<lparr>available = [0], notifications = 0\<rparr>"
  let ?s1 = "?s0\<lparr>runnable := [1]\<rparr>"
  let ?s2 = "?s1\<lparr>pool := \<lparr>available = [], notifications = 0\<rparr>, runnable := [], held := [(1, mk_Connection (Some 0))]\<rparr>"
  let ?s3 = "?s2\<lparr>runnable := [2]\<rparr>"
  have "pool_step False ?s0 ?s1" using Request [of 1 ?s0] by (simp add: pool_start_def)
  moreover have "pool_step False ?s1 ?s2"
    using Acquire [of ?s1 "[]" 1 "[]" "mk_Connection (Some 0)" "\<lparr>available = [], notifications = 0\<rparr>"]
    by (simp add: pool_start_def acquire_def move_Connection_def mk_Connection_def)
  moreover have "pool_step False ?s2 ?s3" using Request [of 2 ?s2] by (simp add: pool_start_def)
  moreover have "pool_step False ?s3 demo_pool"
    using Wait [of ?s3 "[]" 2 "[]"] by (simp add: pool_start_def acquire_def demo_pool_def)
  ultimately show ?thesis by (meson converse_rtranclp_into_rtranclp rtranclp.rtrancl_refl)
qed

theorem pool_no_lost_wakeup_witness: "\<exists>s'. (pool_step False)\<^sup>*\<^sup>* demo_pool s' \<and> 2 \<in> fst ` set (held s')"
proof -
  have "mk_DatabasePool (\<lambda>i. Opened) 1 = Inr \<lparr>available = [0], notifications = 0\<rparr>" by code_simp
  then show ?thesis
    using pool_no_lost_wakeup [OF _ demo_pool_reachable, of "\<lambda>i. Opened" 1 2] by (simp add: demo_pool_def)
qed

end
