(* ===== verification/Server.thy ===== *)
theory Server
  imports Handler_Laws Db_Pool
begin

text \<open>
  The class \<open>Server\<close> of \<open>server/src/Server.cpp\<close> and the program's \<open>main\<close>. The detached threads of
  \<open>start\<close> are steps of \<open>server_step\<close>: the acceptor, the construction of a handler, one command of a
  handler, the end of its loop and its destruction interleave in any order; the kernel may change at
  any time. Commands of different connections interleave between commands.
\<close>

subsection \<open>State\<close>

text \<open>A thread that was started for a client socket, one that runs the command loop of the handler at an
  address, and one whose loop has ended.\<close>

datatype phase = Spawned SocketHandle | Looping nat | Ended nat

record 'k server = "'k world" +
  config :: ServerConfig
  serverSocket :: SocketHandle
  activeClients :: int
  threads :: "nat \<Rightarrow> phase option"

datatype server_error = Pool_failed pool_error | Server_error string

subsection \<open>Construction\<close>

definition initSocket ::
  "('k, 'e) srv_env_scheme \<Rightarrow> ('k, 'z) server_scheme \<Rightarrow> (server_error + unit) \<times> ('k, 'z) server_scheme" where
  "initSocket env w =
     (case sys_socket (os env) (kernel w) of (fd, k) \<Rightarrow>
        let w1 = w\<lparr>serverSocket := fd, kernel := k\<rparr>
        in if \<not> isValidSocket fd then (Inl (Server_error ''failed to create server socket''), w1)
        else let w2 = w1\<lparr>kernel := snd (setReuseAddress (os env) fd (kernel w1))\<rparr>
        in case sys_bind (os env) (kernel w2) fd (word_of_int (cfg_port (config w))) of (r, k2) \<Rightarrow>
          if r < 0 then (Inl (Server_error ''failed to bind server socket''), w2\<lparr>kernel := k2\<rparr>)
          else case sys_listen (os env) k2 fd (cfg_maxClients (config w)) of (r2, k3) \<Rightarrow>
            let w3 = w2\<lparr>kernel := k3\<rparr>
            in if r2 < 0 then (Inl (Server_error ''failed to listen on server socket''), w3)
            else let w4 = logger_info env (''server listening on port '' @ to_string (cfg_port (config w))) w3
            in (Inr (), if cfg_tlsEnabled (config w)
                 then logger_warn env ''TLS is configured but the current transport is still plaintext TCP'' w4
                 else w4))"

definition mk_Server ::
  "('k, 'e) srv_env_scheme \<Rightarrow> (nat \<Rightarrow> open_result) \<Rightarrow> ServerConfig \<Rightarrow> ('k, 'z) server_scheme
     \<Rightarrow> (server_error + unit) \<times> ('k, 'z) server_scheme" where
  "mk_Server env connect cfg w =
     (let w0 = w\<lparr>config := cfg, serverSocket := kInvalidSocket, activeClients := 0, threads := Map.empty\<rparr>
      in case mk_DatabasePool connect (cfg_dbPoolSize cfg) of
           Inl e \<Rightarrow> (Inl (Pool_failed e), w0)
         | Inr p \<Rightarrow>
             case ping env (logger_configure env (cfg_logPath cfg) w0) of
               (False, w1) \<Rightarrow> (Inl (Server_error ''database is not reachable''), w1)
             | (True, w1) \<Rightarrow> initSocket env w1)"

definition destroy_Server :: "('k, 'e) srv_env_scheme \<Rightarrow> ('k, 'z) server_scheme \<Rightarrow> ('k, 'z) server_scheme" where
  "destroy_Server env w =
     (let w1 = logger_info env ''server shutting down'' w
      in w1\<lparr>kernel := closeSocket (os env) (serverSocket w1) (kernel w1)\<rparr>)"

subsection \<open>start\<close>

text \<open>One iteration of the accept loop; \<open>t\<close> names the thread it may start.\<close>

definition accept_step ::
  "('k, 'e) srv_env_scheme \<Rightarrow> nat \<Rightarrow> ('k, 'z) server_scheme \<Rightarrow> ('k, 'z) server_scheme" where
  "accept_step env t w =
     (case sys_accept (os env) (kernel w) (serverSocket w) of (clientSock, k) \<Rightarrow>
        if \<not> isValidSocket clientSock then logger_warn env ''failed to accept client'' (w\<lparr>kernel := k\<rparr>)
        else if activeClients w \<ge> cfg_maxClients (config w)
        then
          let k1 = snd (sendFrame_native (os env) clientSock k ''ERROR_SERVER_BUSY'' kDefaultMaxFrameSize)
          in logger_warn env ''client rejected: max client limit reached''
               (w\<lparr>kernel := closeSocket (os env) clientSock k1\<rparr>)
        else w\<lparr>kernel := snd (setReceiveTimeout (os env) clientSock (cfg_readTimeoutSeconds (config w)) k),
               activeClients := activeClients w + 1,
               threads := (threads w)(t \<mapsto> Spawned clientSock)\<rparr>)"

text \<open>The thread's body: construct the handler, \<open>run\<close> it, destroy it, count down.\<close>

definition construct_step ::
  "('k, 'e) srv_env_scheme \<Rightarrow> nat \<Rightarrow> SocketHandle \<Rightarrow> nat \<Rightarrow> ('k, 'z) server_scheme \<Rightarrow> ('k, 'z) server_scheme" where
  "construct_step env t socket h w =
     logger_info env ''client connected''
       (w\<lparr>handlers := (handlers w)(h \<mapsto> mk_ClientHandler socket (cfg_maxFrameSize (config w))),
          threads := (threads w)(t \<mapsto> Looping h)\<rparr>)"

definition finish_step ::
  "('k, 'e) srv_env_scheme \<Rightarrow> nat \<Rightarrow> nat \<Rightarrow> ('k, 'z) server_scheme \<Rightarrow> ('k, 'z) server_scheme" where
  "finish_step env t h w =
     (let w1 = destroy_ClientHandler env h (run_end env h w)
      in w1\<lparr>activeClients := activeClients w1 - 1, threads := (threads w1)(t := None)\<rparr>)"

text \<open>\<open>P\<close> restricts the frames clients send.\<close>

inductive server_step ::
  "('k, 'e) srv_env_scheme \<Rightarrow> (string \<Rightarrow> bool) \<Rightarrow> ('k, 'z) server_scheme \<Rightarrow> ('k, 'z) server_scheme \<Rightarrow> bool"
  for env P where
  Accept: "threads w t = None \<Longrightarrow> server_step env P w (accept_step env t w)"
| Construct: "threads w t = Some (Spawned s) \<Longrightarrow> h \<noteq> nullptr \<Longrightarrow> handlers w h = None \<Longrightarrow>
    server_step env P w (construct_step env t s h w)"
| Command: "threads w t = Some (Looping h) \<Longrightarrow> run_step env h w = (True, w') \<Longrightarrow>
    (\<And>fr k. receiveFrame_native (os env) (clientSocket (this h w)) (kernel w) (ch_maxFrameSize (this h w)) = (RF_Ok, fr, k) \<Longrightarrow> P fr) \<Longrightarrow>
    server_step env P w w'"
| Stop: "threads w t = Some (Looping h) \<Longrightarrow> run_step env h w = (False, w') \<Longrightarrow>
    server_step env P w (w'\<lparr>threads := (threads w')(t \<mapsto> Ended h)\<rparr>)"
| Finish: "threads w t = Some (Ended h) \<Longrightarrow> server_step env P w (finish_step env t h w)"
| Peers: "server_step env P w (w\<lparr>kernel := k\<rparr>)"

subsection \<open>main\<close>

text \<open>The environment, the files and \<open>argv\<close> are inputs, as is what a \<open>std::stoi\<close> exception says. The
  result is the exit code when the program does not stay in \<open>start\<close>, which never returns.\<close>

fun pool_error_text :: "pool_error \<Rightarrow> string" where
  "pool_error_text Pool_size_zero = ''database pool size must be greater than zero''"
| "pool_error_text Not_opened = ''failed to open PostgreSQL connection''"
| "pool_error_text (Connect_failed what) = what"

fun server_error_text :: "server_error \<Rightarrow> string" where
  "server_error_text (Pool_failed e) = pool_error_text e"
| "server_error_text (Server_error what) = what"

definition apply_argv :: "string list \<Rightarrow> ServerConfig \<Rightarrow> std_exception + ServerConfig" where
  "apply_argv argv cfg =
     (if length argv = 2 then
        (case stoi (argv ! 1) of Inl e \<Rightarrow> Inl e | Inr n \<Rightarrow> Inr (cfg\<lparr>cfg_port := n\<rparr>))
      else Inr cfg)"

definition EXIT_FAILURE :: int where
  "EXIT_FAILURE = 1"

definition main_failed ::
  "('k, 'e) srv_env_scheme \<Rightarrow> string \<Rightarrow> ('k, 'z) server_scheme \<Rightarrow> int option \<times> ('k, 'z) server_scheme" where
  "main_failed env what w =
     (let w1 = logger_error env (''server failed: '' @ what) w
      in (Some EXIT_FAILURE, w1\<lparr>cerr := cerr w1 @ [''Server failed: '' @ what]\<rparr>))"

definition server_main ::
  "('k, 'e) srv_env_scheme \<Rightarrow> (nat \<Rightarrow> open_result) \<Rightarrow> (std_exception \<Rightarrow> string) \<Rightarrow> environment \<Rightarrow> file_system
     \<Rightarrow> string list \<Rightarrow> ('k, 'z) server_scheme \<Rightarrow> int option \<times> ('k, 'z) server_scheme" where
  "server_main env connect what getenv files argv w =
     (case loadServerConfig getenv files of
        Inl e \<Rightarrow> main_failed env (config_error_text what e) w
      | Inr cfg \<Rightarrow>
          case apply_argv argv cfg of
            Inl e \<Rightarrow> main_failed env (what e) w
          | Inr cfg' \<Rightarrow>
              case mk_Server env connect cfg' w of
                (Inl e, w1) \<Rightarrow> main_failed env (server_error_text e) w1
              | (Inr _, w1) \<Rightarrow> (None, w1))"

end
