(* ===== verification/Server_Props.thy ===== *)
theory Server_Props
  imports Server
begin

text \<open>
  Invariants of the running server: over every interleaving of the acceptor, the handlers' commands,
  their ends and the peers, the registry stays exact, no dead handler is ever dereferenced, the number of
  clients stays within the limit, and the database's invariants hold.
\<close>

subsection \<open>Frames\<close>

lemma server_more:
  fixes w w' :: "('k, 'z) server_scheme"
  assumes "world.more w' = world.more w"
  shows "config w' = config w" "serverSocket w' = serverSocket w" "activeClients w' = activeClients w" "threads w' = threads w"
    "server.more w' = server.more w"
  using assms by (cases w; cases w'; simp)+

lemmas run_server_frame = run_more [THEN server_more(1)] run_more [THEN server_more(3)] run_more [THEN server_more(4)]

lemma log_server_frame [simp]:
  fixes w :: "('k, 'z) server_scheme"
  shows "config (logger_log env l m w) = config w" "serverSocket (logger_log env l m w) = serverSocket w"
    "activeClients (logger_log env l m w) = activeClients w" "threads (logger_log env l m w) = threads w"
  by (simp_all add: logger_log_def)

subsection \<open>Handlers and threads\<close>

fun phase_handler :: "phase \<Rightarrow> nat option" where
  "phase_handler (Spawned s) = None"
| "phase_handler (Looping h) = Some h"
| "phase_handler (Ended h) = Some h"

definition owner :: "(nat \<Rightarrow> phase option) \<Rightarrow> nat \<Rightarrow> nat option" where
  "owner ths t = Option.bind (ths t) phase_handler"

lemma owner_upd [simp]: "owner (ths(t := x)) = (owner ths)(t := Option.bind x phase_handler)"
  by (auto simp: owner_def fun_eq_iff)

text \<open>Every thread that has a handler owns a live one, and no two own the same.\<close>

definition threads_own :: "(nat \<Rightarrow> phase option) \<Rightarrow> nat set \<Rightarrow> bool" where
  "threads_own ths H \<longleftrightarrow> (\<forall>t h. owner ths t = Some h \<longrightarrow> h \<in> H)
     \<and> (\<forall>t t' h. owner ths t = Some h \<longrightarrow> owner ths t' = Some h \<longrightarrow> t = t')"

definition counted :: "int \<Rightarrow> int \<Rightarrow> (nat \<Rightarrow> phase option) \<Rightarrow> bool" where
  "counted n limit ths \<longleftrightarrow> finite (dom ths) \<and> n = int (card (dom ths)) \<and> n \<le> max 0 limit"

definition server_ok :: "('k, 'z) server_scheme \<Rightarrow> bool" where
  "server_ok w \<longleftrightarrow> logins_ok w \<and> counted (activeClients w) (cfg_maxClients (config w)) (threads w)
     \<and> threads_own (threads w) (dom (handlers w))"

lemma threads_ownD: "threads_own ths H \<Longrightarrow> ths t = Some ph \<Longrightarrow> phase_handler ph = Some h \<Longrightarrow> h \<in> H"
  unfolding threads_own_def owner_def by (metis bind.bind_lunit)

lemma threads_own_spawn: "threads_own ths H \<Longrightarrow> threads_own (ths(t \<mapsto> Spawned s)) H"
  by (simp add: threads_own_def)

lemma threads_own_new: "threads_own ths H \<Longrightarrow> h \<notin> H \<Longrightarrow> threads_own (ths(t \<mapsto> Looping h)) (insert h H)"
  unfolding threads_own_def owner_upd by simp metis

lemma threads_own_end:
  assumes "threads_own ths H" "ths t = Some (Looping h)"
  shows "threads_own (ths(t \<mapsto> Ended h)) H"
proof -
  have "owner (ths(t \<mapsto> Ended h)) = owner ths" using assms(2) by (auto simp: owner_def fun_eq_iff)
  with assms(1) show ?thesis by (simp add: threads_own_def del: owner_upd)
qed

lemma threads_own_free:
  assumes "threads_own ths H" "ths t = Some (Ended h)"
  shows "threads_own (ths(t := None)) (H - {h})"
proof -
  have "owner ths t = Some h" using assms(2) by (simp add: owner_def)
  with assms(1) show ?thesis by (simp add: threads_own_def) metis
qed

lemma counted_spawn: "counted n limit ths \<Longrightarrow> ths t = None \<Longrightarrow> n < limit \<Longrightarrow> counted (n + 1) limit (ths(t \<mapsto> x))"
  by (auto simp: counted_def domIff card_insert_if)

lemma counted_phase: "counted n limit ths \<Longrightarrow> ths t = Some y \<Longrightarrow> counted n limit (ths(t \<mapsto> x))"
  by (simp add: counted_def insert_absorb domI)

lemma counted_free:
  assumes "counted n limit ths" "ths t = Some y"
  shows "counted (n - 1) limit (ths(t := None))"
proof -
  have t: "t \<in> dom ths" "finite (dom ths)" using assms by (auto simp: counted_def)
  then have "1 \<le> card (dom ths)" by (auto simp: Suc_le_eq card_gt_0_iff)
  with t assms(1) show ?thesis by (simp add: counted_def of_nat_diff)
qed

lemma server_ok_same:
  fixes w w' :: "('k, 'z) server_scheme"
  assumes "server_ok w" "logins_ok w'" "world.more w' = world.more w" "dom (handlers w') = dom (handlers w)"
  shows "server_ok w'"
  using assms server_more [OF assms(3)] by (simp add: server_ok_def)

lemma server_ok_accept:
  assumes "server_ok w" "threads w t = None"
  shows "server_ok (accept_step env t w)"
proof -
  obtain fd k where a: "sys_accept (os env) (kernel w) (serverSocket w) = (fd, k)" by fastforce
  have "logins_ok w" using assms(1) by (simp add: server_ok_def)
  then have ok: "logins_ok (accept_step env t w)"
    by (rule logins_ok_frame) (auto simp: accept_step_def a Let_def)
  show ?thesis
  proof (cases "isValidSocket fd \<and> activeClients w < cfg_maxClients (config w)")
    case False
    then have "threads (accept_step env t w) = threads w" "activeClients (accept_step env t w) = activeClients w"
      "config (accept_step env t w) = config w" "handlers (accept_step env t w) = handlers w"
      by (auto simp: accept_step_def a Let_def)
    with ok assms(1) show ?thesis by (simp add: server_ok_def)
  next
    case True
    then have "threads (accept_step env t w) = (threads w)(t \<mapsto> Spawned fd)" "activeClients (accept_step env t w) = activeClients w + 1"
      "config (accept_step env t w) = config w" "handlers (accept_step env t w) = handlers w"
      by (auto simp: accept_step_def a Let_def)
    with True ok assms show ?thesis by (simp add: server_ok_def counted_spawn threads_own_spawn)
  qed
qed

lemma logins_ok_new:
  assumes "logins_ok w" "handlers w h = None" "h \<noteq> nullptr"
  shows "logins_ok (w\<lparr>handlers := (handlers w)(h \<mapsto> mk_ClientHandler s m)\<rparr>)"
proof (rule logins_ok_same [OF assms(1)])
  show "auth_of (handlers (w\<lparr>handlers := (handlers w)(h \<mapsto> mk_ClientHandler s m)\<rparr>)) = auth_of (handlers w)"
    using assms(2) by (auto simp: auth_of_def fun_eq_iff mk_ClientHandler_def)
qed (use assms in \<open>auto simp: logins_ok_def\<close>)

lemma server_ok_construct:
  assumes "server_ok w" "threads w t = Some (Spawned s)" "h \<noteq> nullptr" "handlers w h = None"
  shows "server_ok (construct_step env t s h w)"
proof -
  let ?w = "w\<lparr>handlers := (handlers w)(h \<mapsto> mk_ClientHandler s (cfg_maxFrameSize (config w)))\<rparr>"
  have "logins_ok ?w" using logins_ok_new [OF _ assms(4,3)] assms(1) by (simp add: server_ok_def)
  then have "logins_ok (construct_step env t s h w)"
    by (rule logins_ok_frame) (simp_all add: construct_step_def)
  moreover have "threads_own ((threads w)(t \<mapsto> Looping h)) (insert h (dom (handlers w)))"
    using assms by (intro threads_own_new) (auto simp: server_ok_def)
  moreover have "counted (activeClients w) (cfg_maxClients (config w)) ((threads w)(t \<mapsto> Looping h))"
    using assms counted_phase by (auto simp: server_ok_def)
  ultimately show ?thesis by (simp add: server_ok_def construct_step_def)
qed

lemma thread_live:
  assumes "server_ok w" "threads w t = Some ph" "phase_handler ph = Some h"
  shows "logins_ok w" "\<exists>c. handlers w h = Some c"
  using assms threads_ownD [of "threads w" "dom (handlers w)" t ph h] by (auto simp: server_ok_def)

lemma server_ok_command:
  assumes "server_ok w" "threads w t = Some (Looping h)" "run_step env h w = (b, w')"
  shows "server_ok w'" "threads w' = threads w"
proof -
  have live: "logins_ok w" "\<exists>c. handlers w h = Some c" using thread_live [OF assms(1,2)] by simp_all
  have "logins_ok w'" using logins_ok_run_step [of w h _ env] live assms(3) by auto
  moreover have "dom (handlers w') = dom (handlers w)" using run_step_dom [of env h w] assms(3) by simp
  moreover have more: "world.more w' = world.more w" using run_more(1) [of env h w] assms(3) by simp
  ultimately show "server_ok w'" using server_ok_same [OF assms(1)] by blast
  show "threads w' = threads w" using server_more(4) [OF more] .
qed

lemma server_ok_stop:
  assumes "server_ok w" "threads w t = Some (Looping h)" "run_step env h w = (b, w')"
  shows "server_ok (w'\<lparr>threads := (threads w')(t \<mapsto> Ended h)\<rparr>)"
proof -
  note w' = server_ok_command [OF assms]
  then have "logins_ok w'" by (simp add: server_ok_def)
  then have "logins_ok (w'\<lparr>threads := (threads w')(t \<mapsto> Ended h)\<rparr>)"
    by (rule logins_ok_frame) simp_all
  moreover have "threads_own ((threads w')(t \<mapsto> Ended h)) (dom (handlers w'))"
    using w' assms(2) by (intro threads_own_end) (simp_all add: server_ok_def)
  moreover have "counted (activeClients w') (cfg_maxClients (config w')) ((threads w')(t \<mapsto> Ended h))"
    using w' assms(2) counted_phase by (auto simp: server_ok_def)
  ultimately show ?thesis by (simp add: server_ok_def)
qed

lemma server_ok_finish:
  assumes "server_ok w" "threads w t = Some (Ended h)"
  shows "server_ok (finish_step env t h w)"
proof -
  let ?w1 = "run_end env h w" let ?w2 = "destroy_ClientHandler env h ?w1"
  obtain c where live: "logins_ok w" "handlers w h = Some c" using thread_live [OF assms] by auto
  note e = logins_ok_end [OF live, of env]
  obtain c1 where c1: "handlers ?w1 h = Some c1" using e(2) live(2) by blast
  note d = logins_ok_destroy [OF e(1) c1, of env]
  have fr: "threads ?w2 = threads w" "activeClients ?w2 = activeClients w" "config ?w2 = config w"
    using server_more [of ?w2 w] by simp_all
  have "dom (handlers ?w2) = dom (handlers w) - {h}" using d(2) e(2) by auto
  moreover have "logins_ok (finish_step env t h w)"
    using d(1) by (rule logins_ok_frame) (simp_all add: finish_step_def Let_def)
  moreover have "threads_own ((threads w)(t := None)) (dom (handlers w) - {h})"
    using assms by (intro threads_own_free) (simp_all add: server_ok_def)
  moreover have "counted (activeClients w - 1) (cfg_maxClients (config w)) ((threads w)(t := None))"
    using assms counted_free by (auto simp: server_ok_def)
  ultimately show ?thesis by (simp add: server_ok_def finish_step_def Let_def fr)
qed

lemma server_step_ok: "server_step env P w w' \<Longrightarrow> server_ok w \<Longrightarrow> server_ok w'"
proof (induction rule: server_step.induct)
  case (Peers w k)
  then have "logins_ok w" by (simp add: server_ok_def)
  then have "logins_ok (w\<lparr>kernel := k\<rparr>)" by (rule logins_ok_kernel)
  with Peers show ?case by (simp add: server_ok_def)
qed (blast intro: server_ok_accept server_ok_construct server_ok_command(1) server_ok_stop server_ok_finish)+

lemma server_run_ok: "(server_step env P)\<^sup>*\<^sup>* w w' \<Longrightarrow> server_ok w \<Longrightarrow> server_ok w'"
  by (induction rule: rtranclp_induct) (auto intro: server_step_ok)

subsection \<open>Start-up\<close>

text \<open>The state of a process that has just started: no handlers and no sessions.\<close>

definition fresh_process :: "('k, 'z) server_scheme \<Rightarrow> bool" where
  "fresh_process w \<longleftrightarrow> handlers w = Map.empty \<and> sessions w = Map.empty \<and> \<not> dangling w"

lemma initSocket_frame:
  assumes "initSocket env w = (r, w')"
  shows "handlers w' = handlers w" "sessions w' = sessions w" "dangling w' = dangling w" "threads w' = threads w"
    "activeClients w' = activeClients w" "config w' = config w" "store w' = store w"
  using assms by (auto simp: initSocket_def Let_def store_def seqs_def split: prod.splits if_splits)

lemma configure_frame [simp]:
  fixes w :: "('k, 'z) server_scheme"
  shows "handlers (logger_configure env p w) = handlers w" "sessions (logger_configure env p w) = sessions w"
    "dangling (logger_configure env p w) = dangling w" "threads (logger_configure env p w) = threads w"
    "activeClients (logger_configure env p w) = activeClients w" "config (logger_configure env p w) = config w"
    "store (logger_configure env p w) = store w"
  by (auto simp: logger_configure_def store_def seqs_def split: option.splits)

lemma mk_Server_frame:
  assumes "mk_Server env connect cfg w = (Inr (), w')"
  shows "handlers w' = handlers w" "sessions w' = sessions w" "dangling w' = dangling w" "threads w' = Map.empty"
    "activeClients w' = 0" "config w' = cfg"
proof -
  let ?w0 = "w\<lparr>config := cfg, serverSocket := kInvalidSocket, activeClients := 0, threads := Map.empty\<rparr>"
  let ?w1 = "snd (ping env (logger_configure env (cfg_logPath cfg) ?w0))"
  have i: "initSocket env ?w1 = (Inr (), w')"
    using assms by (auto simp: mk_Server_def Let_def split: sum.splits prod.splits bool.splits)
  have "world.more ?w1 = world.more (logger_configure env (cfg_logPath cfg) ?w0)" by simp
  note m = server_more [OF this]
  show "handlers w' = handlers w" "sessions w' = sessions w" "dangling w' = dangling w" "threads w' = Map.empty"
    "activeClients w' = 0" "config w' = cfg"
    using initSocket_frame [OF i] m by simp_all
qed

lemma mk_Server_ok:
  assumes "fresh_process w" "mk_Server env connect cfg w = (Inr (), w')"
  shows "server_ok w'"
proof -
  note f = mk_Server_frame [OF assms(2)]
  have "logins_ok w'"
    using assms(1) f by (auto simp: logins_ok_def fresh_process_def reg.shows_logins_def view_def registry_tight_def auth_of_def)
  then show ?thesis using f assms(1) by (simp add: server_ok_def counted_def threads_own_def owner_def)
qed

subsection \<open>Store invariants over server runs\<close>

locale server_invariant = store_invariant env Q allowed
  for env :: "('k, 'e) srv_env_scheme"
    and Q :: "('k, 'y) server_scheme \<Rightarrow> bool"
    and allowed :: "db_call \<Rightarrow> bool"
begin

lemma Q_server_step: "server_step env frame_allowed w w' \<Longrightarrow> Q w \<Longrightarrow> Q w'"
proof (induction rule: server_step.induct)
  case (Accept w t)
  then show ?case by (elim Q_store) (auto simp: accept_step_def Let_def store_def seqs_def split: prod.splits)
next
  case (Construct w t s h)
  then show ?case by (elim Q_store) (simp add: construct_step_def store_def seqs_def)
next
  case (Command w t h w')
  then show ?case using Q_run_step [of w h] by simp
next
  case (Stop w t h w')
  have "receiveFrame_native (os env) (clientSocket (this h w)) (kernel w) (ch_maxFrameSize (this h w)) \<noteq> (RF_Ok, fr, k)" for fr k
    using Stop(2) by (auto simp: run_step_def Let_def split: prod.splits if_splits)
  then have "Q w'" using Q_run_step [of w h] Stop by auto
  then show ?case by (elim Q_store) (simp add: store_def seqs_def)
next
  case (Finish w t h)
  then have "Q (destroy_ClientHandler env h (run_end env h w))" by (intro Q_destroy Q_end)
  then show ?case by (elim Q_store) (simp add: finish_step_def Let_def store_def seqs_def)
next
  case (Peers w k)
  then show ?case by (rule Q_other)
qed

lemma Q_server_run: "(server_step env frame_allowed)\<^sup>*\<^sup>* w w' \<Longrightarrow> Q w \<Longrightarrow> Q w'"
  by (induction rule: rtranclp_induct) (auto intro: Q_server_step)

end

lemma server_step_weaken: "server_step env P w w' \<Longrightarrow> (\<And>fr. P fr \<Longrightarrow> P' fr) \<Longrightarrow> server_step env P' w w'"
  by (induction rule: server_step.induct) (blast intro: server_step.intros)+

lemma server_run_weaken:
  assumes "(server_step env P)\<^sup>*\<^sup>* w w'" "\<And>fr. P fr \<Longrightarrow> P' fr"
  shows "(server_step env P')\<^sup>*\<^sup>* w w'"
  using assms(1) by (induction rule: rtranclp_induct) (auto intro: server_step_weaken assms(2) rtranclp.rtrancl_into_rtrancl)

interpretation schema_server: server_invariant env "\<lambda>w. db_wf (seqs w) (tables w)" "\<lambda>c. True"
  for env :: "('k, 'e) srv_env_scheme"
  by (rule server_invariant.intro) (rule schema_srv.store_invariant_axioms)

interpretation grow_server: server_invariant env "\<lambda>w. extends t0 (tables w)" "\<lambda>c. True"
  for env :: "('k, 'e) srv_env_scheme" and t0
  by (rule server_invariant.intro) (rule grow_srv.store_invariant_axioms)

interpretation ban_server: server_invariant env "\<lambda>w. banned_wf l (seqs w) (tables w)" "\<lambda>c. \<forall>a. c \<noteq> Unban a l"
  for env :: "('k, 'e) srv_env_scheme" and l
  by (rule server_invariant.intro) (rule ban_srv.store_invariant_axioms)

subsection \<open>A concrete server\<close>

definition demo_os :: "memk srv_sys" where
  "demo_os = \<lparr>sys_socket = (\<lambda>k. (3, k)), sys_getaddrinfo = (\<lambda>k h s. (Some [h], k)),
     sys_connect = (\<lambda>k fd a. (0, k)), sys_send = memk_send, sys_recv = memk_recv,
     sys_shutdown = (\<lambda>k fd. (0, k)), sys_close = (\<lambda>k fd. k), sys_setsockopt = (\<lambda>k fd opt. (0, k)),
     sys_bind = (\<lambda>k fd p. (0, k)), sys_listen = (\<lambda>k fd n. (0, k)), sys_accept = (\<lambda>k fd. (5, k))\<rparr>"

definition demo_srv_env :: "memk srv_env" where
  "demo_srv_env = \<lparr>log_time = log_time demo_env, create_directories = create_directories demo_env,
     can_append = can_append demo_env, crypt = crypt demo_env, gen_salt = gen_salt demo_env, pg_now = pg_now demo_env,
     to_char_utc = to_char_utc demo_env, order_login = order_login demo_env, order_created = order_created demo_env,
     violation = violation demo_env, conversion_overrun = conversion_overrun demo_env, os = demo_os\<rparr>"

definition demo_config :: ServerConfig where
  "demo_config = \<lparr>cfg_port = 8080, cfg_dbConn = ''db'', cfg_dbPoolSize = 1, cfg_maxClients = 2, cfg_readTimeoutSeconds = 300,
     cfg_maxFrameSize = 64, cfg_logPath = ''log'', cfg_tlsEnabled = False, cfg_tlsCertPath = [], cfg_tlsKeyPath = []\<rparr>"

text \<open>The process before \<open>main\<close>; client 5 will send the given bytes.\<close>

definition demo_process :: "string \<Rightarrow> memk server" where
  "demo_process input = \<lparr>logFile = None, stderrFallback = True, logLines = (\<lambda>p. []), cerr = [], clock_reads = 0,
     tables = no_rows, work = no_rows, txn_now = 0, txns = 0, users_seq = 0, messages_seq = 0, audit_seq = 0,
     salts = 0, outcomes = [],
     kernel = \<lparr>mk_out = (\<lambda>fd. []), mk_in = (\<lambda>fd. if fd = 5 then input else []), mk_chunk = 15\<rparr>,
     sessions = Map.empty, handlers = Map.empty, dangling = False,
     config = demo_config, serverSocket = kInvalidSocket, activeClients = 0, threads = Map.empty\<rparr>"

definition demo_server :: "string \<Rightarrow> memk server" where
  "demo_server input = snd (mk_Server demo_srv_env (\<lambda>i. Opened) demo_config (demo_process input))"

definition demo_client :: "string \<Rightarrow> memk server" where
  "demo_client input = construct_step demo_srv_env 0 5 1 (accept_step demo_srv_env 0 (demo_server input))"

lemma demo_fresh: "fresh_process (demo_process input)"
  by (simp add: fresh_process_def demo_process_def)

lemma ping_clear: "outcomes s = [] \<Longrightarrow> fst (ping env s)"
  by (simp add: ping_def begin_txn_def attempt_def txn_bind_def txn_return_def)

lemma configure_outcomes: "outcomes (logger_configure env p s) = outcomes (s :: 's db_state_scheme)"
  by (auto simp: logger_configure_def split: option.splits)

lemma demo_initSocket: "fst (initSocket demo_srv_env w) = Inr ()"
  by (simp add: initSocket_def demo_srv_env_def demo_os_def isValidSocket_def kInvalidSocket_def Let_def)

lemma demo_starts:
  fixes w :: "(memk, 'z) server_scheme"
  assumes "outcomes w = []"
  shows "fst (mk_Server demo_srv_env (\<lambda>i. Opened) demo_config w) = Inr ()"
proof -
  let ?w = "logger_configure demo_srv_env (cfg_logPath demo_config)
     (w\<lparr>config := demo_config, serverSocket := kInvalidSocket, activeClients := 0, threads := Map.empty\<rparr>)"
  have "cfg_dbPoolSize demo_config = Suc 0" by (simp add: demo_config_def)
  then have "\<exists>p. mk_DatabasePool (\<lambda>i. Opened) (cfg_dbPoolSize demo_config) = Inr p" by (simp add: mk_DatabasePool_def)
  moreover have "outcomes ?w = []" using assms by (simp add: configure_outcomes)
  then obtain w1 where "ping demo_srv_env ?w = (True, w1)" using ping_clear [of ?w demo_srv_env] by (metis prod.collapse)
  ultimately show ?thesis by (auto simp: mk_Server_def Let_def demo_initSocket)
qed

lemma demo_server_ok: "mk_Server demo_srv_env (\<lambda>i. Opened) demo_config (demo_process input) = (Inr (), demo_server input)"
  using demo_starts [of "demo_process input"] by (simp add: demo_server_def demo_process_def prod_eq_iff)

lemma demo_threads: "threads (demo_server input) = Map.empty" "handlers (demo_server input) = Map.empty"
  using mk_Server_frame [OF demo_server_ok] by (simp_all add: demo_process_def)

text \<open>A client connects.\<close>

lemma demo_connects:
  fixes w w0 :: "(memk, 'z) server_scheme"
  assumes "mk_Server demo_srv_env (\<lambda>i. Opened) demo_config w = (Inr (), w0)" "handlers w = Map.empty"
  shows "(server_step demo_srv_env P)\<^sup>*\<^sup>* w0 (construct_step demo_srv_env 0 5 1 (accept_step demo_srv_env 0 w0))"
proof -
  note w0 = mk_Server_frame [OF assms(1)]
  have a: "threads (accept_step demo_srv_env 0 w0) 0 = Some (Spawned 5)" "handlers (accept_step demo_srv_env 0 w0) = Map.empty"
    using w0 assms(2)
    by (simp_all add: accept_step_def demo_srv_env_def demo_os_def isValidSocket_def kInvalidSocket_def demo_config_def)
  have "server_step demo_srv_env P w0 (accept_step demo_srv_env 0 w0)" by (rule Accept) (simp add: w0)
  moreover have "server_step demo_srv_env P (accept_step demo_srv_env 0 w0) (construct_step demo_srv_env 0 5 1 (accept_step demo_srv_env 0 w0))"
    by (rule Construct) (simp_all add: a nullptr_def)
  ultimately show ?thesis by (meson converse_rtranclp_into_rtranclp rtranclp.rtrancl_refl)
qed

lemma demo_client_run: "(server_step demo_srv_env P)\<^sup>*\<^sup>* (demo_server input) (demo_client input)"
  unfolding demo_client_def by (rule demo_connects [OF demo_server_ok]) (simp add: demo_process_def)

subsection \<open>Safety of every run\<close>

text \<open>(C1) From the start of the process, over every interleaving of accepting, commands, ends of connections
  and whatever the peers do: no freed \<open>ClientHandler\<close> is ever dereferenced, the session registry lists
  exactly the live handlers that are logged in, each once and under its user, and the number of
  active clients is the number of client threads and never exceeds the configured maximum. Commands
  interleave as whole commands.\<close>

theorem server_safe:
  assumes "fresh_process w" "mk_Server env connect cfg w = (Inr (), w0)" "(server_step env P)\<^sup>*\<^sup>* w0 w'"
  shows "\<not> dangling w'
    \<and> (\<forall>u. distinct (view w' u) \<and> set (view w' u) = {h. \<exists>c. handlers w' h = Some c \<and> authed c \<and> userId c = u})
    \<and> activeClients w' = int (card (dom (threads w'))) \<and> activeClients w' \<le> max 0 (cfg_maxClients (config w'))"
proof -
  have ok: "server_ok w'" using server_run_ok [OF assms(3) mk_Server_ok [OF assms(1,2)]] .
  have "{h. auth_of (handlers w') h = Some u} = {h. \<exists>c. handlers w' h = Some c \<and> authed c \<and> userId c = u}" for u
    by (auto simp: auth_of_def split: option.splits if_splits)
  with ok show ?thesis by (simp add: server_ok_def logins_ok_def reg.shows_logins_def counted_def)
qed

theorem server_safe_witness:
  "\<not> dangling (demo_client []) \<and> activeClients (demo_client []) = int (card (dom (threads (demo_client []))))"
  using server_safe [OF demo_fresh demo_server_ok demo_client_run] by blast


end
