(* ===== verification/Handler_Props.thy ===== *)
theory Handler_Props
  imports Server_Props
begin

text \<open>
  The properties of a client's commands: who may do what, what a ban does to live sessions, how a
  message reaches them, how command text is read, and that the command loop ends.
\<close>

subsection \<open>Authorization\<close>

definition moderator_row :: "int \<Rightarrow> tables \<Rightarrow> bool" where
  "moderator_row i t \<longleftrightarrow> (\<exists>u\<in>set (t_users t). u_id u = i \<and> (u_role u = ''admin'' \<or> u_role u = ''moderator''))"

definition sends_only :: "('k, 'e) srv_env_scheme \<Rightarrow> ClientHandler \<Rightarrow> string \<Rightarrow> ('k, 'z) world_scheme \<Rightarrow> ('k, 'z) world_scheme \<Rightarrow> bool" where
  "sends_only env c payload w w' \<longleftrightarrow> tables w' = tables w \<and> sessions w' = sessions w \<and> handlers w' = handlers w
     \<and> kernel w' = snd (sendFrame_native (os env) (clientSocket c) (kernel w) payload (ch_maxFrameSize c))"

lemma respond_kernel:
  "handlers w h = Some c \<Longrightarrow> kernel (respond env h p w) = snd (sendFrame_native (os env) (clientSocket c) (kernel w) p (ch_maxFrameSize c))"
  by (simp add: respond_def sendResponse_def split: prod.splits)

lemma respond_sends_only: "handlers w h = Some c \<Longrightarrow> sends_only env c p w (respond env h p w)"
  by (simp add: sends_only_def respond_kernel)

lemma rights_tables [simp]: "tables (snd (hasModeratorRights env i w)) = tables w"
  using hasModeratorRights_effect(1) [of env i w] by (cases "hasModeratorRights env i w") (simp add: same_rows_def)

lemma requireModerator_denies:
  assumes "handlers w h = Some c" "\<not> authed c \<or> \<not> moderator_row (userId c) (tables w)"
  shows "\<exists>w1 p. requireModerator env h w = (False, w1) \<and> p \<in> {''ERROR_NOT_AUTH'', ''ERROR_FORBIDDEN moderator role required''}
    \<and> sends_only env c p w w1"
proof -
  have deny: "\<not> fst (hasModeratorRights env (userId c) w)" if "authed c"
    using hasModeratorRights_effect(2) [OF prod.collapse [symmetric], of env "userId c" w] assms(2) that
    by (auto simp: moderator_row_def)
  have "handlers (snd (hasModeratorRights env (userId c) w)) h = Some c" using assms(1) by simp
  from respond_sends_only [OF this, of env "''ERROR_FORBIDDEN moderator role required''"]
  have "sends_only env c ''ERROR_FORBIDDEN moderator role required'' w
     (respond env h ''ERROR_FORBIDDEN moderator role required'' (snd (hasModeratorRights env (userId c) w)))"
    by (simp add: sends_only_def)
  with assms(1) deny respond_sends_only [OF assms(1)] show ?thesis
    by (auto simp: requireModerator_def requireAuth_def case_prod_unfold split: bool.splits)
qed

lemma dispatch_cmd:
  assumes "extract_word frame = (cmd, iss)"
  shows "cmd = ''BAN'' \<Longrightarrow> dispatch env h frame w = handleBan env h (fst (extract_word iss)) w"
    "cmd = ''UNBAN'' \<Longrightarrow> dispatch env h frame w = handleUnban env h (fst (extract_word iss)) w"
    "cmd = ''KICK'' \<Longrightarrow> dispatch env h frame w = handleKick env h (fst (extract_word iss)) w"
    "cmd = ''ALL_MESSAGES'' \<Longrightarrow> dispatch env h frame w = handleAllMessages env h (parseIntOrDefault (fst (extract_word iss)) 100) w"
  using assms by (simp_all add: dispatch_def case_prod_unfold)

text \<open>(C3) Only moderators moderate: a client that is not logged in, or whose account has at this moment no
  administrator or moderator role in the database, cannot ban, unban, kick or read all messages. Such
  a command changes no table, no session and no handler, and the client gets one error frame.\<close>

theorem moderation_needs_role:
  assumes "handlers w h = Some c" "\<not> authed c \<or> \<not> moderator_row (userId c) (tables w)"
    "fst (extract_word frame) \<in> {''BAN'', ''UNBAN'', ''KICK'', ''ALL_MESSAGES''}"
  shows "\<exists>p\<in>{''ERROR_NOT_AUTH'', ''ERROR_FORBIDDEN moderator role required''}. sends_only env c p w (dispatch env h frame w)"
proof -
  obtain w1 p where r: "requireModerator env h w = (False, w1)" "p \<in> {''ERROR_NOT_AUTH'', ''ERROR_FORBIDDEN moderator role required''}"
    "sends_only env c p w w1" using requireModerator_denies [OF assms(1,2)] by blast
  have "dispatch env h frame w = w1"
    using assms(3) r(1) dispatch_cmd [OF prod.collapse [symmetric], of frame env h w]
    by (auto simp: handleBan_def handleUnban_def handleKick_def handleAllMessages_def)
  with r show ?thesis by blast
qed

text \<open>(C7) A client that has not logged in can only register, log in, log out, and get error frames: every
  other command leaves the tables, the sessions and the handlers as they are.\<close>

theorem commands_need_login:
  assumes "handlers w h = Some c" "\<not> authed c" "fst (extract_word frame) \<notin> {''REGISTER'', ''LOGIN''}"
  shows "\<exists>p\<in>{''ERROR_NOT_AUTH'', ''LOGOUT_OK'', ''UNKNOWN_CMD''}. sends_only env c p w (dispatch env h frame w)"
proof -
  have a: "requireAuth env h w = (False, respond env h ''ERROR_NOT_AUTH'' w)"
    using assms by (simp add: requireAuth_def)
  then have "dispatch env h frame w \<in> {respond env h ''ERROR_NOT_AUTH'' w, respond env h ''LOGOUT_OK'' w, respond env h ''UNKNOWN_CMD'' w}"
    using assms by (auto simp: dispatch_def case_prod_unfold requireModerator_def handleLogout_def handleList_def handleInbox_def
      handleMessage_def handleHistory_def handleAllMessages_def handleBan_def handleUnban_def handleKick_def)
  with respond_sends_only [OF assms(1), of env] show ?thesis by auto
qed

subsection \<open>Bans and live sessions\<close>

lemma requireModerator_True:
  assumes "requireModerator env h w = (True, w1)" "handlers w h = Some c"
  shows "authed c" "moderator_row (userId c) (tables w)" "w1 = snd (hasModeratorRights env (userId c) w)"
proof -
  have r: "authed c \<and> fst (hasModeratorRights env (userId c) w) \<and> w1 = snd (hasModeratorRights env (userId c) w)"
    using assms by (auto simp: requireModerator_def requireAuth_def case_prod_unfold split: if_splits bool.splits)
  then show "authed c" "w1 = snd (hasModeratorRights env (userId c) w)" by simp_all
  show "moderator_row (userId c) (tables w)"
    using r hasModeratorRights_effect(2) [OF prod.collapse [symmetric], of env "userId c" w] by (simp add: moderator_row_def)
qed

lemma banUser_result:
  assumes "banUser env a l s = (r, s')" "res_status r = DB_Ok" "db_wf (seqs s) (tables s)"
  shows "is_banned l (tables s')" "\<exists>u\<in>set (t_users (tables s)). u_login u = l \<and> res_id r = u_id u" "0 \<le> res_id r"
proof -
  show "is_banned l (tables s')"
    using banUser_effect [OF assms(1)] assms(2) by (auto simp: becomes_def moderate_rows_def status_add is_banned_ban)
  show ex: "\<exists>u\<in>set (t_users (tables s)). u_login u = l \<and> res_id r = u_id u"
    using moderate_id [OF assms(1) [unfolded banUser_def] assms(2)] .
  then show "0 \<le> res_id r" using assms(3) by (cases "seqs s") (force simp: list_all_iff user_ok_def)
qed

lemma unique_login:
  assumes "db_wf q t" "u \<in> set (t_users t)" "v \<in> set (t_users t)" "u_login u = u_login v"
  shows "u = v"
  using assms by (cases q) (auto simp: distinct_map dest: inj_onD)


subsection \<open>Live delivery\<close>

text \<open>A session that can take a payload: its socket is valid and connected and its frame limit allows it.\<close>

definition reachable :: "('k \<Rightarrow> int \<Rightarrow> bool) \<Rightarrow> 'k \<Rightarrow> nat \<Rightarrow> ClientHandler option \<Rightarrow> bool" where
  "reachable up k len c \<longleftrightarrow> (case c of None \<Rightarrow> False
     | Some c \<Rightarrow> isValidSocket (clientSocket c) \<and> up k (clientSocket c) \<and> len \<le> ch_maxFrameSize c)"

lemma reachable_cong: "up k' = up k \<Longrightarrow> reachable up k' = reachable up k"
  by (intro ext) (simp add: reachable_def split: option.splits)

definition socket_of :: "('k, 'z) world_scheme \<Rightarrow> nat \<Rightarrow> int" where
  "socket_of w h = clientSocket (this h w)"

lemma deliver_loop_live:
  assumes ks: "kernel_stream (os env) outq inq up kinv" and "kinv (kernel w)"
    "nullptr \<notin> set hs" "distinct (map (socket_of w) hs)" "\<And>h. h \<in> set hs \<Longrightarrow> reachable up (kernel w) (length payload) (handlers w h)"
  shows "\<exists>w'. deliver_loop env payload hs n w = (n + length hs, w') \<and> inq (kernel w') = inq (kernel w) \<and> kinv (kernel w')
    \<and> (\<forall>fd. outq (kernel w') fd = outq (kernel w) fd @ (if fd \<in> socket_of w ` set hs then encodeFrame payload else []))"
  using assms(2-5)
proof (induction hs arbitrary: w n)
  case (Cons h hs)
  obtain c where c: "handlers w h = Some c" "isValidSocket (clientSocket c)" "up (kernel w) (clientSocket c)" "length payload \<le> ch_maxFrameSize c"
    using Cons.prems(4) [of h] by (auto simp: reachable_def split: option.splits)
  obtain k' where k': "sendFrame_native (os env) (clientSocket c) (kernel w) payload (ch_maxFrameSize c) = (True, k')"
    "outq k' = (outq (kernel w))(clientSocket c := outq (kernel w) (clientSocket c) @ encodeFrame payload)"
    "inq k' = inq (kernel w)" "up k' = up (kernel w)" "kinv k'"
    using kernel_stream.sendFrame_native_live [OF ks Cons.prems(1) c(3,2,4)] by blast
  let ?w = "w\<lparr>kernel := k'\<rparr>"
  have d: "deliverFrame env h payload w = (True, ?w)" using c(1) k'(1) by (simp add: deliverFrame_def sendResponse_def)
  have so: "socket_of ?w = socket_of w" by (simp add: socket_of_def this_def fun_eq_iff)
  have "\<exists>w'. deliver_loop env payload hs (Suc n) ?w = (Suc n + length hs, w') \<and> inq (kernel w') = inq (kernel ?w) \<and> kinv (kernel w')
    \<and> (\<forall>fd. outq (kernel w') fd = outq (kernel ?w) fd @ (if fd \<in> socket_of ?w ` set hs then encodeFrame payload else []))"
    using Cons.prems k' by (intro Cons.IH) (auto simp: so reachable_cong [OF k'(4)])
  moreover have "socket_of w h = clientSocket c" "socket_of w h \<notin> socket_of w ` set hs"
    using c(1) Cons.prems(3) by (auto simp: socket_of_def)
  ultimately show ?case using d Cons.prems(2) k'(2,3) by (auto simp: so)
qed simp

text \<open>A message reaches every session of its receiver: \<open>deliverToUser\<close>, over a kernel that keeps the
  stream contract, writes the payload as one frame to the socket of every session of that user, once
  each, writes nothing to any other socket, and returns the number of those sessions.\<close>

theorem deliver_reaches_every_session:
  assumes "kernel_stream (os env) outq inq up kinv" "kinv (kernel w)" "logins_ok w"
    "distinct (map (socket_of w) (view w u))" "\<forall>h\<in>set (view w u). reachable up (kernel w) (length payload) (handlers w h)"
  shows "\<exists>w'. deliverToUser env u payload w = (length (view w u), w')
    \<and> (\<forall>fd. outq (kernel w') fd = outq (kernel w) fd @ (if fd \<in> socket_of w ` set (view w u) then encodeFrame payload else []))"
proof -
  have "nullptr \<notin> set (view w u)"
    using assms(3) by (auto simp: logins_ok_def registry_tight_def view_def split: option.splits)
  from deliver_loop_live [OF assms(1,2) this assms(4), of payload 0] assms(5)
  obtain w' where "deliver_loop env payload (view w u) 0 w = (length (view w u), w')"
    "\<And>fd. outq (kernel w') fd = outq (kernel w) fd @ (if fd \<in> socket_of w ` set (view w u) then encodeFrame payload else [])"
    by auto
  then show ?thesis by (auto simp: deliverToUser_def view_def split: option.splits)
qed

subsection \<open>Reading commands\<close>

lemma tail_plain: "CHR 0x0A \<notin> set text \<Longrightarrow> tail (CHR '' '' # text) = text"
  by (simp add: tail_def getline_whole)

text \<open>Command text is read back: a \<open>MESSAGE\<close> frame built from a valid login and a text without line
  breaks (blanks included, also at its ends) is dispatched with exactly that login and that text, and
  a \<open>LOGIN\<close> or \<open>REGISTER\<close> frame with exactly its login and password.\<close>

theorem commands_read_back:
  assumes "isValidLogin l" "CHR 0x0A \<notin> set text" "p \<noteq> []" "\<forall>c\<in>set p. \<not> isspace c"
  shows "dispatch env h (''MESSAGE '' @ l @ '' '' @ text) w = handleMessage env h l text w
    \<and> dispatch env h (''LOGIN '' @ l @ '' '' @ p) w = snd (handleLogin env h l p w)
    \<and> dispatch env h (''REGISTER '' @ l @ '' '' @ p) w = snd (handleRegister env h l p w)"
proof -
  have cmd: "extract_word (cmd @ CHR '' '' # rest) = (cmd, CHR '' '' # rest)"
    if "cmd \<in> {''MESSAGE'', ''LOGIN'', ''REGISTER''}" for cmd rest
    using that by (intro extract_word_word) (auto simp: isspace_def)
  have skip: "extract_word (CHR '' '' # s) = extract_word s" for s by (rule extract_word_skip) (simp add: isspace_def)
  have l: "extract_word (l @ CHR '' '' # rest) = (l, CHR '' '' # rest)" for rest
    using assms(1) by (intro extract_word_login) (simp_all add: isspace_def)
  have p: "extract_word p = (p, [])" using extract_word_word [of p "[]"] assms(3,4) by simp
  show ?thesis
    using cmd [of "''MESSAGE''"] cmd [of "''LOGIN''"] cmd [of "''REGISTER''"]
    by (simp add: dispatch_def skip l p tail_plain [OF assms(2)])
qed

end
