(* ===== verification/Handler_Termination.thy ===== *)
theory Handler_Termination
  imports Handler_Props
begin

text \<open>
  The command loop of a client ends: over a kernel that keeps the stream contract, each command
  consumes input, and commands add none. \<open>served_kernel\<close> is the contract of the server's own kernel.
\<close>

locale served_kernel = kernel_stream "os env" outq inq up kinv
  for env :: "('k, 'e) srv_env_scheme"
    and outq inq :: "'k \<Rightarrow> int \<Rightarrow> string"
    and up :: "'k \<Rightarrow> int \<Rightarrow> bool"
    and kinv :: "'k \<Rightarrow> bool"
begin

text \<open>From \<open>w\<close> to \<open>w'\<close> the unread input of a socket changes only if it was the socket of a handler that
  has been disconnected, and a handler's socket changes only to the invalid one.\<close>

definition cut :: "('k, 'z) world_scheme \<Rightarrow> ('k, 'z) world_scheme \<Rightarrow> int \<Rightarrow> bool" where
  "cut w w' fd \<longleftrightarrow> isValidSocket fd \<and> (\<exists>h c c'. handlers w h = Some c \<and> clientSocket c = fd
     \<and> handlers w' h = Some c' \<and> clientSocket c' = kInvalidSocket)"

definition socket_kept :: "ClientHandler option \<Rightarrow> ClientHandler option \<Rightarrow> bool" where
  "socket_kept x y \<longleftrightarrow> (case (x, y) of (None, None) \<Rightarrow> True
     | (Some c, Some c') \<Rightarrow> ch_maxFrameSize c' = ch_maxFrameSize c
         \<and> (clientSocket c' = clientSocket c \<or> clientSocket c' = kInvalidSocket)
     | _ \<Rightarrow> False)"

definition quiet :: "('k, 'z) world_scheme \<Rightarrow> ('k, 'z) world_scheme \<Rightarrow> bool" where
  "quiet w w' \<longleftrightarrow> kinv (kernel w') \<and> (\<forall>h. socket_kept (handlers w h) (handlers w' h))
     \<and> (\<forall>fd. inq (kernel w') fd = inq (kernel w) fd \<or> cut w w' fd)"

lemma socket_kept_refl [simp]: "socket_kept x x"
  by (simp add: socket_kept_def split: option.splits)

lemma socket_kept_trans: "socket_kept x y \<Longrightarrow> socket_kept y z \<Longrightarrow> socket_kept x z"
  by (auto simp: socket_kept_def split: option.splits)

lemma invalid_not_valid [simp]: "\<not> isValidSocket kInvalidSocket"
  by (simp add: isValidSocket_def)

lemma cut_later:
  assumes "cut w w' fd" "\<And>h. socket_kept (handlers w' h) (handlers w'' h)"
  shows "cut w w'' fd"
proof -
  obtain h c c' where h: "isValidSocket fd" "handlers w h = Some c" "clientSocket c = fd" "handlers w' h = Some c'"
    "clientSocket c' = kInvalidSocket" using assms(1) by (auto simp: cut_def)
  with assms(2) [of h] obtain c'' where "handlers w'' h = Some c''" "clientSocket c'' = kInvalidSocket"
    by (auto simp: socket_kept_def split: option.splits)
  with h show ?thesis by (auto simp: cut_def)
qed

lemma cut_earlier:
  assumes "cut w' w'' fd" "\<And>h. socket_kept (handlers w h) (handlers w' h)"
  shows "cut w w'' fd"
proof -
  obtain h c c' where h: "isValidSocket fd" "handlers w' h = Some c" "clientSocket c = fd" "handlers w'' h = Some c'"
    "clientSocket c' = kInvalidSocket" using assms(1) by (auto simp: cut_def)
  with assms(2) [of h] obtain c0 where "handlers w h = Some c0" "clientSocket c0 = fd"
    by (auto simp: socket_kept_def split: option.splits)
  with h show ?thesis by (auto simp: cut_def)
qed

lemma quiet_trans:
  assumes "quiet w w'" "quiet w' w''"
  shows "quiet w w''"
proof -
  have k: "\<And>h. socket_kept (handlers w h) (handlers w' h)" "\<And>h. socket_kept (handlers w' h) (handlers w'' h)"
    using assms by (simp_all add: quiet_def)
  have "inq (kernel w'') fd = inq (kernel w) fd \<or> cut w w'' fd" for fd
  proof -
    consider "cut w w' fd" | "cut w' w'' fd" | "inq (kernel w'') fd = inq (kernel w) fd"
      using assms unfolding quiet_def by metis
    then show ?thesis using cut_later [OF _ k(2)] cut_earlier [OF _ k(1)] by cases auto
  qed
  moreover have "socket_kept (handlers w h) (handlers w'' h)" for h
    using socket_kept_trans [OF k(1) k(2)] .
  ultimately show ?thesis using assms(2) by (simp add: quiet_def)
qed

lemma quiet_frame:
  "kinv (kernel w') \<Longrightarrow> inq (kernel w') = inq (kernel w) \<Longrightarrow> (\<And>h. socket_kept (handlers w h) (handlers w' h)) \<Longrightarrow> quiet w w'"
  by (simp add: quiet_def)

lemma quiet_same: "kinv (kernel w) \<Longrightarrow> kernel w' = kernel w \<Longrightarrow> handlers w' = handlers w \<Longrightarrow> quiet w w'"
  by (rule quiet_frame) simp_all

lemma quiet_kinv: "quiet w w' \<Longrightarrow> kinv (kernel w')"
  by (simp add: quiet_def)

lemma sendResponse_quiet: "kinv (kernel w) \<Longrightarrow> quiet w (snd (sendResponse env h p w))"
proof (cases "handlers w h")
  case (Some c)
  assume k: "kinv (kernel w)"
  obtain ok k' where s: "sendFrame_native (os env) (clientSocket c) (kernel w) p (ch_maxFrameSize c) = (ok, k')" by fastforce
  then show ?thesis
    using sendFrame_native_frame [OF k s] Some by (intro quiet_frame) (simp_all add: sendResponse_def)
qed (auto simp: sendResponse_def intro: quiet_same)

lemma respond_quiet: "kinv (kernel w) \<Longrightarrow> quiet w (respond env h p w)"
  unfolding respond_def by (rule sendResponse_quiet)

lemma deliver_loop_quiet: "kinv (kernel w) \<Longrightarrow> quiet w (snd (deliver_loop env p hs n w))"
proof (induction hs arbitrary: w n)
  case (Cons h hs)
  obtain ok w1 where s: "sendResponse env h p w = (ok, w1)" by fastforce
  then have "quiet w w1" using sendResponse_quiet [OF Cons.prems, of h p] by simp
  then show ?case
    using Cons.IH [OF quiet_kinv, of w w1] Cons.IH [OF Cons.prems] s by (auto simp: deliverFrame_def intro: quiet_trans)
qed (auto intro: quiet_same)

lemma close_client_quiet: "kinv (kernel w) \<Longrightarrow> quiet w (close_client env h w)"
proof (cases "handlers w h")
  case (Some c)
  assume k: "kinv (kernel w)"
  note f = closeSocket_frame [OF k, of "clientSocket c"]
  have kern: "kernel (close_client env h w) = closeSocket (os env) (clientSocket c) (kernel w)"
    using Some by (simp add: close_client_def)
  show ?thesis
  proof (cases "isValidSocket (clientSocket c)")
    case True
    then have "cut w (close_client env h w) (clientSocket c)" using Some by (auto simp: cut_def)
    then have "inq (kernel (close_client env h w)) fd = inq (kernel w) fd \<or> cut w (close_client env h w) fd" for fd
      using f kern by metis
    moreover have "socket_kept (handlers w h') (handlers (close_client env h w) h')" for h'
      using Some by (auto simp: socket_kept_def split: option.splits)
    ultimately show ?thesis using f kern by (simp add: quiet_def)
  next
    case False
    then have "closeSocket (os env) (clientSocket c) (kernel w) = kernel w" by (simp add: closeSocket_def)
    then show ?thesis using k kern Some by (intro quiet_frame) (auto simp: socket_kept_def split: option.splits)
  qed
qed (auto simp: close_client_def intro: quiet_same)

lemma disconnect_loop_quiet: "kinv (kernel w) \<Longrightarrow> quiet w (disconnect_loop env hs w)"
proof (induction hs arbitrary: w)
  case (Cons h hs)
  have "quiet w (disconnectFromAdmin env h w)"
    unfolding disconnectFromAdmin_def
    using quiet_trans [OF respond_quiet [OF Cons.prems] close_client_quiet [OF quiet_kinv [OF respond_quiet [OF Cons.prems]]]] .
  then show ?case
    using Cons.IH [OF quiet_kinv] Cons.IH [OF Cons.prems] quiet_trans by (simp, blast)
qed (auto intro: quiet_same)

end

sublocale served_kernel \<subseteq> calm: command_closed env "quiet w0" "\<lambda>c. True" for w0
proof
  fix w h p lv m u a i n r c
  assume q: "quiet w0 w"
  note k = quiet_kinv [OF q] and t = quiet_trans [OF q]
  show "quiet w0 (db_exec env c w)" using more_frame [OF db_exec_more, of env c w] k by (intro t quiet_same) simp_all
  show "quiet w0 (respond env h p w)" using respond_quiet [OF k] by (rule t)
  show "quiet w0 (logger_log env lv m w)" "quiet w0 (addSession u h w)" "quiet w0 (removeSession u h w)"
    using k by (intro t quiet_same; simp)+
  show "quiet w0 (upd_handler h (\<lambda>c. c\<lparr>authed := a, userId := i, username := n, role := r\<rparr>) w)"
    using k by (intro t quiet_frame) (auto simp: socket_kept_def split: option.splits)
  show "quiet w0 (snd (deliverToUser env u p w))"
    using deliver_loop_quiet [OF k] k by (auto simp: deliverToUser_def intro: t quiet_same split: option.splits)
  show "quiet w0 (snd (disconnectUser env u w))"
    using disconnect_loop_quiet [OF k] k by (auto simp: disconnectUser_def intro: t quiet_same split: option.splits)
qed simp

context kernel_stream
begin

lemma receive_native_loop_frame:
  assumes "kinv k" "receive_native_loop sys fd k buf len received = (n, r, buf', k')"
  shows "kinv k' \<and> (\<forall>fd'. fd' \<noteq> fd \<longrightarrow> inq k' fd' = inq k fd')"
  using assms
proof (induction "len - received" arbitrary: k buf received rule: less_induct)
  case less
  obtain m bytes k1 where s: "sys_recv sys k fd (len - received) = (m, bytes, k1)" by (metis prod_cases3)
  note c = recv_contract [OF less.prems(1) s]
  show ?case
  proof (cases "received < len \<and> 0 < m")
    case True
    with s less.prems(2) have "receive_native_loop sys fd k1 (blit buf received bytes) len (received + nat m) = (n, r, buf', k')"
      by (auto simp: receive_native_loop.simps [of sys fd k] recvNative_def)
    with less.hyps [of "received + nat m" k1] True c show ?thesis by auto
  next
    case False
    with s less.prems c show ?thesis
      by (auto simp: receive_native_loop.simps [of sys fd k] recvNative_def split: if_splits)
  qed
qed

lemma receiveFrame_native_frame:
  assumes "kinv k" "receiveFrame_native sys fd k m = (st, p, k')"
  shows "kinv k' \<and> (\<forall>fd'. fd' \<noteq> fd \<longrightarrow> inq k' fd' = inq k fd')"
proof -
  obtain n r header k1 where hd: "receive_native_loop sys fd k
      (replicate kFrameHeaderSize (CHR 0x00)) kFrameHeaderSize 0 = (n, r, header, k1)"
    by (metis prod_cases4)
  let ?n = "unat (readBigEndian32 header)"
  obtain n' r' buf k2 where pl: "receive_native_loop sys fd k1 (replicate ?n (CHR 0x00)) ?n 0 = (n', r', buf, k2)"
    by (metis prod_cases4)
  note f1 = receive_native_loop_frame [OF assms(1) hd]
  note f2 = receive_native_loop_frame [OF conjunct1 [OF f1] pl]
  show ?thesis
    using assms(2) f1 f2 by (auto simp: receiveFrame_native_def hd pl Let_def split: if_splits)
qed

lemma receiveFrame_native_consumes:
  assumes "kinv k" "receiveFrame_native sys fd k m = (RF_Ok, p, k')"
  shows "inq k fd = encodeFrame p @ inq k' fd"
proof -
  have "receiveFrame (native_recv sys fd) k m = (RF_Ok, p, k')"
    using receiveFrame_native_sim [OF assms(2)] by auto
  then show ?thesis using stream_socket.receiveFrame_Ok [OF native_stream assms(1)] by blast
qed

end

context served_kernel
begin

definition alone :: "nat \<Rightarrow> ('k, 'z) world_scheme \<Rightarrow> bool" where
  "alone h w \<longleftrightarrow> isValidSocket (clientSocket (this h w)) \<longrightarrow>
     (\<forall>h' c'. handlers w h' = Some c' \<longrightarrow> clientSocket c' = clientSocket (this h w) \<longrightarrow> h' = h)"

definition left :: "nat \<Rightarrow> ('k, 'z) world_scheme \<Rightarrow> nat" where
  "left h w = length (inq (kernel w) kInvalidSocket)
     + (if isValidSocket (clientSocket (this h w)) then Suc (length (inq (kernel w) (clientSocket (this h w)))) else 0)"

lemma quiet_left:
  assumes "quiet w w'" "alone h w" "handlers w h = Some c"
  shows "left h w' \<le> left h w" "alone h w'" "\<exists>c'. handlers w' h = Some c'"
proof -
  have kept: "socket_kept (handlers w h') (handlers w' h')" for h' using assms(1) by (simp add: quiet_def)
  obtain c' where c': "handlers w' h = Some c'" "clientSocket c' = clientSocket c \<or> clientSocket c' = kInvalidSocket"
    using kept [of h] assms(3) by (auto simp: socket_kept_def split: option.splits)
  then show "\<exists>c'. handlers w' h = Some c'" by blast
  have inv: "inq (kernel w') kInvalidSocket = inq (kernel w) kInvalidSocket"
    using assms(1) by (auto simp: quiet_def cut_def)
  have same: "inq (kernel w') (clientSocket c) = inq (kernel w) (clientSocket c)"
    if "clientSocket c' = clientSocket c" "isValidSocket (clientSocket c)"
  proof -
    have "\<not> cut w w' (clientSocket c)"
    proof
      assume "cut w w' (clientSocket c)"
      then obtain h1 c1 c1' where h1: "handlers w h1 = Some c1" "clientSocket c1 = clientSocket c"
        "handlers w' h1 = Some c1'" "clientSocket c1' = kInvalidSocket" by (auto simp: cut_def)
      with assms(2,3) that(2) have "h1 = h" by (simp add: alone_def)
      with h1 c'(1) that show False by simp
    qed
    then show ?thesis using assms(1) by (auto simp: quiet_def)
  qed
  have obj: "this h w = c" "this h w' = c'" using assms(3) c'(1) by simp_all
  show "left h w' \<le> left h w"
    using c'(2) inv same by (cases "clientSocket c' = clientSocket c") (simp_all add: left_def obj)
  show "alone h w'"
    unfolding alone_def
  proof (intro impI allI)
    fix h' c1
    assume v: "isValidSocket (clientSocket (this h w'))" "handlers w' h' = Some c1" "clientSocket c1 = clientSocket (this h w')"
    with c' have eq: "clientSocket c1 = clientSocket c" "isValidSocket (clientSocket c)" by auto
    obtain c0 where "handlers w h' = Some c0" "clientSocket c0 = clientSocket c"
      using kept [of h'] v(2) eq by (auto simp: socket_kept_def split: option.splits)
    with assms(2,3) eq(2) show "h' = h" by (auto simp: alone_def)
  qed
qed

lemma run_step_progress:
  assumes "kinv (kernel w)" "handlers w h = Some c" "alone h w" "run_step env h w = (True, w')"
  shows "left h w' < left h w" "alone h w'" "\<exists>c'. handlers w' h = Some c'" "kinv (kernel w')"
proof -
  obtain fr k where r: "receiveFrame_native (os env) (clientSocket c) (kernel w) (ch_maxFrameSize c) = (RF_Ok, fr, k)"
    and w': "w' = dispatch env h fr (w\<lparr>kernel := k\<rparr>)"
    using assms(2,4) by (auto simp: run_step_def Let_def split: prod.splits if_splits)
  let ?w1 = "w\<lparr>kernel := k\<rparr>"
  note f = receiveFrame_native_frame [OF assms(1) r] and g = receiveFrame_native_consumes [OF assms(1) r]
  have h1: "handlers ?w1 h = Some c" using assms(2) by simp
  have "length (inq k (clientSocket c)) < length (inq (kernel w) (clientSocket c))"
    using g by (simp add: kFrameHeaderSize_def)
  moreover have "inq k kInvalidSocket = inq (kernel w) kInvalidSocket" if "isValidSocket (clientSocket c)"
    using f that by (auto simp: isValidSocket_def)
  moreover have "clientSocket c = kInvalidSocket" if "\<not> isValidSocket (clientSocket c)"
    using that by (simp add: isValidSocket_def)
  ultimately have "left h ?w1 < left h w"
    using assms(2) by (cases "isValidSocket (clientSocket c)") (auto simp: left_def this_def)
  moreover have "alone h ?w1" using assms(3) by (simp add: alone_def this_def)
  moreover have "quiet ?w1 w'"
    unfolding w' using f by (intro calm.Q_dispatch quiet_same) (simp_all add: calm.frame_allowed_def)
  note quiet_left [OF this _ h1] quiet_kinv [OF this]
  ultimately show "left h w' < left h w" "alone h w'" "\<exists>c'. handlers w' h = Some c'" "kinv (kernel w')" by auto
qed

lemma run_loop_ends:
  "kinv (kernel w) \<Longrightarrow> handlers w h = Some c \<Longrightarrow> alone h w \<Longrightarrow> left h w < fuel \<Longrightarrow> \<exists>w'. run_loop env h fuel w = Some w'"
proof (induction fuel arbitrary: w c)
  case (Suc fuel)
  obtain b w1 where s: "run_step env h w = (b, w1)" by fastforce
  show ?case
  proof (cases b)
    case True
    then have "run_step env h w = (True, w1)" using s by simp
    note p = run_step_progress [OF Suc.prems(1-3) this]
    with Suc.prems(4) Suc.IH [of w1] show ?thesis using s True by auto
  qed (use s in simp)
qed simp

end

interpretation demo_kernel: served_kernel demo_srv_env mk_out mk_in "\<lambda>k fd. True" "\<lambda>k. True"
  by unfold_locales (auto simp: demo_srv_env_def demo_os_def memk_send_def memk_recv_def Let_def)


end
