(* ===== verification/Handler_Witnesses.thy ===== *)
theory Handler_Witnesses
  imports Handler_Termination
begin

text \<open>
  A concrete room, an administrator and a user logged in on two connections, on which the properties
  of the handlers and of the running server are applied.
\<close>

definition demo_rows :: tables where
  "demo_rows = \<lparr>t_users =
     [\<lparr>u_id = 1, u_login = ''alice'', u_password_hash = ''abpassword12'', u_role = ''admin'', u_status = ''online'',
       u_created_at = 0, u_updated_at = 0, u_last_seen = None\<rparr>,
      \<lparr>u_id = 2, u_login = ''bob'', u_password_hash = ''abpassword34'', u_role = ''user'', u_status = ''online'',
       u_created_at = 0, u_updated_at = 0, u_last_seen = None\<rparr>],
     t_messages = [], t_audit = []\<rparr>"

definition alice_handler :: ClientHandler where
  "alice_handler = \<lparr>clientSocket = 5, ch_maxFrameSize = 64, authed = True, userId = 1, username = ''alice'', role = ''admin''\<rparr>"

definition bob_handler :: ClientHandler where
  "bob_handler = \<lparr>clientSocket = 6, ch_maxFrameSize = 64, authed = True, userId = 2, username = ''bob'', role = ''user''\<rparr>"

definition demo_room :: "memk server" where
  "demo_room = (demo_process [])\<lparr>tables := demo_rows, users_seq := 2,
     handlers := [1 \<mapsto> alice_handler, 2 \<mapsto> bob_handler], sessions := [1 \<mapsto> [1], 2 \<mapsto> [2]]\<rparr>"

lemma demo_room_fields:
  "handlers demo_room 1 = Some alice_handler" "handlers demo_room 2 = Some bob_handler" "tables demo_room = demo_rows"
  "seqs demo_room = (2, 0, 0, 0)" "view demo_room 1 = [1]" "view demo_room 2 = [2]" "\<not> dangling demo_room"
  "outcomes demo_room = []"
  by (simp_all add: demo_room_def demo_process_def seqs_def view_def)

lemma demo_room_wf: "db_wf (seqs demo_room) (tables demo_room)"
  by (simp add: demo_room_fields demo_rows_def user_ok_def isValidLogin_def login_char_def isalnum_def isalpha_def isdigit_def)

lemma demo_room_logins: "logins_ok demo_room"
proof -
  have "{h. auth_of (handlers demo_room) h = Some u} = (if u = 1 then {1} else if u = 2 then {2} else {})" for u
    by (auto simp: auth_of_def demo_room_def demo_process_def alice_handler_def bob_handler_def split: if_splits)
  moreover have "view demo_room u = (if u = 1 then [1] else if u = 2 then [2] else [])" for u
    by (simp add: view_def demo_room_def demo_process_def)
  moreover have "registry_tight demo_room"
    by (auto simp: registry_tight_def demo_room_def demo_process_def nullptr_def split: if_splits)
  moreover have "handlers demo_room nullptr = None" by (simp add: demo_room_def demo_process_def nullptr_def)
  ultimately show ?thesis by (simp add: logins_ok_def reg.shows_logins_def demo_room_fields)
qed

theorem moderation_needs_role_witness:
  "tables (dispatch demo_srv_env 2 ''BAN alice'' demo_room) = demo_rows"
proof -
  have "\<not> moderator_row (userId bob_handler) (tables demo_room)"
    by (simp add: moderator_row_def demo_room_fields demo_rows_def bob_handler_def)
  moreover have "fst (extract_word ''BAN alice'') \<in> {''BAN'', ''UNBAN'', ''KICK'', ''ALL_MESSAGES''}" by code_simp
  ultimately show ?thesis
    using moderation_needs_role [OF demo_room_fields(2), of "''BAN alice''" demo_srv_env]
    by (auto simp: sends_only_def demo_room_fields)
qed

theorem commands_need_login_witness:
  "tables (dispatch demo_srv_env 1 ''LIST'' (demo_client [])) = tables (demo_client [])"
proof -
  have h: "handlers (demo_client []) 1 = Some (mk_ClientHandler 5 (cfg_maxFrameSize demo_config))"
    using mk_Server_frame [OF demo_server_ok, of "[]"]
    by (simp add: demo_client_def construct_step_def accept_step_def demo_srv_env_def demo_os_def isValidSocket_def kInvalidSocket_def
          demo_process_def demo_config_def)
  have "fst (extract_word ''LIST'') \<notin> {''REGISTER'', ''LOGIN''}" by code_simp
  then show ?thesis
    using commands_need_login [OF h, of "''LIST''" demo_srv_env] by (auto simp: sends_only_def mk_ClientHandler_def)
qed

theorem commands_read_back_witness:
  "dispatch demo_srv_env 1 ''MESSAGE bob  hi '' demo_room = handleMessage demo_srv_env 1 ''bob'' '' hi '' demo_room"
proof -
  have "isValidLogin ''bob''" by code_simp
  then show ?thesis using commands_read_back [of "''bob''" "'' hi ''" "''x''" demo_srv_env 1 demo_room]
    by (simp add: isspace_def)
qed


theorem deliver_reaches_every_session_witness:
  "\<exists>w'. deliverToUser demo_srv_env 2 ''MESSAGE alice hi'' demo_room = (1, w')"
  using deliver_reaches_every_session [OF demo_kernel.kernel_stream_axioms TrueI demo_room_logins, of 2 "''MESSAGE alice hi''"]
  by (auto simp: demo_room_fields socket_of_def reachable_def bob_handler_def isValidSocket_def kInvalidSocket_def)


definition demo_banned :: "memk server" where
  "demo_banned = demo_room\<lparr>tables := set_users (\<lambda>u. u_login u = ''bob'') (\<lambda>now u. u\<lparr>u_status := ''banned''\<rparr>) 0 demo_rows\<rparr>"


end
