(* ===== verification/Server_Fine.thy ===== *)
theory Server_Fine
  imports Server_Props
begin

text \<open>
  The server with the loops of \<open>SessionRegistry\<close> cut into steps. \<open>deliverToUser\<close> and \<open>disconnectUser\<close> copy the list of
  sessions under the registry's lock and call the handlers of the copy without it; between two such calls every
  other thread may run. A \<open>MESSAGE\<close>, \<open>BAN\<close> or \<open>KICK\<close> is therefore a first part that ends with the copy, then one step
  for each handler of the copy, then the answer. Whole commands are recovered by running the steps without a break.
\<close>

subsection \<open>Calls into the registry\<close>

text \<open>A call that has made its copy: the payload and the handlers still to be served, or the handlers still to be
  disconnected and the answer to the moderator.\<close>

datatype registry_call = Delivering string "nat list" | Disconnecting "nat list" string

fun targets :: "registry_call \<Rightarrow> nat list" where
  "targets (Delivering payload hs) = hs"
| "targets (Disconnecting hs answer) = hs"

text \<open>One iteration of the loop, or what follows it; \<open>h\<close> is the caller's handler.\<close>

fun call_step ::
  "('k, 'e) srv_env_scheme \<Rightarrow> nat \<Rightarrow> registry_call \<Rightarrow> ('k, 'z) world_scheme \<Rightarrow> registry_call option \<times> ('k, 'z) world_scheme" where
  "call_step env h (Delivering payload []) w = (None, w)"
| "call_step env h (Delivering payload (x # xs)) w =
     (Some (Delivering payload xs), if x = nullptr then w else snd (deliverFrame env x payload w))"
| "call_step env h (Disconnecting [] answer) w = (None, respond env h answer w)"
| "call_step env h (Disconnecting (x # xs) answer) w =
     (Some (Disconnecting xs answer), if x = nullptr then w else disconnectFromAdmin env x w)"

fun call_rest :: "('k, 'e) srv_env_scheme \<Rightarrow> nat \<Rightarrow> registry_call \<Rightarrow> ('k, 'z) world_scheme \<Rightarrow> ('k, 'z) world_scheme" where
  "call_rest env h (Delivering payload hs) w = snd (deliver_loop env payload hs 0 w)"
| "call_rest env h (Disconnecting hs answer) w = respond env h answer (disconnect_loop env hs w)"

definition begin_message ::
  "('k, 'e) srv_env_scheme \<Rightarrow> nat \<Rightarrow> string \<Rightarrow> string \<Rightarrow> ('k, 'z) world_scheme \<Rightarrow> registry_call option \<times> ('k, 'z) world_scheme" where
  "begin_message env h to text w =
     (case requireAuth env h w of
        (False, w1) \<Rightarrow> (None, w1)
      | (True, w1) \<Rightarrow>
          case sendMessage env (userId (this h w1)) to text w1 of (result, w2) \<Rightarrow>
            if res_status result \<noteq> DB_Ok
            then (None, respond env h (''MESSAGE_ERROR '' @ statusToText (res_status result) @ '' '' @ res_message result) w2)
            else
              case getUserByLogin env to (respond env h (''MESSAGE_OK '' @ to_string (res_id result)) w2) of
                (None, w3) \<Rightarrow> (None, w3)
              | (Some receiver, w3) \<Rightarrow>
                  (map_option (Delivering (''MESSAGE '' @ username (this h w3) @ '' '' @ text)) (sessions w3 (us_id receiver)), w3))"

definition begin_ban ::
  "('k, 'e) srv_env_scheme \<Rightarrow> nat \<Rightarrow> string \<Rightarrow> ('k, 'z) world_scheme \<Rightarrow> registry_call option \<times> ('k, 'z) world_scheme" where
  "begin_ban env h login w =
     (case requireModerator env h w of
        (False, w1) \<Rightarrow> (None, w1)
      | (True, w1) \<Rightarrow>
          case banUser env (userId (this h w1)) login w1 of (result, w2) \<Rightarrow>
            if res_status result = DB_Ok
            then (case if res_id result \<ge> 0 then sessions w2 (res_id result) else None of
                    Some hs \<Rightarrow> (Some (Disconnecting hs ''OK''), w2)
                  | None \<Rightarrow> (None, respond env h ''OK'' w2))
            else (None, respond env h (error_text result) w2))"

definition begin_kick ::
  "('k, 'e) srv_env_scheme \<Rightarrow> nat \<Rightarrow> string \<Rightarrow> ('k, 'z) world_scheme \<Rightarrow> registry_call option \<times> ('k, 'z) world_scheme" where
  "begin_kick env h login w =
     (case requireModerator env h w of
        (False, w1) \<Rightarrow> (None, w1)
      | (True, w1) \<Rightarrow>
          case kickUser env (userId (this h w1)) login w1 of (result, w2) \<Rightarrow>
            if res_status result \<noteq> DB_Ok then (None, respond env h (error_text result) w2)
            else case sessions w2 (res_id result) of
                Some hs \<Rightarrow>
                  (Some (Disconnecting hs (if length hs > 0 then ''OK'' else ''ERROR_NOT_FOUND active session not found'')), w2)
              | None \<Rightarrow> (None, respond env h ''ERROR_NOT_FOUND active session not found'' w2))"

definition begin_dispatch ::
  "('k, 'e) srv_env_scheme \<Rightarrow> nat \<Rightarrow> string \<Rightarrow> ('k, 'z) world_scheme \<Rightarrow> registry_call option \<times> ('k, 'z) world_scheme" where
  "begin_dispatch env h frame w =
     (case extract_word frame of (cmd, iss) \<Rightarrow>
        if cmd = ''MESSAGE'' then
          (case extract_word iss of (to, iss1) \<Rightarrow> begin_message env h to (tail iss1) w)
        else if cmd = ''BAN'' then begin_ban env h (fst (extract_word iss)) w
        else if cmd = ''KICK'' then begin_kick env h (fst (extract_word iss)) w
        else (None, dispatch env h frame w))"

text \<open>\<open>run_step\<close> up to the copy of a registry call.\<close>

definition begin_step ::
  "('k, 'e) srv_env_scheme \<Rightarrow> nat \<Rightarrow> ('k, 'z) world_scheme \<Rightarrow> bool \<times> registry_call option \<times> ('k, 'z) world_scheme" where
  "begin_step env h w =
     (case receiveFrame_native (os env) (clientSocket (this h w)) (kernel w) (ch_maxFrameSize (this h w)) of
        (status, frame, k) \<Rightarrow>
          if status = RF_Ok then (True, begin_dispatch env h frame (w\<lparr>kernel := k\<rparr>))
          else (False, None, snd (run_step env h w)))"

subsection \<open>Steps recompose to commands\<close>

fun complete :: "('k, 'e) srv_env_scheme \<Rightarrow> nat \<Rightarrow> registry_call option \<times> ('k, 'z) world_scheme \<Rightarrow> ('k, 'z) world_scheme" where
  "complete env h (None, w) = w"
| "complete env h (Some c, w) = call_rest env h c w"

lemma deliver_count: "snd (deliver_loop env payload hs n w) = snd (deliver_loop env payload hs 0 w)"
proof (induction hs arbitrary: n w)
  case (Cons x xs)
  obtain ok w1 where d: "deliverFrame env x payload w = (ok, w1)" by fastforce
  show ?case
    using Cons.IH [of "if ok then Suc n else n" w1] Cons.IH [of "if ok then Suc 0 else 0" w1] Cons.IH [of n w] d by simp
qed simp

lemma call_step_complete: "complete env h (call_step env h c w) = call_rest env h c w"
  by (cases "(env, h, c, w)" rule: call_step.cases) (auto simp: case_prod_unfold deliver_count [of _ _ _ "Suc 0"])

lemma begin_message_complete: "complete env h (begin_message env h to text w) = handleMessage env h to text w"
  by (auto simp: begin_message_def handleMessage_def deliverToUser_def split: prod.splits bool.splits option.splits)

lemma begin_ban_complete: "complete env h (begin_ban env h login w) = handleBan env h login w"
  by (auto simp: begin_ban_def handleBan_def disconnectUser_def split: prod.splits bool.splits option.splits)

lemma begin_kick_complete: "complete env h (begin_kick env h login w) = handleKick env h login w"
  by (auto simp: begin_kick_def handleKick_def disconnectUser_def split: prod.splits bool.splits option.splits)

lemma begin_dispatch_complete: "complete env h (begin_dispatch env h frame w) = dispatch env h frame w"
  by (auto simp: begin_dispatch_def dispatch_def begin_message_complete begin_ban_complete begin_kick_complete
      split: prod.splits)

lemma begin_step_complete: "run_step env h w = map_prod id (complete env h) (begin_step env h w)"
  by (auto simp: begin_step_def run_step_def Let_def begin_dispatch_complete split: prod.splits)

subsection \<open>The server\<close>

text \<open>\<open>calls\<close> holds the registry call a thread is in. A step needs a state in which nothing was dereferenced after its
  end: after that C++ promises nothing. \<open>G h w\<close> says when the handler \<open>h\<close> may be destroyed; the code asks for nothing.\<close>

record 'k fine_server = "'k server" +
  calls :: "nat \<Rightarrow> registry_call option"

inductive fine_step ::
  "('k, 'e) srv_env_scheme \<Rightarrow> (nat \<Rightarrow> ('k, 'z) fine_server_scheme \<Rightarrow> bool) \<Rightarrow> ('k, 'z) fine_server_scheme
     \<Rightarrow> ('k, 'z) fine_server_scheme \<Rightarrow> bool"
  for env G where
  Fine_accept: "\<not> dangling w \<Longrightarrow> threads w t = None \<Longrightarrow> fine_step env G w (accept_step env t w)"
| Fine_construct: "\<not> dangling w \<Longrightarrow> threads w t = Some (Spawned s) \<Longrightarrow> h \<noteq> nullptr \<Longrightarrow> handlers w h = None \<Longrightarrow>
    fine_step env G w (construct_step env t s h w)"
| Fine_begin: "\<not> dangling w \<Longrightarrow> threads w t = Some (Looping h) \<Longrightarrow> calls w t = None \<Longrightarrow> begin_step env h w = (True, c, w') \<Longrightarrow>
    fine_step env G w (w'\<lparr>calls := (calls w')(t := c)\<rparr>)"
| Fine_call: "\<not> dangling w \<Longrightarrow> threads w t = Some (Looping h) \<Longrightarrow> calls w t = Some c \<Longrightarrow> call_step env h c w = (c', w') \<Longrightarrow>
    fine_step env G w (w'\<lparr>calls := (calls w')(t := c')\<rparr>)"
| Fine_stop: "\<not> dangling w \<Longrightarrow> threads w t = Some (Looping h) \<Longrightarrow> calls w t = None \<Longrightarrow> begin_step env h w = (False, c, w') \<Longrightarrow>
    fine_step env G w (w'\<lparr>threads := (threads w')(t \<mapsto> Ended h)\<rparr>)"
| Fine_finish: "\<not> dangling w \<Longrightarrow> threads w t = Some (Ended h) \<Longrightarrow> G h w \<Longrightarrow> fine_step env G w (finish_step env t h w)"
| Fine_peers: "\<not> dangling w \<Longrightarrow> fine_step env G w (w\<lparr>kernel := k\<rparr>)"

text \<open>No call still has \<open>h\<close> in its copy.\<close>

definition unreferenced :: "nat \<Rightarrow> ('k, 'z) fine_server_scheme \<Rightarrow> bool" where
  "unreferenced h w \<longleftrightarrow> (\<forall>t c. calls w t = Some c \<longrightarrow> h \<notin> set (targets c))"

definition calls_live :: "(nat \<Rightarrow> registry_call option) \<Rightarrow> (nat \<Rightarrow> phase option) \<Rightarrow> nat set \<Rightarrow> bool" where
  "calls_live cs ths H \<longleftrightarrow> (\<forall>t c. cs t = Some c \<longrightarrow> (\<exists>h. ths t = Some (Looping h)) \<and> set (targets c) \<subseteq> insert nullptr H)"

definition fine_ok :: "('k, 'z) fine_server_scheme \<Rightarrow> bool" where
  "fine_ok w \<longleftrightarrow> server_ok w \<and> calls_live (calls w) (threads w) (dom (handlers w))"

lemma calls_liveI:
  assumes "calls_live cs ths H" "\<And>t' c'. cs' t' = Some c' \<Longrightarrow> cs t' \<noteq> None \<and> ths' t' = ths t' \<and> set (targets c') \<subseteq> set (targets (the (cs t')))" "H \<subseteq> H'"
  shows "calls_live cs' ths' H'"
  using assms unfolding calls_live_def by fastforce

subsection \<open>What the parts of a command keep\<close>

text \<open>The first part keeps the registry exact, and the handlers it copies are live.\<close>

lemma copy_live:
  assumes "logins_ok w" "handlers w = H" "sessions w u = Some hs" "x \<in> set hs"
  shows "\<exists>c. H x = Some c"
  using logins_live [OF assms(1), of x u] assms by (auto simp: view_def)

definition copied :: "('k, 'z) world_scheme \<Rightarrow> registry_call option \<times> ('k, 'z) world_scheme \<Rightarrow> bool" where
  "copied w r \<longleftrightarrow> logins_ok (snd r) \<and> dom (handlers (snd r)) = dom (handlers w) \<and> world.more (snd r) = world.more w
     \<and> (\<forall>c. fst r = Some c \<longrightarrow> set (targets c) \<subseteq> dom (handlers w))"

lemma begin_message_copied:
  assumes "logins_ok w" "handlers w h = Some c"
  shows "copied w (begin_message env h to text w)"
proof -
  let ?w1 = "snd (requireAuth env h w)"
  have w1: "logins_ok ?w1" "handlers ?w1 = handlers w" "world.more ?w1 = world.more w"
    using logins_ok_require(1) [OF assms(1), of h env] assms(2) by (simp_all add: live_after)
  let ?w2 = "snd (sendMessage env (userId (this h ?w1)) to text ?w1)"
  have w2: "logins_ok ?w2" "handlers ?w2 = handlers w" "world.more ?w2 = world.more w" using w1 by (simp_all add: logins_ok_calls)
  then have r: "logins_ok (respond env h p ?w2)" for p using assms(2) by (intro logins_ok_rest) simp_all
  let ?w3 = "\<lambda>p. snd (getUserByLogin env to (respond env h p ?w2))"
  have w3: "logins_ok (?w3 p)" "handlers (?w3 p) = handlers w" "world.more (?w3 p) = world.more w" for p
    using r w2 by (simp_all add: logins_ok_calls)
  show ?thesis
    using w1 w2 r w3 copy_live [OF w3(1,2)]
    by (auto simp: begin_message_def copied_def case_prod_unfold simp del: db_sessions db_handlers split: bool.splits option.splits)
qed

lemma begin_moderation_copied:
  assumes "logins_ok w" "handlers w h = Some c"
  shows "copied w (begin_ban env h l w)" "copied w (begin_kick env h l w)"
proof -
  let ?w1 = "snd (requireModerator env h w)"
  have w1: "logins_ok ?w1" "handlers ?w1 = handlers w" "world.more ?w1 = world.more w"
    using logins_ok_require(2) [OF assms(1), of h env] assms(2) by (simp_all add: live_after)
  let ?b = "\<lambda>i. snd (banUser env i l ?w1)" let ?k = "\<lambda>i. snd (kickUser env i l ?w1)"
  have b: "logins_ok (?b i)" "handlers (?b i) = handlers w" "world.more (?b i) = world.more w"
    and k: "logins_ok (?k i)" "handlers (?k i) = handlers w" "world.more (?k i) = world.more w" for i
    using w1 by (simp_all add: logins_ok_calls)
  have r: "logins_ok (respond env h p (?b i))" "logins_ok (respond env h p (?k i))" for p i
    using b k assms(2) by (auto intro!: logins_ok_rest)
  show "copied w (begin_ban env h l w)"
    using w1 b r copy_live [OF b(1,2)]
    by (auto simp: begin_ban_def copied_def case_prod_unfold simp del: db_sessions db_handlers split: bool.splits option.splits if_splits)
  show "copied w (begin_kick env h l w)"
    using w1 k r copy_live [OF k(1,2)]
    by (auto simp: begin_kick_def copied_def case_prod_unfold simp del: db_sessions db_handlers split: bool.splits option.splits if_splits)
qed

lemma begin_step_copied:
  assumes "logins_ok w" "handlers w h = Some c"
  shows "copied w (snd (begin_step env h w))"
proof -
  obtain status frame k where rf: "receiveFrame_native (os env) (clientSocket (this h w)) (kernel w) (ch_maxFrameSize (this h w)) = (status, frame, k)"
    by (metis prod_cases3)
  let ?w = "w\<lparr>kernel := k\<rparr>"
  have w: "logins_ok ?w" "handlers ?w h = Some c" using assms by (simp_all add: logins_ok_kernel)
  have "copied ?w (begin_dispatch env h frame ?w)"
    using begin_message_copied [OF w, of env] begin_moderation_copied [OF w, of env] logins_ok_dispatch [OF w, of env frame]
    by (simp add: begin_dispatch_def case_prod_unfold copied_def dispatch_dom)
  moreover have "copied w (None, snd (run_step env h w))"
    using logins_ok_run_step [OF assms, of env] by (simp add: copied_def run_step_dom)
  ultimately show ?thesis by (simp add: begin_step_def rf copied_def)
qed

text \<open>So does a step of a call whose next handler is live, and the caller's own is.\<close>

lemma call_step_copied:
  assumes "logins_ok w" "handlers w h = Some c" "set (targets call) \<subseteq> insert nullptr (dom (handlers w))"
  shows "logins_ok (snd (call_step env h call w)) \<and> dom (handlers (snd (call_step env h call w))) = dom (handlers w)
    \<and> world.more (snd (call_step env h call w)) = world.more w
    \<and> (\<forall>c'. fst (call_step env h call w) = Some c' \<longrightarrow> set (targets c') \<subseteq> set (targets call))"
proof (cases "(env, h, call, w)" rule: call_step.cases)
  case (2 env' h' p x xs w')
  then show ?thesis
    using assms by (auto simp: deliverFrame_def intro!: logins_ok_frame [OF assms(1)])
next
  case (3 env' h' answer w')
  then show ?thesis using assms by (simp add: logins_ok_rest)
next
  case (4 env' h' x xs answer w')
  have "logins_ok (disconnectFromAdmin env x w)" if "handlers w x \<noteq> None"
  proof (rule logins_ok_same [OF assms(1)])
    show "auth_of (handlers (disconnectFromAdmin env x w)) = auth_of (handlers w)"
      by (auto simp: auth_of_def fun_eq_iff split: option.splits)
  qed (use that assms(1) in \<open>auto simp: logins_ok_def\<close>)
  with 4 show ?thesis using assms by auto
qed (use assms in auto)

subsection \<open>Every interleaving\<close>

lemma fine_more:
  fixes w w' :: "('k, 'z) fine_server_scheme"
  shows "server.more w' = server.more w \<Longrightarrow> calls w' = calls w"
  by (cases w; cases w'; simp)

lemma fine_frame [simp]:
  fixes w :: "('k, 'z) fine_server_scheme"
  shows "calls (logger_log env l m w) = calls w" "calls (accept_step env t w) = calls w"
    "calls (construct_step env t s h w) = calls w" "calls (finish_step env t h w) = calls w"
    "server_ok (w\<lparr>calls := cs\<rparr>) \<longleftrightarrow> server_ok w"
proof -
  show "calls (logger_log env l m w) = calls w" for w :: "('k, 'z) fine_server_scheme" and l m by (simp add: logger_log_def)
  then show "calls (accept_step env t w) = calls w" "calls (construct_step env t s h w) = calls w"
    by (auto simp: accept_step_def construct_step_def Let_def logger_defs split: prod.splits)
  show "calls (finish_step env t h w) = calls w"
    using fine_more [OF server_more(5), of "destroy_ClientHandler env h (run_end env h w)" w] by (simp add: finish_step_def Let_def)
  show "server_ok (w\<lparr>calls := cs\<rparr>) \<longleftrightarrow> server_ok w"
    by (simp add: server_ok_def logins_ok_def reg.shows_logins_def view_def registry_tight_def)
qed

lemma step_handlers:
  "handlers (accept_step env t w) = handlers w" "handlers (construct_step env t s h w) = (handlers w)(h \<mapsto> mk_ClientHandler s (cfg_maxFrameSize (config w)))"
  by (auto simp: accept_step_def construct_step_def Let_def logger_defs split: prod.splits)

lemma fine_ok_part:
  fixes w w' :: "('k, 'z) fine_server_scheme"
  assumes ok: "fine_ok w" and t: "threads w t = Some (Looping h)"
    and w': "logins_ok w'" "dom (handlers w') = dom (handlers w)" "world.more w' = world.more w"
    and c: "\<And>c'. c = Some c' \<Longrightarrow> set (targets c') \<subseteq> insert nullptr (dom (handlers w))"
  shows "fine_ok (w'\<lparr>calls := (calls w')(t := c)\<rparr>)"
proof -
  have m: "threads w' = threads w" "calls w' = calls w" using server_more [OF w'(3)] fine_more [of w' w] by auto
  have "server_ok w'" using server_ok_same [OF _ w'(1,3,2)] ok by (simp add: fine_ok_def)
  then show ?thesis using ok t c by (auto simp: fine_ok_def calls_live_def m w'(2) split: if_splits)
qed

lemma fine_ok_other:
  fixes w w' :: "('k, 'z) fine_server_scheme"
  assumes "fine_ok w" "server_ok w'" "calls w' = calls w" "calls w t = None" "\<And>t'. t' \<noteq> t \<Longrightarrow> threads w' t' = threads w t'"
    and "\<And>x. x \<in> dom (handlers w) \<Longrightarrow> x \<in> dom (handlers w') \<or> unreferenced x w"
  shows "fine_ok w'"
proof -
  have "(\<exists>h. threads w' t' = Some (Looping h)) \<and> set (targets c) \<subseteq> insert nullptr (dom (handlers w'))" if c: "calls w t' = Some c" for t' c
  proof -
    have "t' \<noteq> t" using c assms(4) by auto
    moreover have "(\<exists>h. threads w t' = Some (Looping h)) \<and> set (targets c) \<subseteq> insert nullptr (dom (handlers w))"
      using assms(1) c by (simp add: fine_ok_def calls_live_def)
    moreover have "x \<in> insert nullptr (dom (handlers w'))" if "x \<in> set (targets c)" "x \<in> insert nullptr (dom (handlers w))" for x
      using assms(6) [of x] that c by (auto simp: unreferenced_def)
    ultimately show ?thesis using assms(5) [of t'] by (simp add: subset_eq)
  qed
  then show ?thesis using assms(2,3) by (simp add: fine_ok_def calls_live_def)
qed

lemma no_call: "fine_ok w \<Longrightarrow> (\<And>h. threads w t \<noteq> Some (Looping h)) \<Longrightarrow> calls w t = None"
  unfolding fine_ok_def calls_live_def by (metis not_None_eq)

lemma step_threads:
  "t' \<noteq> t \<Longrightarrow> threads (accept_step env t w) t' = threads w t'" "t' \<noteq> t \<Longrightarrow> threads (construct_step env t s h w) t' = threads w t'"
  "t' \<noteq> t \<Longrightarrow> threads (finish_step env t h w) t' = threads w t'"
  using server_more(4) [of "destroy_ClientHandler env h (run_end env h w)" w]
  by (auto simp: accept_step_def construct_step_def finish_step_def Let_def logger_defs split: prod.splits)

lemma finish_handlers:
  assumes "server_ok w" "threads w t = Some (Ended h)"
  shows "dom (handlers (finish_step env t h w)) = dom (handlers w) - {h}"
proof -
  obtain c where live: "logins_ok w" "handlers w h = Some c" using thread_live [OF assms] by auto
  note e = logins_ok_end [OF live, of env]
  obtain c1 where c1: "handlers (run_end env h w) h = Some c1" using e(2) live(2) by blast
  show ?thesis using logins_ok_destroy(2) [OF e(1) c1, of env] e(2) by (auto simp: finish_step_def Let_def)
qed

lemma begin_stops: "begin_step env h w = (False, c, w') \<Longrightarrow> run_step env h w = (False, w')"
  by (auto simp: begin_step_def run_step_def Let_def split: prod.splits if_splits)

lemma fine_step_ok: "fine_step env unreferenced w w' \<Longrightarrow> fine_ok w \<Longrightarrow> fine_ok w'"
proof (induction rule: fine_step.induct)
  case (Fine_accept w t)
  then have "server_ok (accept_step env t w)" by (intro server_ok_accept) (simp_all add: fine_ok_def)
  from fine_ok_other [OF Fine_accept.prems this, of t] no_call [OF Fine_accept.prems, of t] Fine_accept.hyps
  show ?case by (simp add: step_threads step_handlers)
next
  case (Fine_construct w t s h)
  then have "server_ok (construct_step env t s h w)" by (intro server_ok_construct) (simp_all add: fine_ok_def)
  from fine_ok_other [OF Fine_construct.prems this, of t] no_call [OF Fine_construct.prems, of t] Fine_construct.hyps
  show ?case by (simp add: step_threads step_handlers)
next
  case (Fine_begin w t h c w')
  then obtain x where x: "logins_ok w" "handlers w h = Some x" using thread_live [of w t "Looping h" h] by (auto simp: fine_ok_def)
  from begin_step_copied [OF this, of env] Fine_begin show ?case by (intro fine_ok_part [of w t h]) (auto simp: copied_def)
next
  case (Fine_call w t h c c' w')
  then obtain x where x: "logins_ok w" "handlers w h = Some x" using thread_live [of w t "Looping h" h] by (auto simp: fine_ok_def)
  have l: "set (targets c) \<subseteq> insert nullptr (dom (handlers w))" using Fine_call by (auto simp: fine_ok_def calls_live_def)
  from call_step_copied [OF x l, of env] Fine_call l show ?case by (intro fine_ok_part [of w t h]) auto
next
  case (Fine_stop w t h c w')
  note rs = begin_stops [OF Fine_stop.hyps(4)]
  have so: "server_ok w" using Fine_stop.prems by (simp add: fine_ok_def)
  have m: "calls w' = calls w" using fine_more [OF server_more(5), of w' w] run_more(1) [of env h w] rs by simp
  have d: "dom (handlers w') = dom (handlers w)" using run_step_dom [of env h w] rs by simp
  show ?case
    by (rule fine_ok_other [OF Fine_stop.prems server_ok_stop [OF so Fine_stop.hyps(2) rs], where t = t])
       (use server_ok_command(2) [OF so Fine_stop.hyps(2) rs] Fine_stop.hyps(3) m d in auto)
next
  case (Fine_finish w t h)
  then have so: "server_ok w" by (simp add: fine_ok_def)
  show ?case
    by (rule fine_ok_other [OF Fine_finish.prems server_ok_finish [OF so Fine_finish.hyps(2)], where t = t])
       (use finish_handlers [OF so Fine_finish.hyps(2), of env] no_call [OF Fine_finish.prems, of t] Fine_finish.hyps in
         \<open>auto simp: step_threads\<close>)
next
  case (Fine_peers w k)
  then show ?case by (auto simp: fine_ok_def server_ok_def intro: logins_ok_kernel)
qed

lemma fine_run_ok: "(fine_step env unreferenced)\<^sup>*\<^sup>* w w' \<Longrightarrow> fine_ok w \<Longrightarrow> fine_ok w'"
  by (induction rule: rtranclp_induct) (auto intro: fine_step_ok)

lemma mk_Server_calls:
  fixes w :: "('k, 'z) fine_server_scheme"
  assumes "mk_Server env connect cfg w = (Inr (), w')"
  shows "calls w' = calls w"
proof -
  let ?w0 = "w\<lparr>config := cfg, serverSocket := kInvalidSocket, activeClients := 0, threads := Map.empty\<rparr>"
  let ?w1 = "snd (ping env (logger_configure env (cfg_logPath cfg) ?w0))"
  have "initSocket env ?w1 = (Inr (), w')"
    using assms by (auto simp: mk_Server_def Let_def split: sum.splits prod.splits bool.splits)
  then have "calls w' = calls ?w1"
    by (auto simp: initSocket_def Let_def logger_defs split: prod.splits if_splits)
  moreover have "world.more ?w1 = world.more (logger_configure env (cfg_logPath cfg) ?w0)" by simp
  then have "calls ?w1 = calls (logger_configure env (cfg_logPath cfg) ?w0)" by (intro fine_more server_more)
  moreover have "calls (logger_configure env (cfg_logPath cfg) ?w0) = calls w" by (auto simp: logger_configure_def split: option.splits)
  ultimately show ?thesis by simp
qed

lemma mk_Server_fine_ok:
  assumes "fresh_process w" "calls w = Map.empty" "mk_Server env connect cfg w = (Inr (), w')"
  shows "fine_ok w'"
  using mk_Server_ok [OF assms(1,3)] mk_Server_calls [OF assms(3)] assms(2) by (simp add: fine_ok_def calls_live_def)

text \<open>(C2) Safety at the granularity of the registry's lock. From the start of the process, over every interleaving of the
  threads in which a delivery or a disconnection is one step for each session of its copy: as long as no handler is
  destroyed while a call still has it in its copy, no freed \<open>ClientHandler\<close> is ever dereferenced, the registry lists
  exactly the live handlers that are logged in, and the number of clients is that of the threads and within its limit.
  The code does not see to that proviso.\<close>

theorem fine_server_safe:
  assumes "fresh_process w" "calls w = Map.empty" "mk_Server env connect cfg w = (Inr (), w0)"
    "(fine_step env unreferenced)\<^sup>*\<^sup>* w0 w'"
  shows "\<not> dangling w'
    \<and> (\<forall>u. distinct (view w' u) \<and> set (view w' u) = {h. \<exists>c. handlers w' h = Some c \<and> authed c \<and> userId c = u})
    \<and> activeClients w' = int (card (dom (threads w'))) \<and> activeClients w' \<le> max 0 (cfg_maxClients (config w'))
    \<and> (\<forall>t c. calls w' t = Some c \<longrightarrow> (\<forall>x\<in>set (targets c). x \<noteq> nullptr \<longrightarrow> handlers w' x \<noteq> None))"
proof -
  have ok: "fine_ok w'" using fine_run_ok [OF assms(4) mk_Server_fine_ok [OF assms(1-3)]] .
  have "{h. auth_of (handlers w') h = Some u} = {h. \<exists>c. handlers w' h = Some c \<and> authed c \<and> userId c = u}" for u
    by (auto simp: auth_of_def split: option.splits if_splits)
  moreover have "handlers w' x \<noteq> None" if "calls w' t = Some c" "x \<in> set (targets c)" "x \<noteq> nullptr" for t c x
    using ok that unfolding fine_ok_def calls_live_def by blast
  ultimately show ?thesis
    using ok by (auto simp: fine_ok_def server_ok_def logins_ok_def reg.shows_logins_def counted_def)
qed

subsection \<open>Whole commands are runs of the steps\<close>

lemma calls_commute:
  fixes w :: "('k, 'z) fine_server_scheme"
  shows "sendResponse env h p (w\<lparr>calls := cs\<rparr>) = map_prod id (\<lambda>w. w\<lparr>calls := cs\<rparr>) (sendResponse env h p w)"
    "respond env h p (w\<lparr>calls := cs\<rparr>) = (respond env h p w)\<lparr>calls := cs\<rparr>"
    "disconnectFromAdmin env h (w\<lparr>calls := cs\<rparr>) = (disconnectFromAdmin env h w)\<lparr>calls := cs\<rparr>"
  by (auto simp: disconnectFromAdmin_def respond_def sendResponse_def close_client_def upd_handler_def split: option.splits prod.splits)

lemma call_step_commute:
  fixes w :: "('k, 'z) fine_server_scheme"
  shows "call_step env h c (w\<lparr>calls := cs\<rparr>) = map_prod id (\<lambda>w. w\<lparr>calls := cs\<rparr>) (call_step env h c w)"
  by (cases "(env, h, c, w)" rule: call_step.cases) (auto simp: calls_commute deliverFrame_def)

lemma call_rest_commute:
  fixes w :: "('k, 'z) fine_server_scheme"
  shows "call_rest env h c (w\<lparr>calls := cs\<rparr>) = (call_rest env h c w)\<lparr>calls := cs\<rparr>"
proof -
  have "deliver_loop env p hs n (w\<lparr>calls := cs\<rparr>) = map_prod id (\<lambda>w. w\<lparr>calls := cs\<rparr>) (deliver_loop env p hs n w)"
    for p hs n and w :: "('k, 'z) fine_server_scheme"
    by (induction hs arbitrary: n w) (auto simp: deliverFrame_def calls_commute split: prod.splits)
  moreover have "disconnect_loop env hs (w\<lparr>calls := cs\<rparr>) = (disconnect_loop env hs w)\<lparr>calls := cs\<rparr>"
    for hs and w :: "('k, 'z) fine_server_scheme"
    by (induction hs arbitrary: w) (auto simp: calls_commute)
  ultimately show ?thesis by (cases c) (simp_all add: calls_commute)
qed

lemma call_step_shorter: "call_step env h c w = (Some c', w') \<Longrightarrow> length (targets c') < length (targets c)"
  by (cases "(env, h, c, w)" rule: call_step.cases) auto

text \<open>A call runs to its end when nothing interrupts it.\<close>

lemma call_runs:
  fixes w :: "('k, 'z) fine_server_scheme"
  assumes "fine_ok w" "threads w t = Some (Looping h)" "calls w t = Some c"
  shows "(fine_step env unreferenced)\<^sup>*\<^sup>* w ((call_rest env h c w)\<lparr>calls := (calls w)(t := None)\<rparr>)"
  using assms
proof (induction "length (targets c)" arbitrary: c w rule: less_induct)
  case less
  obtain c' w' where s: "call_step env h c w = (c', w')" by fastforce
  let ?w = "w'\<lparr>calls := (calls w')(t := c')\<rparr>"
  obtain x where x: "logins_ok w" "handlers w h = Some x"
    using thread_live [of w t "Looping h" h] less.prems by (auto simp: fine_ok_def)
  have "set (targets c) \<subseteq> insert nullptr (dom (handlers w))" using less.prems by (auto simp: fine_ok_def calls_live_def)
  from call_step_copied [OF x this, of env] s have m: "world.more w' = world.more w" by simp
  then have cw: "calls w' = calls w" "threads w' = threads w" using server_more [OF m] fine_more by blast+
  have "\<not> dangling w" using x(1) by (simp add: logins_ok_def)
  then have step: "fine_step env unreferenced w ?w" using less.prems(2,3) s by (rule Fine_call)
  have rest: "call_rest env h c w = complete env h (c', w')" using call_step_complete [of env h c w] s by simp
  show ?case
  proof (cases c')
    case None
    then show ?thesis using step rest cw by auto
  next
    case (Some d)
    have "(fine_step env unreferenced)\<^sup>*\<^sup>* ?w ((call_rest env h d ?w)\<lparr>calls := (calls ?w)(t := None)\<rparr>)"
      using less.hyps [of d ?w] call_step_shorter [of env h c w d w'] s Some fine_step_ok [OF step less.prems(1)] less.prems(2) cw by simp
    with step Some rest cw show ?thesis by (auto simp: call_rest_commute intro: converse_rtranclp_into_rtranclp)
  qed
qed

lemma command_runs:
  fixes w :: "('k, 'z) fine_server_scheme"
  assumes ok: "fine_ok w" and t: "threads w t = Some (Looping h)" "calls w t = None" and r: "run_step env h w = (True, w')"
  shows "(fine_step env unreferenced)\<^sup>*\<^sup>* w w'"
proof -
  obtain c w1 where b: "begin_step env h w = (True, c, w1)" "complete env h (c, w1) = w'"
    using r begin_step_complete [of env h w] by (cases "begin_step env h w") auto
  let ?w = "w1\<lparr>calls := (calls w1)(t := c)\<rparr>"
  obtain x where x: "logins_ok w" "handlers w h = Some x" using thread_live [of w t "Looping h" h] ok t by (auto simp: fine_ok_def)
  have "world.more w1 = world.more w" using begin_step_copied [OF x, of env] b(1) by (simp add: copied_def)
  then have cw: "calls w1 = calls w" "threads w1 = threads w" using server_more [of w1 w] fine_more by blast+
  have "\<not> dangling w" using x(1) by (simp add: logins_ok_def)
  then have step: "fine_step env unreferenced w ?w" using t b(1) by (rule Fine_begin)
  show ?thesis
  proof (cases c)
    case None
    then have "?w = w'" using b(2) cw t(2) by (simp add: fun_upd_idem)
    then show ?thesis using step by auto
  next
    case (Some d)
    have "(fine_step env unreferenced)\<^sup>*\<^sup>* ?w ((call_rest env h d ?w)\<lparr>calls := (calls ?w)(t := None)\<rparr>)"
      using call_runs [OF fine_step_ok [OF step ok], of t h d env] t(1) cw Some by simp
    moreover have "(call_rest env h d ?w)\<lparr>calls := (calls ?w)(t := None)\<rparr> = w'"
    proof (rule trans)
      show "(call_rest env h d ?w)\<lparr>calls := (calls ?w)(t := None)\<rparr> = w'\<lparr>calls := (calls w)(t := None)\<rparr>"
        using b(2) Some cw by (simp add: call_rest_commute)
      have "(calls w)(t := None) = calls w'"
        using t(2) fine_more [OF server_more(5), of w' w] run_more(1) [of env h w] r by (simp add: fun_upd_idem)
      then show "w'\<lparr>calls := (calls w)(t := None)\<rparr> = w'" by simp
    qed
    ultimately show ?thesis using step by (metis converse_rtranclp_into_rtranclp)
  qed
qed

lemma server_step_fine:
  fixes w w' :: "('k, 'z) fine_server_scheme"
  assumes "server_step env P w w'" "fine_ok w" "calls w = Map.empty"
  shows "(fine_step env unreferenced)\<^sup>*\<^sup>* w w' \<and> calls w' = Map.empty"
  using assms
proof (cases rule: server_step.cases)
  case (Command t h)
  moreover have "calls w' = calls w" using fine_more [OF server_more(5), of w' w] run_more(1) [of env h w] Command by simp
  ultimately show ?thesis using command_runs [OF assms(2), of t h env w'] assms(3) by simp
next
  case (Stop t h w1)
  have "begin_step env h w = (False, None, w1)"
    using Stop(3) by (auto simp: begin_step_def run_step_def Let_def split: prod.splits if_splits)
  moreover have "calls w1 = calls w" using fine_more [OF server_more(5), of w1 w] run_more(1) [of env h w] Stop by simp
  moreover have "\<not> dangling w" using assms(2) by (simp add: fine_ok_def server_ok_def logins_ok_def)
  ultimately show ?thesis using Fine_stop [of w t h env None w1 unreferenced] Stop assms(3) by auto
qed (use assms in \<open>auto simp: fine_ok_def server_ok_def logins_ok_def unreferenced_def intro!: r_into_rtranclp fine_step.intros\<close>)

lemma server_run_fine:
  fixes w w' :: "('k, 'z) fine_server_scheme"
  assumes "fine_ok w" "calls w = Map.empty" "(server_step env P)\<^sup>*\<^sup>* w w'"
  shows "(fine_step env unreferenced)\<^sup>*\<^sup>* w w' \<and> calls w' = Map.empty"
  using assms(3)
proof (induction rule: rtranclp_induct)
  case (step y z)
  then show ?case
    using server_step_fine [OF step.hyps(2) fine_run_ok [OF _ assms(1)]] by (auto intro: rtranclp_trans)
qed (use assms(2) in simp)


subsection \<open>A concrete server\<close>

definition demo_fine_process :: "memk fine_server" where
  "demo_fine_process = server.extend (demo_process []) \<lparr>calls = Map.empty\<rparr>"

definition demo_fine_server :: "memk fine_server" where
  "demo_fine_server = snd (mk_Server demo_srv_env (\<lambda>i. Opened) demo_config demo_fine_process)"

definition demo_fine_client :: "memk fine_server" where
  "demo_fine_client = construct_step demo_srv_env 0 5 1 (accept_step demo_srv_env 0 demo_fine_server)"

lemma demo_fine_fresh: "fresh_process demo_fine_process" "calls demo_fine_process = Map.empty" "handlers demo_fine_process = Map.empty"
  by (simp_all add: demo_fine_process_def demo_process_def fresh_process_def server.defs)

lemma demo_fine_ok: "mk_Server demo_srv_env (\<lambda>i. Opened) demo_config demo_fine_process = (Inr (), demo_fine_server)"
  using demo_starts [of demo_fine_process]
  by (simp add: demo_fine_server_def demo_fine_process_def demo_process_def server.defs prod_eq_iff)

lemma demo_fine_connects: "(server_step demo_srv_env P)\<^sup>*\<^sup>* demo_fine_server demo_fine_client"
  unfolding demo_fine_client_def by (rule demo_connects [OF demo_fine_ok demo_fine_fresh(3)])


theorem fine_server_safe_witness: "\<not> dangling demo_fine_client \<and> activeClients demo_fine_client = int (card (dom (threads demo_fine_client)))"
proof -
  have "(fine_step demo_srv_env unreferenced)\<^sup>*\<^sup>* demo_fine_server demo_fine_client"
    using server_run_fine [OF mk_Server_fine_ok [OF demo_fine_fresh(1,2) demo_fine_ok] _ demo_fine_connects]
    by (simp add: mk_Server_calls [OF demo_fine_ok] demo_fine_fresh)
  then show ?thesis using fine_server_safe [OF demo_fine_fresh(1,2) demo_fine_ok] by blast
qed

end
