(* ===== verification/Chat_UI.thy ===== *)
theory Chat_UI
  imports Cxx_Std
begin

text \<open>
  The console of the client and \<open>client/src/UI.cpp\<close>. \<open>std::cin\<close> is the input that is still to come
  (reading blocks until it is there, so only its end is an event) with the stream's \<open>eofbit\<close> and
  \<open>failbit\<close>. What is printed is a list of lines; the fixed (Russian) texts are the constructors of
  \<open>ui_line\<close>, with the parts the program computes as arguments.
\<close>

subsection \<open>Standard input\<close>

datatype ui_line =
    Initial_menu | User_menu string
  | Ask_login | Ask_password | Ask_new_login | Ask_new_password | Ask_target | Ask_message
  | Empty_login | Empty_password | Empty_target | Empty_message
  | Connecting string nat | Connected | Connect_timeout | Send_failed
  | Registration_cancelled | Login_cancelled | Logged_out | Not_logged_in | Bad_choice
  | Bad_frame | Client_ended
  | Registration_ok | Registration_failed string | Login_ok string | Login_failed string
  | Users_begin | User_line string string string string | Users_end
  | Inbox_begin | Inbox_line string string string | Inbox_end
  | Message_line string string | Message_saved | Message_failed string
  | History_begin | History_line string string string string | History_end
  | Kicked_out | Other_line string
  | Usage | Bad_argument | Empty_host | Empty_port | Port_range int | Port_not_number string | Port_out_of_range string
  | Unexpected_error string | Unknown_error

record console =
  cin :: string
  eofbit :: bool
  failbit :: bool
  cout :: "ui_line list"
  con_err :: "ui_line list"

definition good :: "('a) console_scheme \<Rightarrow> bool" where
  "good s \<longleftrightarrow> \<not> eofbit s \<and> \<not> failbit s"

definition print :: "ui_line \<Rightarrow> 'a console_scheme \<Rightarrow> 'a console_scheme" where
  "print l s = s\<lparr>cout := cout s @ [l]\<rparr>"

definition print_err :: "ui_line \<Rightarrow> 'a console_scheme \<Rightarrow> 'a console_scheme" where
  "print_err l s = s\<lparr>con_err := con_err s @ [l]\<rparr>"

text \<open>\<open>std::cin >> c\<close>; \<open>None\<close> when the extraction fails.\<close>

definition cin_char :: "'a console_scheme \<Rightarrow> char option \<times> 'a console_scheme" where
  "cin_char s =
     (if \<not> good s then (None, s\<lparr>failbit := True\<rparr>)
      else case dropWhile isspace (cin s) of
          [] \<Rightarrow> (None, s\<lparr>cin := [], eofbit := True, failbit := True\<rparr>)
        | c # cs \<Rightarrow> (Some c, s\<lparr>cin := cs\<rparr>))"

text \<open>\<open>std::cin >> word\<close> into an empty string.\<close>

definition cin_word :: "'a console_scheme \<Rightarrow> string option \<times> 'a console_scheme" where
  "cin_word s =
     (if \<not> good s then (None, s\<lparr>failbit := True\<rparr>)
      else case extract_word (cin s) of (w, rest) \<Rightarrow>
          if w = [] then (None, s\<lparr>cin := [], eofbit := True, failbit := True\<rparr>)
          else (Some w, s\<lparr>cin := rest, eofbit := (rest = [])\<rparr>))"

text \<open>\<open>std::getline(std::cin, line)\<close>.\<close>

definition cin_getline :: "'a console_scheme \<Rightarrow> string option \<times> 'a console_scheme" where
  "cin_getline s =
     (if \<not> good s then (None, s\<lparr>failbit := True\<rparr>)
      else if cin s = [] then (None, s\<lparr>eofbit := True, failbit := True\<rparr>)
      else (Some (fst (getline (cin s))),
            s\<lparr>cin := snd (getline (cin s)), eofbit := (CHR 0x0A \<notin> set (cin s))\<rparr>))"

text \<open>\<open>std::cin.ignore(max, '\n')\<close>.\<close>

definition cin_ignore_line :: "'a console_scheme \<Rightarrow> 'a console_scheme" where
  "cin_ignore_line s =
     (if \<not> good s then s\<lparr>failbit := True\<rparr>
      else s\<lparr>cin := snd (getline (cin s)), eofbit := (CHR 0x0A \<notin> set (cin s))\<rparr>)"

definition cin_clear :: "'a console_scheme \<Rightarrow> 'a console_scheme" where
  "cin_clear s = s\<lparr>eofbit := False, failbit := False\<rparr>"

subsection \<open>Menus and prompts\<close>

text \<open>The part the two menus share: read the choice and drop the rest of its line.\<close>

definition read_choice :: "'a console_scheme \<Rightarrow> char \<times> 'a console_scheme" where
  "read_choice s =
     (case cin_char s of
        (None, s1) \<Rightarrow> (CHR 0x00, cin_ignore_line (cin_clear s1))
      | (Some c, s1) \<Rightarrow> (tolower c, cin_ignore_line s1))"

definition showInitialMenu :: "'a console_scheme \<Rightarrow> char \<times> 'a console_scheme" where
  "showInitialMenu s = read_choice (print Initial_menu s)"

definition showUserMenu :: "string \<Rightarrow> 'a console_scheme \<Rightarrow> char \<times> 'a console_scheme" where
  "showUserMenu currentUserName s = read_choice (print (User_menu currentUserName) s)"

text \<open>A login and a password, each on a prompt; the empty string when one of them cannot be read.\<close>

definition prompt_credentials :: "ui_line \<Rightarrow> ui_line \<Rightarrow> 'a console_scheme \<Rightarrow> string \<times> 'a console_scheme" where
  "prompt_credentials ask_login ask_password s =
     (case cin_word (print ask_login s) of
        (None, s1) \<Rightarrow> ([], print Empty_login s1)
      | (Some login, s1) \<Rightarrow>
          case cin_word (print ask_password s1) of
            (None, s2) \<Rightarrow> ([], print Empty_password s2)
          | (Some password, s2) \<Rightarrow> (login @ '' '' @ password, cin_ignore_line s2))"

definition promptLogin :: "'a console_scheme \<Rightarrow> string \<times> 'a console_scheme" where
  "promptLogin s = prompt_credentials Ask_login Ask_password s"

definition promptRegistration :: "'a console_scheme \<Rightarrow> string \<times> 'a console_scheme" where
  "promptRegistration s = prompt_credentials Ask_new_login Ask_new_password s"

definition promptTargetUser :: "'a console_scheme \<Rightarrow> string \<times> 'a console_scheme" where
  "promptTargetUser s =
     (case cin_word (print Ask_target s) of
        (None, s1) \<Rightarrow> ([], print Empty_target s1)
      | (Some u, s1) \<Rightarrow> (u, cin_ignore_line s1))"

definition promptMessage :: "'a console_scheme \<Rightarrow> string \<times> 'a console_scheme" where
  "promptMessage s =
     (case cin_getline (print Ask_message s) of
        (None, s1) \<Rightarrow> ([], print Empty_message s1)
      | (Some msg, s1) \<Rightarrow> if msg = [] then ([], print Empty_message s1) else (msg, s1))"

subsection \<open>What the prompts return\<close>

lemma console_frame [simp]:
  "console.more (print l s) = console.more s" "console.more (print_err l s) = console.more s"
  "console.more (cin_ignore_line s) = console.more s" "console.more (cin_clear s) = console.more s"
  "console.more (snd (cin_char s)) = console.more s" "console.more (snd (cin_word s)) = console.more s"
  "console.more (snd (cin_getline s)) = console.more s"
  by (auto simp: print_def print_err_def cin_ignore_line_def cin_clear_def cin_char_def cin_word_def cin_getline_def
      split: list.splits prod.splits)

lemma cin_frame:
  "cin_char s = (c, s1) \<Longrightarrow> console.more s1 = console.more s"
  "cin_word s = (w, s1) \<Longrightarrow> console.more s1 = console.more s"
  "cin_getline s = (w, s1) \<Longrightarrow> console.more s1 = console.more s"
  using console_frame(5-7) [of s] by simp_all

lemma read_choice_frame [simp]: "console.more (snd (read_choice s)) = console.more s"
  by (auto simp: read_choice_def cin_frame split: prod.splits option.splits)

lemma prompt_credentials_frame [simp]: "console.more (snd (prompt_credentials a b s)) = console.more s"
  by (auto simp: prompt_credentials_def dest!: cin_frame(2) split: prod.splits option.splits)

lemma prompt_frame [simp]:
  "console.more (snd (showInitialMenu s)) = console.more s" "console.more (snd (showUserMenu u s)) = console.more s"
  "console.more (snd (promptLogin s)) = console.more s" "console.more (snd (promptRegistration s)) = console.more s"
  "console.more (snd (promptTargetUser s)) = console.more s" "console.more (snd (promptMessage s)) = console.more s"
  by (simp_all add: showInitialMenu_def showUserMenu_def promptLogin_def promptRegistration_def)
     (auto simp: promptTargetUser_def promptMessage_def dest!: cin_frame split: prod.splits option.splits)

text \<open>A word read from the console is not empty and has no blanks.\<close>

definition is_word :: "string \<Rightarrow> bool" where
  "is_word w \<longleftrightarrow> w \<noteq> [] \<and> list_all (\<lambda>c. \<not> isspace c) w"

lemma cin_word_word: "cin_word s = (Some w, s1) \<Longrightarrow> is_word w"
  by (auto simp: cin_word_def is_word_def list_all_iff dest: fst_extract_word_nospace split: prod.splits if_splits)
     (metis fst_conv fst_extract_word_nospace)

lemma prompt_credentials_word:
  assumes "prompt_credentials a b s = (creds, s1)"
  shows "creds = [] \<or> (\<exists>login password. creds = login @ '' '' @ password \<and> is_word login \<and> is_word password)"
  using assms
  by (auto simp: prompt_credentials_def dest!: cin_word_word split: prod.splits option.splits)

lemma promptTargetUser_word: "promptTargetUser s = (u, s1) \<Longrightarrow> u = [] \<or> is_word u"
  by (auto simp: promptTargetUser_def dest!: cin_word_word split: prod.splits option.splits)

lemma promptMessage_line: "promptMessage s = (m, s1) \<Longrightarrow> CHR 0x0A \<notin> set m"
  by (auto simp: promptMessage_def cin_getline_def getline_def dest: set_takeWhileD split: prod.splits option.splits if_splits)

text \<open>Once the input has ended, every menu reads the null character, and the next one finds the same end.\<close>

lemma read_choice_at_end:
  assumes "cin s = []"
  shows "fst (read_choice s) = CHR 0x00" "cin (snd (read_choice s)) = []" "cout (snd (read_choice s)) = cout s"
    "con_err (snd (read_choice s)) = con_err s"
  using assms by (auto simp: read_choice_def cin_char_def cin_clear_def cin_ignore_line_def good_def getline_def)

end
