(* ===== verification/Chat_Client.thy ===== *)
theory Chat_Client
  imports Chat_UI Sockets
begin

text \<open>
  The console client: the class \<open>Client\<close> of \<open>client/src/Client.cpp\<close> and \<open>client/src/main.cpp\<close>, over
  \<open>TcpSocketLinux\<close>. The main thread and the thread of \<open>receiveLoop\<close> are the two actors of \<open>client_step\<close>;
  an iteration of either loop is one step.
\<close>

subsection \<open>State\<close>

text \<open>The clock is in milliseconds.\<close>

record 'k client_sys = "'k sys" +
  sys_now :: "'k \<Rightarrow> nat \<times> 'k"
  sys_sleep :: "nat \<Rightarrow> 'k \<Rightarrow> 'k"

datatype main_phase = In_menu | Joining | Finished

record 'k client = console +
  cl_kernel :: 'k
  socket :: "TcpSocketLinux option"
  receiver :: bool
  running :: bool
  serverHost :: string
  serverPort :: nat
  currentUser :: string
  pendingLogin :: string
  main_phase :: main_phase

definition mk_Client :: "string \<Rightarrow> nat \<Rightarrow> console \<Rightarrow> 'k \<Rightarrow> 'k client" where
  "mk_Client host port con k = console.extend con
     \<lparr>cl_kernel = k, socket = None, receiver = False, running = False, serverHost = host, serverPort = port,
      currentUser = [], pendingLogin = [], main_phase = In_menu\<rparr>"

subsection \<open>Connecting\<close>

definition createSocket :: "TcpSocketLinux option" where
  "createSocket = Some mk_TcpSocketLinux"

text \<open>The retry loop, at most \<open>fuel\<close> iterations; \<open>None\<close> when it has not ended by then.\<close>

fun connect_loop ::
  "('k, 'e) client_sys_scheme \<Rightarrow> nat \<Rightarrow> nat \<Rightarrow> ('k, 'z) client_scheme \<Rightarrow> ('k, 'z) client_scheme option" where
  "connect_loop sys deadline 0 c = None"
| "connect_loop sys deadline (Suc fuel) c =
     (case sys_now sys (cl_kernel c) of (now, k) \<Rightarrow>
        let c1 = c\<lparr>cl_kernel := k\<rparr>
        in if \<not> now < deadline then Some (print_err Connect_timeout c1)
        else case createSocket of
            None \<Rightarrow> connect_loop sys deadline fuel (c1\<lparr>socket := None, cl_kernel := sys_sleep sys 1000 k\<rparr>)
          | Some t \<Rightarrow>
              let c2 = print (Connecting (serverHost c) (serverPort c)) (c1\<lparr>socket := Some t\<rparr>)
              in case tl_connect sys (t, k) (serverHost c) (int (serverPort c)) of (ok, t', k') \<Rightarrow>
                if ok then Some ((print Connected (c2\<lparr>socket := Some t', cl_kernel := k'\<rparr>))\<lparr>running := True\<rparr>)
                else connect_loop sys deadline fuel
                       (c2\<lparr>socket := None, cl_kernel := sys_sleep sys 1000 (snd (tl_close sys (t', k')))\<rparr>))"

definition connectToServer ::
  "('k, 'e) client_sys_scheme \<Rightarrow> nat \<Rightarrow> ('k, 'z) client_scheme \<Rightarrow> ('k, 'z) client_scheme option" where
  "connectToServer sys fuel c =
     (case sys_now sys (cl_kernel c) of (now, k) \<Rightarrow>
        connect_loop sys (now + 60 * 1000) fuel (c\<lparr>cl_kernel := k\<rparr>))"

subsection \<open>Commands\<close>

definition sendCommand ::
  "('k, 'e) client_sys_scheme \<Rightarrow> string \<Rightarrow> ('k, 'z) client_scheme \<Rightarrow> bool \<times> ('k, 'z) client_scheme" where
  "sendCommand sys command c =
     (case socket c of
        None \<Rightarrow> (False, (print_err Send_failed c)\<lparr>running := False\<rparr>)
      | Some t \<Rightarrow>
          case sendFrame (\<lambda>s d. tl_send sys s (Some d)) (t, cl_kernel c) command kDefaultMaxFrameSize of
            (ok, t', k') \<Rightarrow>
              let c' = c\<lparr>socket := Some t', cl_kernel := k'\<rparr>
              in if ok then (True, c') else (False, (print_err Send_failed c')\<lparr>running := False\<rparr>))"

definition client_registerUser :: "('k, 'e) client_sys_scheme \<Rightarrow> ('k, 'z) client_scheme \<Rightarrow> ('k, 'z) client_scheme" where
  "client_registerUser sys c =
     (case promptRegistration c of (creds, c1) \<Rightarrow>
        if creds = [] then print Registration_cancelled c1
        else snd (sendCommand sys (''REGISTER '' @ creds) c1))"

definition client_login :: "('k, 'e) client_sys_scheme \<Rightarrow> ('k, 'z) client_scheme \<Rightarrow> ('k, 'z) client_scheme" where
  "client_login sys c =
     (case promptLogin c of (creds, c1) \<Rightarrow>
        if creds = [] then print Login_cancelled c1
        else let space = str_find (\<lambda>x. x = CHR '' '') creds;
                 c2 = c1\<lparr>pendingLogin := (case space of None \<Rightarrow> creds | Some i \<Rightarrow> substr creds 0 i)\<rparr>
          in snd (sendCommand sys (''LOGIN '' @ creds) c2))"

definition setCurrentUser :: "string \<Rightarrow> ('k, 'z) client_scheme \<Rightarrow> ('k, 'z) client_scheme" where
  "setCurrentUser user c = c\<lparr>currentUser := user, pendingLogin := []\<rparr>"

definition clearCurrentUser :: "('k, 'z) client_scheme \<Rightarrow> ('k, 'z) client_scheme" where
  "clearCurrentUser c = c\<lparr>currentUser := [], pendingLogin := []\<rparr>"

definition client_logout :: "('k, 'e) client_sys_scheme \<Rightarrow> ('k, 'z) client_scheme \<Rightarrow> ('k, 'z) client_scheme" where
  "client_logout sys c = print Logged_out (clearCurrentUser (snd (sendCommand sys ''LOGOUT'' c)))"

definition client_listUsers :: "('k, 'e) client_sys_scheme \<Rightarrow> ('k, 'z) client_scheme \<Rightarrow> ('k, 'z) client_scheme" where
  "client_listUsers sys c = snd (sendCommand sys ''LIST'' c)"

definition client_inbox :: "('k, 'e) client_sys_scheme \<Rightarrow> ('k, 'z) client_scheme \<Rightarrow> ('k, 'z) client_scheme" where
  "client_inbox sys c = snd (sendCommand sys ''INBOX'' c)"

definition client_sendMessage :: "('k, 'e) client_sys_scheme \<Rightarrow> ('k, 'z) client_scheme \<Rightarrow> ('k, 'z) client_scheme" where
  "client_sendMessage sys c =
     (if currentUser c = [] then print_err Not_logged_in c
      else case promptTargetUser c of (to, c1) \<Rightarrow>
        if to = [] then c1
        else case promptMessage c1 of (msg, c2) \<Rightarrow>
          if msg = [] then c2 else snd (sendCommand sys (''MESSAGE '' @ to @ '' '' @ msg) c2))"

definition client_history :: "('k, 'e) client_sys_scheme \<Rightarrow> ('k, 'z) client_scheme \<Rightarrow> ('k, 'z) client_scheme" where
  "client_history sys c =
     (if currentUser c = [] then print_err Not_logged_in c
      else case promptTargetUser c of (to, c1) \<Rightarrow>
        if to = [] then c1 else snd (sendCommand sys (''HISTORY '' @ to @ '' 50 0'') c1))"

subsection \<open>The receiving thread\<close>

text \<open>The body of \<open>receiveLoop\<close> once a frame has been read.\<close>

definition show_response :: "string \<Rightarrow> ('k, 'z) client_scheme \<Rightarrow> ('k, 'z) client_scheme" where
  "show_response line c =
     (case extract_word line of (cmd, iss) \<Rightarrow>
        if cmd = ''REGISTER_OK'' then print Registration_ok c
        else if cmd = ''REGISTER_ERROR'' then print (Registration_failed (fst (getline iss))) c
        else if cmd = ''LOGIN_OK'' then
          print (Login_ok (fst (extract_word iss))) (setCurrentUser (pendingLogin c) c)
        else if cmd = ''LOGIN_ERROR'' then print (Login_failed (fst (getline iss))) (clearCurrentUser c)
        else if cmd = ''USERS_BEGIN'' then print Users_begin c
        else if cmd = ''USER'' then
          (case extract_word iss of (login, iss1) \<Rightarrow> case extract_word iss1 of (statusText, iss2) \<Rightarrow>
           case extract_word iss2 of (role, iss3) \<Rightarrow> case extract_word iss3 of (lastSeen, iss4) \<Rightarrow>
             print (User_line login statusText role lastSeen) c)
        else if cmd = ''USERS_END'' then print Users_end c
        else if cmd = ''INBOX_BEGIN'' then print Inbox_begin c
        else if cmd = ''INBOX_MSG'' then
          (case extract_word iss of (from, iss1) \<Rightarrow> case extract_word iss1 of (createdAt, iss2) \<Rightarrow>
             print (Inbox_line createdAt from (fst (getline iss2))) c)
        else if cmd = ''INBOX_END'' then print Inbox_end c
        else if cmd = ''MESSAGE'' then
          (case extract_word iss of (from, iss1) \<Rightarrow> print (Message_line from (fst (getline iss1))) c)
        else if cmd = ''MESSAGE_OK'' then print Message_saved c
        else if cmd = ''MESSAGE_ERROR'' then print (Message_failed (fst (getline iss))) c
        else if cmd = ''HISTORY_BEGIN'' then print History_begin c
        else if cmd = ''HIST'' then
          (case extract_word iss of (from, iss1) \<Rightarrow> case extract_word iss1 of (to, iss2) \<Rightarrow>
           case extract_word iss2 of (createdAt, iss3) \<Rightarrow>
             print (History_line createdAt from to (fst (getline iss3))) c)
        else if cmd = ''HISTORY_END'' then print History_end c
        else if cmd = ''LOGOUT_OK'' then clearCurrentUser c
        else if cmd = ''KICKED'' then print Kicked_out (clearCurrentUser c)
        else print (Other_line line) c)"

text \<open>One iteration of \<open>receiveLoop\<close>: the result says whether the thread goes on. The thread is started only when
  there is a socket.\<close>

definition receive_step ::
  "('k, 'e) client_sys_scheme \<Rightarrow> TcpSocketLinux \<Rightarrow> ('k, 'z) client_scheme \<Rightarrow> bool \<times> ('k, 'z) client_scheme" where
  "receive_step sys t c =
     (case receiveFrame (\<lambda>s n. tl_receive sys s True n) (t, cl_kernel c) kDefaultMaxFrameSize of
        (status, line, t', k') \<Rightarrow>
          let c1 = c\<lparr>socket := Some t', cl_kernel := k'\<rparr>
          in if status = RF_Closed then (False, c1\<lparr>running := False\<rparr>)
             else if status \<noteq> RF_Ok then (False, (print Bad_frame c1)\<lparr>running := False\<rparr>)
             else (True, show_response line c1))"

subsection \<open>The main thread\<close>

definition menu_step :: "('k, 'e) client_sys_scheme \<Rightarrow> ('k, 'z) client_scheme \<Rightarrow> ('k, 'z) client_scheme" where
  "menu_step sys c =
     (if currentUser c = [] then
        (case showInitialMenu c of (choice, c1) \<Rightarrow>
           if choice = CHR ''l'' then client_login sys c1
           else if choice = CHR ''r'' then client_registerUser sys c1
           else if choice = CHR ''q'' then c1\<lparr>running := False\<rparr>
           else print Bad_choice c1)
      else
        (case showUserMenu (currentUser c) c of (choice, c1) \<Rightarrow>
           if choice = CHR ''l'' then client_listUsers sys c1
           else if choice = CHR ''i'' then client_inbox sys c1
           else if choice = CHR ''s'' then client_sendMessage sys c1
           else if choice = CHR ''h'' then client_history sys c1
           else if choice = CHR ''o'' then client_logout sys c1
           else print Bad_choice c1))"

definition close_connection :: "('k, 'e) client_sys_scheme \<Rightarrow> ('k, 'z) client_scheme \<Rightarrow> ('k, 'z) client_scheme" where
  "close_connection sys c =
     (case socket c of
        None \<Rightarrow> c
      | Some t \<Rightarrow> (case tl_close sys (t, cl_kernel c) of (t', k') \<Rightarrow> c\<lparr>socket := Some t', cl_kernel := k'\<rparr>))"

text \<open>\<open>run\<close> after a successful \<open>connectToServer\<close>: both loops, then closing and joining.\<close>

inductive client_step :: "('k, 'e) client_sys_scheme \<Rightarrow> ('k, 'z) client_scheme \<Rightarrow> ('k, 'z) client_scheme \<Rightarrow> bool"
  for sys where
  Menu: "main_phase c = In_menu \<Longrightarrow> running c \<Longrightarrow> client_step sys c (menu_step sys c)"
| Leave: "main_phase c = In_menu \<Longrightarrow> \<not> running c \<Longrightarrow> client_step sys c ((close_connection sys c)\<lparr>main_phase := Joining\<rparr>)"
| Join: "main_phase c = Joining \<Longrightarrow> \<not> receiver c \<Longrightarrow> client_step sys c (c\<lparr>main_phase := Finished\<rparr>)"
| Receive: "receiver c \<Longrightarrow> running c \<Longrightarrow> socket c = Some t \<Longrightarrow> receive_step sys t c = (True, c') \<Longrightarrow> client_step sys c c'"
| Receive_break: "receiver c \<Longrightarrow> running c \<Longrightarrow> socket c = Some t \<Longrightarrow> receive_step sys t c = (False, c') \<Longrightarrow>
    client_step sys c (c'\<lparr>receiver := False\<rparr>)"
| Receive_end: "receiver c \<Longrightarrow> \<not> running c \<Longrightarrow> client_step sys c (c\<lparr>receiver := False\<rparr>)"
| Peers: "client_step sys c (c\<lparr>cl_kernel := k\<rparr>)"

definition client_run ::
  "('k, 'e) client_sys_scheme \<Rightarrow> nat \<Rightarrow> ('k, 'z) client_scheme \<Rightarrow> ('k, 'z) client_scheme option" where
  "client_run sys fuel c =
     (case connectToServer sys fuel c of
        None \<Rightarrow> None
      | Some c1 \<Rightarrow> Some (if \<not> running c1 then c1\<lparr>main_phase := Finished\<rparr> else c1\<lparr>receiver := True\<rparr>))"

text \<open>The destructor; its joins have nothing left to wait for once \<open>run\<close> has returned.\<close>

definition destroy_Client :: "('k, 'e) client_sys_scheme \<Rightarrow> ('k, 'z) client_scheme \<Rightarrow> ('k, 'z) client_scheme" where
  "destroy_Client sys c = print Client_ended (close_connection sys (c\<lparr>running := False\<rparr>))"

subsection \<open>main\<close>

text \<open>\<open>Inl\<close>: the line printed on the error stream and the exit code; \<open>Inr\<close>: the client that is constructed.\<close>

definition client_args :: "string list \<Rightarrow> (ui_line \<times> int) + (string \<times> nat)" where
  "client_args argv =
     (if length argv \<noteq> 2 then Inl (Usage, 1)
      else let arg = argv ! 1
        in case str_find (\<lambda>x. x = CHR '':'') arg of
            None \<Rightarrow> Inl (Bad_argument, 1)
          | Some pos \<Rightarrow>
              let host = substr arg 0 pos; port_str = drop (pos + 1) arg
              in if host = [] then Inl (Empty_host, 1)
              else if port_str = [] then Inl (Empty_port, 1)
              else case stoi port_str of
                  Inl Invalid_argument \<Rightarrow> Inl (Port_not_number port_str, 1)
                | Inl Out_of_range \<Rightarrow> Inl (Port_out_of_range port_str, 1)
                | Inr p \<Rightarrow>
                    if p \<le> 0 \<or> p > 65535 then Inl (Port_range p, 1)
                    else Inr (host, unat (word_of_int p :: uint16)))"

definition client_main ::
  "('k, 'e) client_sys_scheme \<Rightarrow> nat \<Rightarrow> string list \<Rightarrow> console \<Rightarrow> 'k \<Rightarrow> (int \<times> console) + 'k client option" where
  "client_main sys fuel argv con k =
     (case client_args argv of
        Inl (l, code) \<Rightarrow> Inl (code, print_err l con)
      | Inr (host, port) \<Rightarrow> Inr (client_run sys fuel (mk_Client host port con k)))"

end
