(* ===== verification/Chat_Client_Props.thy ===== *)
theory Chat_Client_Props
  imports Chat_Client "HOL-Library.Sublist"
begin

text \<open>
  What the console client promises on its own: connecting gives up after a minute, the command line is
  checked, the user shown as logged in is one whose name was typed; and what it does at the end of its
  input.
\<close>

subsection \<open>Connecting ends\<close>

text \<open>A steady clock: it never goes back, and a sleep lasts at least as long as asked.\<close>

locale steady_clock =
  fixes sys :: "('k, 'e) client_sys_scheme"
    and time :: "'k \<Rightarrow> nat"
  assumes now_law: "sys_now sys k = (t, k') \<Longrightarrow> t = time k \<and> time k \<le> time k'"
    and sleep_law: "time k + ms \<le> time (sys_sleep sys ms k)"
    and calls_law: "time k \<le> time (snd (sys_socket sys k))" "time k \<le> time (snd (sys_getaddrinfo sys k h p))"
      "time k \<le> time (snd (sys_connect sys k fd a))" "time k \<le> time (sys_close sys k fd)"
      "time k \<le> time (snd (sys_shutdown sys k fd))"
begin

lemma try_connect_time: "time k \<le> time (snd (try_connect sys fd k as))"
proof (induction as arbitrary: k)
  case (Cons a as)
  have "time k \<le> time (snd (sys_connect sys k fd a))" by (rule calls_law)
  with Cons.IH [of "snd (sys_connect sys k fd a)"] show ?case
    by (auto split: prod.splits intro: order_trans)
qed simp

lemma tl_close_time: "time (snd s) \<le> time (snd (tl_close sys s))"
  using calls_law(4,5) order_trans by (fastforce simp: tl_close_def split: prod.splits)

lemma tl_connect_time:
  assumes "tl_connect sys (t, k) host port = (ok, t', k')"
  shows "time k \<le> time k'"
proof -
  define s1 where "s1 = (if sockfd t \<noteq> -1 then tl_close sys (t, k) else (t, k))"
  obtain fd k1 where sk: "sys_socket sys (snd s1) = (fd, k1)" by fastforce
  obtain addrs k2 where ga: "sys_getaddrinfo sys k1 host (to_string port) = (addrs, k2)" by fastforce
  have "time k \<le> time (snd s1)" using tl_close_time [of "(t, k)"] by (simp add: s1_def)
  moreover have "time (snd s1) \<le> time k1" "time k1 \<le> time k2"
    using calls_law(1) [of "snd s1"] calls_law(2) [of k1 host "to_string port"] sk ga by simp_all
  moreover have "time k2 \<le> time k' \<or> k' = k1"
    using assms sk ga try_connect_time [of k2 fd "the addrs"] calls_law(4) [of k2 fd]
      calls_law(4) [of "snd (try_connect sys fd k2 (the addrs))" fd]
    by (auto simp: tl_connect_def Let_def s1_def [symmetric] split: if_splits option.splits prod.splits)
  ultimately show ?thesis by auto
qed

text \<open>Every failed attempt takes a second; the attempts are the \<open>Connecting\<close> lines printed.\<close>

lemma connect_loop_ends:
  assumes "deadline \<le> time (cl_kernel c) + 1000 * n"
  shows "\<exists>c'. connect_loop sys deadline (Suc n) c = Some c'
    \<and> length (filter (\<lambda>l. l = Connecting (serverHost c) (serverPort c)) (cout c')) \<le>
      length (filter (\<lambda>l. l = Connecting (serverHost c) (serverPort c)) (cout c)) + n"
  using assms
proof (induction n arbitrary: c)
  case 0
  obtain t k where "sys_now sys (cl_kernel c) = (t, k)" by fastforce
  with now_law [OF this] 0 show ?case by (simp add: print_err_def)
next
  case (Suc n)
  obtain t k where n: "sys_now sys (cl_kernel c) = (t, k)" by fastforce
  note tk = now_law [OF n]
  obtain ok s' k' where cn: "tl_connect sys (mk_TcpSocketLinux, k) (serverHost c) (int (serverPort c)) = (ok, s', k')"
    by (metis prod_cases3)
  let ?k = "sys_sleep sys 1000 (snd (tl_close sys (s', k')))"
  let ?c = "(print (Connecting (serverHost c) (serverPort c)) (c\<lparr>cl_kernel := k, socket := Some mk_TcpSocketLinux\<rparr>))
    \<lparr>socket := None, cl_kernel := ?k\<rparr>"
  have "time k \<le> time k'" using tl_connect_time [OF cn] .
  then have "time (cl_kernel c) + 1000 \<le> time ?k"
    using tk tl_close_time [of "(s', k')"] sleep_law [of "snd (tl_close sys (s', k'))" 1000] by simp
  with Suc.prems have "deadline \<le> time (cl_kernel ?c) + 1000 * n" by simp
  from Suc.IH [OF this] obtain c' where "connect_loop sys deadline (Suc n) ?c = Some c'"
    "length (filter (\<lambda>l. l = Connecting (serverHost c) (serverPort c)) (cout c')) \<le>
      length (filter (\<lambda>l. l = Connecting (serverHost c) (serverPort c)) (cout c)) + Suc n"
    by (auto simp: print_def)
  then show ?case
    using n cn by (cases "t < deadline"; cases ok)
      (auto simp: createSocket_def print_def print_err_def simp del: connect_loop.simps(2) simp: connect_loop.simps(2) [of sys deadline "Suc n" c])
qed

lemma connect_ends:
  "\<exists>c'. connectToServer sys 61 c = Some c'
    \<and> length (filter (\<lambda>l. l = Connecting (serverHost c) (serverPort c)) (cout c')) \<le>
      length (filter (\<lambda>l. l = Connecting (serverHost c) (serverPort c)) (cout c)) + 60"
proof -
  obtain t k where n: "sys_now sys (cl_kernel c) = (t, k)" by fastforce
  have "t + 60 * 1000 \<le> time (cl_kernel (c\<lparr>cl_kernel := k\<rparr>)) + 1000 * 60" using now_law [OF n] by simp
  from connect_loop_ends [OF this] n show ?thesis by (simp add: connectToServer_def)
qed

end

text \<open>A host that cannot be reached: every call fails, the kernel's state is the time.\<close>

definition offline_sys :: "nat client_sys" where
  "offline_sys = \<lparr>sys_socket = (\<lambda>k. (3, k)), sys_getaddrinfo = (\<lambda>k h s. (Some [h], k)), sys_connect = (\<lambda>k fd a. (-1, k)),
     sys_send = (\<lambda>k fd d. (-1, k)), sys_recv = (\<lambda>k fd n. (-1, [], k)), sys_shutdown = (\<lambda>k fd. (-1, k)),
     sys_close = (\<lambda>k fd. k), sys_setsockopt = (\<lambda>k fd opt. (-1, k)), sys_now = (\<lambda>k. (k, k)), sys_sleep = (\<lambda>ms k. k + ms)\<rparr>"

interpretation offline: steady_clock offline_sys "\<lambda>k. k"
  by unfold_locales (auto simp: offline_sys_def)

definition demo_console :: console where
  "demo_console = \<lparr>cin = ''l'' @ [CHR 0x0A] @ ''anna pw1'' @ [CHR 0x0A] @ ''q'' @ [CHR 0x0A], eofbit = False, failbit = False, cout = [], con_err = []\<rparr>"

text \<open>(C34) \<open>connectToServer\<close> returns: with a clock that never goes back and sleeps that last as long as
  asked, its loop ends within 61 evaluations of its condition, after at most 60 connection
  attempts.\<close>

theorem client_connect_returns:
  assumes "steady_clock sys time"
  shows "\<exists>c'. connectToServer sys 61 c = Some c'
    \<and> length (filter (\<lambda>l. l = Connecting (serverHost c) (serverPort c)) (cout c')) \<le>
      length (filter (\<lambda>l. l = Connecting (serverHost c) (serverPort c)) (cout c)) + 60"
  using steady_clock.connect_ends [OF assms] .

theorem client_connect_returns_witness:
  "\<exists>c'. connectToServer offline_sys 61 (mk_Client ''chat'' 5555 demo_console 0) = Some c'
    \<and> length (filter (\<lambda>l. l = Connecting ''chat'' 5555) (cout c')) \<le> 60"
  using client_connect_returns [OF offline.steady_clock_axioms, of "mk_Client ''chat'' 5555 demo_console 0"]
  by (simp add: mk_Client_def console.defs demo_console_def)

subsection \<open>The end of the input\<close>

lemma menu_step_at_end:
  assumes "cin c = []"
  shows "cin (menu_step sys c) = [] \<and> running (menu_step sys c) = running c \<and> main_phase (menu_step sys c) = main_phase c
    \<and> length (cout (menu_step sys c)) = length (cout c) + 2 \<and> cl_kernel (menu_step sys c) = cl_kernel c"
proof -
  let ?menu = "if currentUser c = [] then Initial_menu else User_menu (currentUser c)"
  obtain choice c1 where r: "read_choice (print ?menu c) = (choice, c1)" by fastforce
  have "console.more c1 = console.more c" using read_choice_frame [of "print ?menu c"] r by simp
  then have m: "running c1 = running c" "main_phase c1 = main_phase c" "cl_kernel c1 = cl_kernel c"
    by (cases c; cases c1; simp)+
  have "choice = CHR 0x00" "cin c1 = []" "cout c1 = cout c @ [?menu]"
    using read_choice_at_end [of "print ?menu c"] r assms by (simp_all add: print_def)
  then have "menu_step sys c = print Bad_choice c1" "length (cout c1) = Suc (length (cout c))" "cin c1 = []"
    using r by (simp_all add: menu_step_def showInitialMenu_def showUserMenu_def split: if_splits)
  with m show ?thesis by (simp add: print_def)
qed

text \<open>(C35) At the end of its input the client does not stop: once standard input is exhausted, the menu loop
  goes round for ever, as long as the connection is up. Every iteration prints the menu and the
  complaint about a wrong choice, reads nothing and leaves \<open>running_\<close> set.\<close>

theorem client_spins_at_end_of_input:
  assumes "cin c = []" "running c"
  shows "running ((menu_step sys ^^ n) c) \<and> cin ((menu_step sys ^^ n) c) = []
    \<and> length (cout ((menu_step sys ^^ n) c)) = length (cout c) + 2 * n
    \<and> cl_kernel ((menu_step sys ^^ n) c) = cl_kernel c"
proof (induction n)
  case (Suc n)
  with menu_step_at_end [of "(menu_step sys ^^ n) c" sys] show ?case by simp
qed (use assms in simp)

theorem client_spins_at_end_of_input_witness:
  "running ((menu_step offline_sys ^^ 1000) ((mk_Client ''chat'' 5555 (demo_console\<lparr>cin := []\<rparr>) 0)\<lparr>running := True\<rparr>))"
  using client_spins_at_end_of_input [of "(mk_Client ''chat'' 5555 (demo_console\<lparr>cin := []\<rparr>) 0)\<lparr>running := True\<rparr>" 1000 offline_sys]
  by (simp add: mk_Client_def console.defs demo_console_def)

subsection \<open>The command line\<close>

lemma str_find_first: "\<forall>x \<in> set as. \<not> P x \<Longrightarrow> P b \<Longrightarrow> str_find P (as @ b # cs) = Some (length as)"
  by (induction as) auto

lemma uint16_exact: "0 \<le> p \<Longrightarrow> p \<le> 65535 \<Longrightarrow> unat (word_of_int p :: uint16) = nat p"
  by (simp add: unat_eq_nat_uint uint_word_of_int_eq take_bit_int_eq_self)

text \<open>(C36) The command line is checked: \<open>host:port\<close> with a non-empty host and a decimal \<open>int\<close> as port starts a
  client for exactly that host and port when the port is within 1 and 65535, and otherwise exits with
  code 1 and the range message; and whatever the arguments, either the exit code is 1 or the client
  gets a non-empty host and a port within range.\<close>

theorem client_main_checks_arguments:
  assumes "host \<noteq> []" "CHR '':'' \<notin> set host" "INT_MIN \<le> p" "p \<le> INT_MAX"
  shows "client_args [prog, host @ '':'' @ to_string p] =
      (if 1 \<le> p \<and> p \<le> 65535 then Inr (host, nat p) else Inl (Port_range p, 1))
    \<and> (case client_args argv of Inl (l, code) \<Rightarrow> code = 1 | Inr (h, port) \<Rightarrow> h \<noteq> [] \<and> 1 \<le> port \<and> port \<le> 65535)"
proof
  have "str_find (\<lambda>x. x = CHR '':'') (host @ CHR '':'' # to_string p) = Some (length host)"
    by (rule str_find_first) (use assms(2) in auto)
  then show "client_args [prog, host @ '':'' @ to_string p] =
      (if 1 \<le> p \<and> p \<le> 65535 then Inr (host, nat p) else Inl (Port_range p, 1))"
    using assms(1) stoi_to_string [OF assms(3,4)]
    by (auto simp: client_args_def Let_def substr_def uint16_exact)
  show "case client_args argv of Inl (l, code) \<Rightarrow> code = 1 | Inr (h, port) \<Rightarrow> h \<noteq> [] \<and> 1 \<le> port \<and> port \<le> 65535"
    by (auto simp: client_args_def Let_def uint16_exact split: option.splits sum.splits std_exception.splits if_splits)
qed

theorem client_main_checks_arguments_witness:
  "client_args [''chat_client'', ''localhost'' @ '':'' @ to_string 5555] = Inr (''localhost'', 5555)
   \<and> client_args [''chat_client'', ''localhost'' @ '':'' @ to_string 70000] = Inl (Port_range 70000, 1)"
  using client_main_checks_arguments [of "''localhost''" 5555 "''chat_client''" "[]"]
    client_main_checks_arguments [of "''localhost''" 70000 "''chat_client''" "[]"]
  by (simp add: INT_MIN_def INT_MAX_def)

subsection \<open>Who is logged in\<close>

definition typed :: "string \<Rightarrow> string \<Rightarrow> bool" where
  "typed input w \<longleftrightarrow> w = [] \<or> is_word w \<and> sublist w input"

lemma getline_suffix: "suffix (snd (getline s)) s"
proof -
  have "suffix (dropWhile (\<lambda>c. c \<noteq> CHR 0x0A) s) s" by (rule suffix_dropWhile)
  then show ?thesis unfolding getline_def snd_conv by (metis suffix_order.trans suffix_tl)
qed

lemma extract_word_parts:
  assumes "extract_word s = (w, rest)"
  shows "suffix rest s" "sublist w s"
proof -
  let ?t = "dropWhile isspace s"
  have "?t = w @ rest" using assms by (auto simp: extract_word_def Let_def)
  moreover have "suffix ?t s" by (rule suffix_dropWhile)
  ultimately show "suffix rest s" "sublist w s"
    by (metis suffixI suffix_order.trans, metis prefixI prefix_imp_sublist suffix_imp_sublist sublist_order.order_trans)
qed

lemma cin_suffix:
  "cin_char s = (c, s1) \<Longrightarrow> suffix (cin s1) (cin s)"
  "cin_word s = (w, s1) \<Longrightarrow> suffix (cin s1) (cin s)"
  "cin_getline s = (w, s1) \<Longrightarrow> suffix (cin s1) (cin s)"
  "suffix (cin (cin_ignore_line s)) (cin s)"
proof -
  show "cin_char s = (c, s1) \<Longrightarrow> suffix (cin s1) (cin s)"
    using suffix_dropWhile [of isspace "cin s"]
    by (auto simp: cin_char_def split: if_splits list.splits) (metis suffix_order.trans suffix_ConsI suffix_order.refl)
  show "cin_word s = (w, s1) \<Longrightarrow> suffix (cin s1) (cin s)"
    by (auto simp: cin_word_def dest: extract_word_parts split: if_splits prod.splits)
qed (auto simp: cin_getline_def cin_ignore_line_def getline_suffix split: if_splits)

lemma cin_word_sublist: "cin_word s = (Some w, s1) \<Longrightarrow> sublist w (cin s)"
  by (auto simp: cin_word_def dest: extract_word_parts split: if_splits prod.splits)

text \<open>The console operations keep what is left of the input a suffix of it.\<close>

lemma print_cin [simp]: "cin (print l s) = cin s" "cin (print_err l s) = cin s" "cin (cin_clear s) = cin s"
  by (simp_all add: print_def print_err_def cin_clear_def)

lemma read_choice_suffix: "suffix (cin (snd (read_choice s))) (cin s)"
  using cin_suffix(1) [of s] cin_suffix(4)
  by (fastforce simp: read_choice_def intro: suffix_order.trans split: prod.splits option.splits)

lemma promptTargetUser_suffix: "suffix (cin (snd (promptTargetUser s))) (cin s)"
  using cin_suffix(2) [of "print Ask_target s"] cin_suffix(4)
  by (fastforce simp: promptTargetUser_def intro: suffix_order.trans split: prod.splits option.splits)

lemma promptMessage_suffix: "suffix (cin (snd (promptMessage s))) (cin s)"
  using cin_suffix(3) [of "print Ask_message s"]
  by (fastforce simp: promptMessage_def split: prod.splits option.splits)

lemma prompt_credentials_suffix:
  assumes "prompt_credentials a b s = (creds, s')"
  shows "suffix (cin s') (cin s)"
    and "creds = [] \<or> (\<exists>login password. creds = login @ '' '' @ password \<and> is_word login \<and> sublist login (cin s))"
proof -
  obtain w s1 where w: "cin_word (print a s) = (w, s1)" by fastforce
  obtain v s2 where v: "cin_word (print b s1) = (v, s2)" by fastforce
  have "suffix (cin s1) (cin s)" "suffix (cin s2) (cin s1)"
    using cin_suffix(2) [OF w] cin_suffix(2) [OF v] by simp_all
  moreover have "suffix (cin (cin_ignore_line s2)) (cin s2)" by (rule cin_suffix)
  ultimately show "suffix (cin s') (cin s)"
    using assms w v by (auto simp: prompt_credentials_def intro: suffix_order.trans split: option.splits)
  show "creds = [] \<or> (\<exists>login password. creds = login @ '' '' @ password \<and> is_word login \<and> sublist login (cin s))"
    using assms w v cin_word_word [of "print a s" _ s1] cin_word_sublist [of "print a s" _ s1]
    by (auto simp: prompt_credentials_def split: option.splits)
qed

definition names_typed :: "string \<Rightarrow> ('k, 'z) client_scheme \<Rightarrow> bool" where
  "names_typed input c \<longleftrightarrow> suffix (cin c) input \<and> typed input (currentUser c) \<and> typed input (pendingLogin c)"

lemma names_typed_console:
  assumes "names_typed input c" "console.more c' = console.more c" "suffix (cin c') (cin c)"
  shows "names_typed input c'"
proof -
  have "currentUser c' = currentUser c" "pendingLogin c' = pendingLogin c"
    using assms(2) by (cases c; cases c'; simp)+
  then show ?thesis using assms(1,3) by (auto simp: names_typed_def intro: suffix_order.trans)
qed

lemma names_typed_simps [simp]:
  "names_typed input (print l c) = names_typed input c" "names_typed input (print_err l c) = names_typed input c"
  "names_typed input (c\<lparr>running := b\<rparr>) = names_typed input c" "names_typed input (c\<lparr>socket := t\<rparr>) = names_typed input c"
  "names_typed input (c\<lparr>cl_kernel := k\<rparr>) = names_typed input c" "names_typed input (c\<lparr>receiver := b\<rparr>) = names_typed input c"
  "names_typed input (c\<lparr>main_phase := m\<rparr>) = names_typed input c"
  by (simp_all add: names_typed_def print_def print_err_def)

lemma names_typed_users:
  "names_typed input c \<Longrightarrow> names_typed input (clearCurrentUser c)"
  "names_typed input c \<Longrightarrow> names_typed input (setCurrentUser (pendingLogin c) c)"
  by (simp_all add: names_typed_def clearCurrentUser_def setCurrentUser_def typed_def)

lemma sendCommand_typed: "names_typed input c \<Longrightarrow> names_typed input (snd (sendCommand sys cmd c))"
  by (auto simp: sendCommand_def Let_def split: option.splits prod.splits)

lemma login_typed:
  assumes "names_typed input c"
  shows "names_typed input (client_login sys c)"
proof -
  obtain creds c1 where p: "promptLogin c = (creds, c1)" by fastforce
  note pc = prompt_credentials_suffix [OF p [unfolded promptLogin_def]]
  have "console.more c1 = console.more c" using prompt_frame(3) [of c] p by simp
  with assms pc(1) have c1: "names_typed input c1" by (blast intro: names_typed_console)
  show ?thesis
  proof (cases "creds = []")
    case True
    then show ?thesis using c1 p by (simp add: client_login_def)
  next
    case False
    with pc(2) obtain login password where lp: "creds = login @ '' '' @ password" "is_word login" "sublist login (cin c)" by auto
    then have "str_find (\<lambda>x. x = CHR '' '') creds = Some (length login)"
      by (auto simp: is_word_def list_all_iff intro!: str_find_first)
    moreover have "typed input login"
      using lp assms by (auto simp: typed_def names_typed_def intro: sublist_order.order_trans suffix_imp_sublist)
    ultimately show ?thesis
      using p False lp(1) c1
      by (auto simp: client_login_def substr_def names_typed_def intro!: sendCommand_typed [unfolded names_typed_def])
  qed
qed

lemma prompt_typed:
  assumes "names_typed input c"
  shows "promptRegistration c = (creds, c1) \<Longrightarrow> names_typed input c1"
    "promptTargetUser c = (u, c1) \<Longrightarrow> names_typed input c1"
    "promptMessage c = (m, c1) \<Longrightarrow> names_typed input c1"
    "showInitialMenu c = (ch, c1) \<Longrightarrow> names_typed input c1"
    "showUserMenu name c = (ch, c1) \<Longrightarrow> names_typed input c1"
proof -
  show "promptRegistration c = (creds, c1) \<Longrightarrow> names_typed input c1"
    using prompt_frame(4) [of c] prompt_credentials_suffix(1) [of _ _ c creds c1] names_typed_console [OF assms, of c1]
    by (simp add: promptRegistration_def)
  show "promptTargetUser c = (u, c1) \<Longrightarrow> names_typed input c1"
    using prompt_frame(5) [of c] promptTargetUser_suffix [of c] names_typed_console [OF assms, of c1] by simp
  show "promptMessage c = (m, c1) \<Longrightarrow> names_typed input c1"
    using prompt_frame(6) [of c] promptMessage_suffix [of c] names_typed_console [OF assms, of c1] by simp
  show "showInitialMenu c = (ch, c1) \<Longrightarrow> names_typed input c1"
    using prompt_frame(1) [of c] read_choice_suffix [of "print Initial_menu c"] names_typed_console [OF assms, of c1]
    by (simp add: showInitialMenu_def)
  show "showUserMenu name c = (ch, c1) \<Longrightarrow> names_typed input c1"
    using prompt_frame(2) [of name c] read_choice_suffix [of "print (User_menu name) c"] names_typed_console [OF assms, of c1]
    by (simp add: showUserMenu_def)
qed

lemma command_typed:
  assumes "names_typed input c"
  shows "names_typed input (client_registerUser sys c)" "names_typed input (client_logout sys c)"
    "names_typed input (client_listUsers sys c)" "names_typed input (client_inbox sys c)"
    "names_typed input (client_sendMessage sys c)" "names_typed input (client_history sys c)"
proof -
  show "names_typed input (client_registerUser sys c)"
    using prompt_typed(1) [OF assms] by (auto simp: client_registerUser_def sendCommand_typed split: prod.splits)
  show "names_typed input (client_sendMessage sys c)"
  proof -
    obtain u c1 where u: "promptTargetUser c = (u, c1)" by fastforce
    obtain m c2 where m: "promptMessage c1 = (m, c2)" by fastforce
    have "names_typed input c1" "names_typed input c2"
      using prompt_typed(2) [OF assms u] prompt_typed(3) [OF _ m] by blast+
    then show ?thesis using u m assms by (simp add: client_sendMessage_def sendCommand_typed)
  qed
  show "names_typed input (client_history sys c)"
    using prompt_typed(2) [OF assms] assms by (auto simp: client_history_def sendCommand_typed split: prod.splits)
qed (simp_all add: client_logout_def client_listUsers_def client_inbox_def names_typed_users sendCommand_typed assms)

lemma menu_typed:
  assumes "names_typed input c"
  shows "names_typed input (menu_step sys c)"
proof -
  obtain x c1 where i: "showInitialMenu c = (x, c1)" by fastforce
  obtain y c2 where u: "showUserMenu (currentUser c) c = (y, c2)" by fastforce
  show ?thesis
    using prompt_typed(4) [OF assms i] prompt_typed(5) [OF assms u]
    by (simp add: menu_step_def i u command_typed login_typed)
qed

lemma show_response_typed: "names_typed input c \<Longrightarrow> names_typed input (show_response line c)"
  by (simp add: show_response_def names_typed_users split: prod.splits)

lemma receive_typed: "receive_step sys t c = (b, c') \<Longrightarrow> names_typed input c \<Longrightarrow> names_typed input c'"
  by (auto simp: receive_step_def Let_def show_response_typed split: prod.splits if_splits)

lemma client_step_typed:
  assumes "client_step sys c c'" "names_typed input c"
  shows "names_typed input c'"
  using assms
proof cases
  case Leave
  then show ?thesis using assms(2) by (auto simp: close_connection_def split: option.splits prod.splits)
qed (use assms(2) in \<open>auto simp: menu_typed dest: receive_typed\<close>)

lemma connect_loop_typed: "connect_loop sys d n c = Some c' \<Longrightarrow> names_typed input c \<Longrightarrow> names_typed input c'"
proof (induction n arbitrary: c)
  case (Suc n)
  then show ?case by (fastforce simp: createSocket_def Let_def split: prod.splits if_splits)
qed simp


text \<open>A host that accepts the connection.\<close>

definition online_sys :: "memk client_sys" where
  "online_sys = sys.extend memk_sys \<lparr>sys_now = (\<lambda>k. (0, k)), sys_sleep = (\<lambda>ms k. k)\<rparr>"

definition demo_connected :: "memk client" where
  "demo_connected = (mk_Client ''chat'' 5555 demo_console \<lparr>mk_out = (\<lambda>_. []), mk_in = (\<lambda>_. []), mk_chunk = 2\<rparr>)
     \<lparr>socket := Some \<lparr>sockfd = 3\<rparr>, cout := [Connecting ''chat'' 5555, Connected], running := True, receiver := True\<rparr>"

lemma demo_connected_run:
  "client_run online_sys (Suc n) (mk_Client ''chat'' 5555 demo_console \<lparr>mk_out = (\<lambda>_. []), mk_in = (\<lambda>_. []), mk_chunk = 2\<rparr>)
     = Some demo_connected"
  by (simp add: client_run_def connectToServer_def online_sys_def sys.defs memk_sys_def createSocket_def mk_TcpSocketLinux_def
      tl_connect_def mk_Client_def console.defs demo_console_def demo_connected_def print_def)


end
