(* ===== verification/Protocol_Props.thy ===== *)
theory Protocol_Props
  imports Sockets
begin

text \<open>
  What the framing protocol promises: the decoder's result does not depend on how the stream is cut
  into chunks, the two transfer layers (over \<open>ISocket\<close> and over native handles) agree, frames sent at
  one end of a connection are received at the other in order, and what is read is bounded.
\<close>

subsection \<open>The decoder on arbitrary bytes\<close>

definition more :: "FrameDecoder \<Rightarrow> string \<Rightarrow> FrameDecoder" where
  "more d bs = d\<lparr>dec_buffer := dec_buffer d @ bs\<rparr>"

lemma more_simps [simp]:
  "dec_buffer (more d bs) = dec_buffer d @ bs" "dec_maxFrameSize (more d bs) = dec_maxFrameSize d"
  "more (more d bs) cs = more d (bs @ cs)" "more d [] = d" "dec_append d (Some bs) = more d bs"
  by (simp_all add: more_def dec_append_def)

lemma readBigEndian32_prefix: "4 \<le> length bs \<Longrightarrow> readBigEndian32 (bs @ cs) = readBigEndian32 bs"
  by (auto simp: readBigEndian32_def nth_append)

lemma nextFrame_more_Ready:
  assumes "nextFrame d = (FS_Ready, p, d')"
  shows "nextFrame (more d bs) = (FS_Ready, p, more d' bs)"
  using assms
  by (auto simp: nextFrame_def Let_def readBigEndian32_prefix kFrameHeaderSize_def more_def split: if_splits)

lemma nextFrame_more_TooLarge:
  assumes "nextFrame d = (FS_TooLarge, p, d')"
  shows "d' = d" "nextFrame (more d bs) = (FS_TooLarge, p, more d bs)"
  using assms
  by (auto simp: nextFrame_def Let_def readBigEndian32_prefix kFrameHeaderSize_def split: if_splits)

lemma nextFrame_stays: "nextFrame d = (st, p, d') \<Longrightarrow> st \<noteq> FS_Ready \<Longrightarrow> d' = d"
  by (auto simp: nextFrame_def Let_def split: if_splits)

text \<open>Draining after more bytes have arrived continues where the last drain stopped.\<close>

lemma drain_stays: "drain d = (ps, st, d') \<Longrightarrow> drain d' = ([], st, d')"
proof (induction d arbitrary: ps rule: drain.induct)
  case (1 d)
  obtain st0 p d0 where n: "nextFrame d = (st0, p, d0)" by (metis prod_cases3)
  show ?case
  proof (cases "st0 = FS_Ready")
    case True
    with n "1.prems" "1.IH" [OF n [symmetric] refl True] show ?thesis
      by (auto simp: drain.simps [of d] split: prod.splits)
  next
    case False
    with n nextFrame_stays [OF n] "1.prems" have "d' = d" "st = st0" by (simp_all add: drain.simps [of d])
    with n False show ?thesis by (simp add: drain.simps [of d] nextFrame_stays [OF n])
  qed
qed

lemma drain_more:
  assumes "drain d = (ps, st, d')" "drain (more d' bs) = (qs, st', d'')"
  shows "drain (more d bs) = (ps @ qs, st', d'')"
  using assms
proof (induction d arbitrary: ps rule: drain.induct)
  case (1 d)
  obtain st0 p d0 where n: "nextFrame d = (st0, p, d0)" by (metis prod_cases3)
  show ?case
  proof (cases "st0 = FS_Ready")
    case True
    obtain ps0 st1 d1 where r: "drain d0 = (ps0, st1, d1)" by (metis prod_cases3)
    with n True "1.prems"(1) have eq: "ps = p # ps0" "st1 = st" "d1 = d'" by (simp_all add: drain.simps [of d])
    have "drain (more d0 bs) = (ps0 @ qs, st', d'')"
      using "1.IH" [OF n [symmetric] refl True, of ps0] r eq "1.prems"(2) by simp
    with nextFrame_more_Ready [of d p d0 bs] n True eq show ?thesis
      by (simp add: drain.simps [of "more d bs"])
  next
    case False
    with n nextFrame_stays [OF n] "1.prems" show ?thesis by (simp add: drain.simps [of d])
  qed
qed

lemma feed_drain:
  assumes "drain d = ([], st, d)"
  shows "feed d chunks = (case drain (more d (concat chunks)) of (ps, st, d') \<Rightarrow> (ps, d'))"
  using assms
proof (induction chunks arbitrary: d st)
  case (Cons c cs)
  obtain ps st1 d1 where c: "drain (more d c) = (ps, st1, d1)" by (metis prod_cases3)
  obtain qs st2 d2 where cs: "drain (more d1 (concat cs)) = (qs, st2, d2)" by (metis prod_cases3)
  from Cons.IH [OF drain_stays [OF c]] cs have "feed d1 cs = (qs, d2)" by simp
  with drain_more [OF c cs] c show ?case by simp
qed simp

text \<open>(C12) However a byte stream is cut into chunks, feeding the chunks to a fresh \<open>FrameDecoder\<close> one by
  one and taking the frames that are ready after each gives the same frames, and leaves the decoder in
  the same state, as handing it the whole stream at once. This holds for every stream, also one with
  an oversized header, and for every limit.\<close>

theorem decoder_chunking_irrelevant:
  "feed (mk_FrameDecoder m) chunks =
     (case drain (dec_append (mk_FrameDecoder m) (Some (concat chunks))) of (ps, status, d) \<Rightarrow> (ps, d))"
proof -
  have "drain (mk_FrameDecoder m) = ([], FS_NeedMoreData, mk_FrameDecoder m)"
    by (subst drain.simps) (simp add: nextFrame_def mk_FrameDecoder_def kFrameHeaderSize_def)
  from feed_drain [OF this, of chunks] show ?thesis by simp
qed

text \<open>(C32) A \<open>FrameDecoder\<close> that is fed the concatenated encodings of payloads within its limit, in chunks of
  any size, yields exactly those payloads in order and ends with an empty buffer.\<close>

theorem decoder_inverts_encoder:
  assumes "\<forall>p \<in> set ps. frame_ok m p" and "concat chunks = enc_all ps"
  shows "feed (mk_FrameDecoder m) chunks = (ps, mk_FrameDecoder m) \<and> bufferedBytes (snd (feed (mk_FrameDecoder m) chunks)) = 0"
proof -
  have "nextFrame (mk_FrameDecoder m) = (FS_NeedMoreData, [], mk_FrameDecoder m)"
    by (simp add: nextFrame_def mk_FrameDecoder_def kFrameHeaderSize_def)
  with feed_enc_all [of "mk_FrameDecoder m" chunks ps] assms show ?thesis
    by (simp add: mk_FrameDecoder_def bufferedBytes_def)
qed

theorem decoder_inverts_encoder_witness:
  "fst (feed (mk_FrameDecoder 8) [take 3 (enc_all [''LIST'', ''INBOX'']), drop 3 (enc_all [''LIST'', ''INBOX''])]) = [''LIST'', ''INBOX'']"
  using decoder_inverts_encoder [of "[''LIST'', ''INBOX'']" 8
      "[take 3 (enc_all [''LIST'', ''INBOX'']), drop 3 (enc_all [''LIST'', ''INBOX''])]"]
  by (simp add: frame_ok_def)

subsection \<open>Sizes\<close>

text \<open>(C39) The header of an encoded frame is the payload's size modulo \<open>2^32\<close> in big-endian order, so it
  states the size exactly for every payload below 4 GiB and for no other; the four header bytes
  and the number they encode determine each other.\<close>

theorem frame_header_bounds:
  "unat (readBigEndian32 (encodeFrame p)) = length p mod 2 ^ 32
   \<and> (unat (readBigEndian32 (encodeFrame p)) = length p \<longleftrightarrow> length p < 2 ^ 32)
   \<and> length (encodeFrame p) = kFrameHeaderSize + length p
   \<and> readBigEndian32 (writeBigEndian32 v) = v
   \<and> writeBigEndian32 (readBigEndian32 [b0, b1, b2, b3]) = [b0, b1, b2, b3]"
proof -
  have h: "unat (readBigEndian32 (encodeFrame p)) = length p mod 2 ^ 32"
    using read_encodeFrame [of p "[]"] by (simp add: unat_of_nat)
  moreover have "length p mod 2 ^ 32 = length p \<longleftrightarrow> length p < 2 ^ 32"
    by (metis mod_less mod_less_divisor zero_less_numeral zero_less_power)
  moreover have "writeBigEndian32 (readBigEndian32 [b0, b1, b2, b3]) = [b0, b1, b2, b3]"
    by (rule write_read_BigEndian32) (simp add: kFrameHeaderSize_def)
  ultimately show ?thesis
    using read_write_BigEndian32 [of v "[]"] by simp
qed

subsection \<open>A connection carries frames in order\<close>

fun send_frames :: "('s \<Rightarrow> string \<Rightarrow> bool \<times> 's) \<Rightarrow> 's \<Rightarrow> string list \<Rightarrow> bool \<times> 's" where
  "send_frames tx s [] = (True, s)"
| "send_frames tx s (p # ps) = (case tx s p of (ok, s') \<Rightarrow> if ok then send_frames tx s' ps else (False, s'))"

fun recv_frames :: "('s \<Rightarrow> ReceiveFrameStatus \<times> string \<times> 's) \<Rightarrow> 's \<Rightarrow> nat \<Rightarrow> string list \<times> 's" where
  "recv_frames rx s 0 = ([], s)"
| "recv_frames rx s (Suc n) =
     (case rx s of (status, p, s') \<Rightarrow>
        if status = RF_Ok then (case recv_frames rx s' n of (ps, s'') \<Rightarrow> (p # ps, s'')) else ([], s'))"

text \<open>One end of a connection, at the level of frames: the abstract contract is a queue of payloads in
  each direction, represented by the concatenation of their encodings.\<close>

locale frame_end =
  fixes tx :: "'s \<Rightarrow> string \<Rightarrow> bool \<times> 's"
    and rx :: "'s \<Rightarrow> ReceiveFrameStatus \<times> string \<times> 's"
    and outp inp :: "'s \<Rightarrow> string"
    and ready :: "'s \<Rightarrow> bool"
    and limit :: nat
  assumes tx_law: "ready s \<Longrightarrow> frame_ok limit p \<Longrightarrow>
      \<exists>s'. tx s p = (True, s') \<and> outp s' = outp s @ encodeFrame p \<and> inp s' = inp s \<and> ready s'"
    and rx_law: "ready s \<Longrightarrow> frame_ok limit p \<Longrightarrow> inp s = encodeFrame p @ rest \<Longrightarrow>
      \<exists>s'. rx s = (RF_Ok, p, s') \<and> inp s' = rest \<and> outp s' = outp s \<and> ready s'"
begin

lemma send_frames_all:
  "ready s \<Longrightarrow> \<forall>p \<in> set ps. frame_ok limit p \<Longrightarrow>
    \<exists>s'. send_frames tx s ps = (True, s') \<and> outp s' = outp s @ enc_all ps \<and> inp s' = inp s \<and> ready s'"
proof (induction ps arbitrary: s)
  case (Cons p ps)
  from tx_law [OF Cons.prems(1), of p] Cons.prems(2) obtain s1 where s1: "tx s p = (True, s1)"
    "outp s1 = outp s @ encodeFrame p" "inp s1 = inp s" "ready s1" by auto
  from Cons.IH [OF s1(4)] Cons.prems(2) s1 show ?case by auto
qed simp

lemma recv_frames_all:
  "ready s \<Longrightarrow> \<forall>p \<in> set ps. frame_ok limit p \<Longrightarrow> inp s = enc_all ps @ rest \<Longrightarrow>
    \<exists>s'. recv_frames rx s (length ps) = (ps, s') \<and> inp s' = rest \<and> outp s' = outp s \<and> ready s'"
proof (induction ps arbitrary: s)
  case (Cons p ps)
  from rx_law [OF Cons.prems(1), of p "enc_all ps @ rest"] Cons.prems(2,3) obtain s1 where
    s1: "rx s = (RF_Ok, p, s1)" "inp s1 = enc_all ps @ rest" "outp s1 = outp s" "ready s1" by auto
  from Cons.IH [OF s1(4)] Cons.prems(2) s1 show ?case by auto
qed simp

end

text \<open>Every live \<open>ISocket\<close> is such an end, among them \<open>TcpSocketLinux\<close> (the client's) and \<open>MemorySocket\<close>;
  so are the native helpers (the server's).\<close>

sublocale live_socket \<subseteq> frames: frame_end "\<lambda>s p. sendFrame send s p m" "\<lambda>s. receiveFrame recv s m" outp inp invar m for m
proof (unfold_locales, goal_cases)
  case (1 s p)
  then have "length p \<le> m" by (simp add: frame_ok_def)
  with 1(1) show ?case by (blast elim: sendFrame_live)
next
  case (2 s p rest)
  then show ?case by (blast elim: receiveFrame_live)
qed

lemma receiveFrame_native_Ok:
  "receiveFrame (native_recv sys fd) k m = (RF_Ok, p, k') \<Longrightarrow> receiveFrame_native sys fd k m = (RF_Ok, p, k')"
  using receiveFrame_native_sim [of sys fd k m] by (cases "receiveFrame_native sys fd k m") auto

sublocale kernel_stream \<subseteq> native_end: frame_end "\<lambda>k p. sendFrame_native sys fd k p m"
  "\<lambda>k. receiveFrame_native sys fd k m" "\<lambda>k. outq k fd" "\<lambda>k. inq k fd"
  "\<lambda>k. kinv k \<and> up k fd \<and> isValidSocket fd" m for fd m
proof (unfold_locales, goal_cases)
  case (1 k p)
  then have "length p \<le> m" by (simp add: frame_ok_def)
  with 1(1) obtain k' where "sendFrame_native sys fd k p m = (True, k')" "outq k' = (outq k)(fd := outq k fd @ encodeFrame p)"
    "inq k' = inq k" "up k' = up k" "kinv k'"
    by (blast elim: sendFrame_native_live)
  with 1(1) show ?case by simp
next
  case (2 k p rest)
  then obtain k' where "receiveFrame (native_recv sys fd) k m = (RF_Ok, p, k')" "inq k' fd = rest" "outq k' fd = outq k fd"
    "kinv k' \<and> up k' fd"
    using live_socket.receiveFrame_live [OF native_socket, of k fd p rest m] by blast
  with 2(1) show ?case by (intro exI [of _ k']) (simp add: receiveFrame_native_Ok)
qed

context kernel_stream
begin

lemma tl_frame_end: "frame_end (\<lambda>s p. sendFrame (\<lambda>s d. tl_send sys s (Some d)) s p m)
  (\<lambda>s. receiveFrame (\<lambda>s n. tl_receive sys s True n) s m) (\<lambda>s. outq (snd s) (sockfd (fst s)))
  (\<lambda>s. inq (snd s) (sockfd (fst s))) (\<lambda>s. kinv (snd s) \<and> 0 \<le> sockfd (fst s) \<and> up (snd s) (sockfd (fst s))) m"
  by unfold_locales

lemma native_frame_end: "frame_end (\<lambda>k p. sendFrame_native sys fd k p m) (\<lambda>k. receiveFrame_native sys fd k m)
  (\<lambda>k. outq k fd) (\<lambda>k. inq k fd) (\<lambda>k. kinv k \<and> up k fd \<and> isValidSocket fd) m"
  by unfold_locales

end

lemma frames_cross:
  assumes a: "frame_end txA rxA outA inA readyA m" and b: "frame_end txB rxB outB inB readyB m"
    and "readyA s" "readyB t" "\<forall>p \<in> set ps. frame_ok m p"
    and "send_frames txA s ps = (ok, s')" "inB t = drop (length (outA s)) (outA s')"
  shows "ok \<and> (\<exists>t'. recv_frames rxB t (length ps) = (ps, t') \<and> inB t' = [] \<and> outB t' = outB t)"
proof -
  from frame_end.send_frames_all [OF a, of s ps] assms(3,5,6) have s': "ok" "outA s' = outA s @ enc_all ps" by auto
  with assms(7) have "inB t = enc_all ps @ []" by simp
  from frame_end.recv_frames_all [OF b assms(4,5) this] s' show ?thesis by auto
qed

text \<open>(C6) Frames from a client reach the server: for any kernels that keep the stream contract, when
  a client writes frames within the limit with \<open>sendFrame\<close> on its connected \<open>TcpSocketLinux\<close> and the
  server's descriptor has exactly the bytes written to read, every send succeeds and the native
  \<open>receiveFrame\<close> returns the same payloads in the same order, leaving nothing unread.\<close>

theorem client_frames_reach_server:
  assumes "kernel_stream csys coutq cinq calive ckinv" "kernel_stream ssys soutq sinq salive skinv"
    and "ckinv k" "0 \<le> sockfd t" "calive k (sockfd t)"
    and "skinv k1" "salive k1 fd" "isValidSocket fd"
    and "\<forall>p \<in> set ps. frame_ok m p"
    and "send_frames (\<lambda>s p. sendFrame (\<lambda>s d. tl_send csys s (Some d)) s p m) (t, k) ps = (ok, t', k')"
    and "sinq k1 fd = drop (length (coutq k (sockfd t))) (coutq k' (sockfd t'))"
  shows "ok \<and> (\<exists>k2. recv_frames (\<lambda>k. receiveFrame_native ssys fd k m) k1 (length ps) = (ps, k2) \<and> sinq k2 fd = [])"
  using frames_cross [OF kernel_stream.tl_frame_end [OF assms(1)] kernel_stream.native_frame_end [OF assms(2)],
      of "(t, k)" k1 fd ps m ok "(t', k')"] assms(3-)
  by auto

text \<open>(C20) Frames from the server reach a client: the native \<open>sendFrame\<close> on the server's descriptor
  succeeds for every frame within the limit, and \<open>receiveFrame\<close> on the client's \<open>TcpSocketLinux\<close>,
  with exactly those bytes to read, returns the same payloads in the same order.\<close>

theorem server_frames_reach_client:
  assumes "kernel_stream csys coutq cinq calive ckinv" "kernel_stream ssys soutq sinq salive skinv"
    and "ckinv k" "0 \<le> sockfd t" "calive k (sockfd t)"
    and "skinv k1" "salive k1 fd" "isValidSocket fd"
    and "\<forall>p \<in> set ps. frame_ok m p"
    and "send_frames (\<lambda>k p. sendFrame_native ssys fd k p m) k1 ps = (ok, k1')"
    and "cinq k (sockfd t) = drop (length (soutq k1 fd)) (soutq k1' fd)"
  shows "ok \<and> (\<exists>t' k'. recv_frames (\<lambda>s. receiveFrame (\<lambda>s n. tl_receive csys s True n) s m) (t, k) (length ps) = (ps, t', k')
    \<and> cinq k' (sockfd t') = [])"
  using frames_cross [OF kernel_stream.native_frame_end [OF assms(2)] kernel_stream.tl_frame_end [OF assms(1)],
      of k1 fd "(t, k)" ps m ok k1'] assms(3-)
  by auto

definition demo_link :: memk where
  "demo_link = \<lparr>mk_out = (\<lambda>_. []), mk_in = (\<lambda>_. []), mk_chunk = 2\<rparr>"

theorem client_frames_reach_server_witness:
  "fst (recv_frames (\<lambda>k. receiveFrame_native memk_sys 5 k 64)
     (demo_link\<lparr>mk_in := (\<lambda>_. [])(5 := enc_all [''LIST'', ''LOGOUT''])\<rparr>) (Suc (Suc 0))) = [''LIST'', ''LOGOUT'']"
proof -
  let ?tx = "\<lambda>s p. sendFrame (\<lambda>s d. tl_send memk_sys s (Some d)) s p 64"
  obtain s' where s': "send_frames ?tx (\<lparr>sockfd = 3\<rparr>, demo_link) [''LIST'', ''LOGOUT''] = (True, s')"
    "mk_out (snd s') (sockfd (fst s')) = enc_all [''LIST'', ''LOGOUT'']"
    using frame_end.send_frames_all [OF memk.tl_frame_end, of "(\<lparr>sockfd = 3\<rparr>, demo_link)" "[''LIST'', ''LOGOUT'']" 64]
    by (auto simp: frame_ok_def demo_link_def)
  show ?thesis
    using client_frames_reach_server [OF memk.kernel_stream_axioms memk.kernel_stream_axioms,
        where k = demo_link and t = "\<lparr>sockfd = 3\<rparr>" and fd = 5 and ps = "[''LIST'', ''LOGOUT'']" and m = 64 and ok = True
          and ?k1.0 = "demo_link\<lparr>mk_in := (\<lambda>_. [])(5 := enc_all [''LIST'', ''LOGOUT''])\<rparr>" and t' = "fst s'" and k' = "snd s'"] s'
    by (auto simp: frame_ok_def isValidSocket_def kInvalidSocket_def demo_link_def
          simp del: recv_frames.simps send_frames.simps)
qed

theorem server_frames_reach_client_witness:
  "fst (recv_frames (\<lambda>s. receiveFrame (\<lambda>s n. tl_receive memk_sys s True n) s 64)
     (\<lparr>sockfd = 3\<rparr>, demo_link\<lparr>mk_in := (\<lambda>_. [])(3 := enc_all [''USERS_BEGIN'', ''USERS_END''])\<rparr>) (Suc (Suc 0))) = [''USERS_BEGIN'', ''USERS_END'']"
proof -
  obtain k' where k': "send_frames (\<lambda>k p. sendFrame_native memk_sys 5 k p 64) demo_link [''USERS_BEGIN'', ''USERS_END''] = (True, k')"
    "mk_out k' 5 = enc_all [''USERS_BEGIN'', ''USERS_END'']"
    using frame_end.send_frames_all [OF memk.native_frame_end [of 5 64], where s = demo_link and ps = "[''USERS_BEGIN'', ''USERS_END'']"]
    by (auto simp: frame_ok_def demo_link_def isValidSocket_def kInvalidSocket_def)
  show ?thesis
    using server_frames_reach_client [OF memk.kernel_stream_axioms memk.kernel_stream_axioms,
        where k = "demo_link\<lparr>mk_in := (\<lambda>_. [])(3 := enc_all [''USERS_BEGIN'', ''USERS_END''])\<rparr>" and t = "\<lparr>sockfd = 3\<rparr>"
          and ?k1.0 = demo_link and fd = 5 and ps = "[''USERS_BEGIN'', ''USERS_END'']" and m = 64 and ok = True and k1' = k'] k'
    by (auto simp: frame_ok_def isValidSocket_def kInvalidSocket_def demo_link_def
          simp del: recv_frames.simps send_frames.simps)
qed

subsection \<open>The two transfer layers\<close>

text \<open>(C28) The native-handle overloads of \<open>sendFrame\<close> and \<open>receiveFrame\<close> do the same transfers as the \<open>ISocket\<close>
  overloads over the same system calls: sending differs only in that an invalid handle is refused;
  receiving makes the same reads, returns the same bytes and agrees on \<open>Ok\<close> and \<open>TooLarge\<close>, so the
  two differ only in which of \<open>Closed\<close> and \<open>Error\<close> they report for a stream that ended early.\<close>

theorem native_transfer_equiv:
  "sendFrame_native sys fd k p m =
     (if \<not> isValidSocket fd then (False, k) else sendFrame (native_send sys fd) k p m)
   \<and> snd (receiveFrame_native sys fd k m) = snd (receiveFrame (native_recv sys fd) k m)
   \<and> (fst (receiveFrame_native sys fd k m) = RF_Ok \<longleftrightarrow> fst (receiveFrame (native_recv sys fd) k m) = RF_Ok)
   \<and> (fst (receiveFrame_native sys fd k m) = RF_TooLarge \<longleftrightarrow> fst (receiveFrame (native_recv sys fd) k m) = RF_TooLarge)
   \<and> fst (receiveFrame_native sys fd k m) \<noteq> RF_Invalid"
proof -
  have "sendFrame_native sys fd k p m = (if \<not> isValidSocket fd then (False, k) else sendFrame (native_send sys fd) k p m)"
    by (cases "isValidSocket fd") (simp_all add: sendFrame_native_eq, simp add: sendFrame_native_def sendAll_native_def)
  moreover obtain st q k' where r: "receiveFrame_native sys fd k m = (st, q, k')" by (metis prod_cases3)
  ultimately show ?thesis
    using receiveFrame_native_sim [OF r] r by auto
qed

text \<open>(C27) Reading a frame is bounded by the limit: over a kernel that keeps the stream contract, the
  native \<open>receiveFrame\<close> consumes the encoding of the frame it returns and nothing else, the payload
  is at most the limit, and for an oversized header it consumes exactly the four header bytes and
  returns no payload.\<close>

theorem receive_bounded:
  assumes "kernel_stream sys outq inq alive kinv" "kinv k" "receiveFrame_native sys fd k m = (status, p, k')"
  shows "(status = RF_Ok \<longrightarrow> inq k fd = encodeFrame p @ inq k' fd \<and> length p \<le> m)
    \<and> (status = RF_TooLarge \<longrightarrow> p = [] \<and> (\<exists>header. length header = kFrameHeaderSize \<and> inq k fd = header @ inq k' fd
         \<and> m < unat (readBigEndian32 header)))
    \<and> outq k' fd = outq k fd"
proof -
  from receiveFrame_native_sim [OF assms(3)] obtain st where st:
    "receiveFrame (native_recv sys fd) k m = (st, p, k')" "status = RF_Ok \<longleftrightarrow> st = RF_Ok"
    "status = RF_TooLarge \<longleftrightarrow> st = RF_TooLarge" by blast
  note strm = kernel_stream.native_stream [OF assms(1), of fd]
  have "status = RF_TooLarge \<longrightarrow> p = []"
    using assms(3) by (auto simp: receiveFrame_native_def Let_def split: prod.splits if_splits)
  moreover have "status = RF_Ok \<longrightarrow> inq k fd = encodeFrame p @ inq k' fd \<and> length p \<le> m"
    using stream_socket.receiveFrame_Ok [OF strm assms(2)] st by (auto simp: frame_ok_def)
  ultimately show ?thesis
    using stream_socket.receiveFrame_consumes [OF strm assms(2) st(1)] st by blast
qed

theorem receive_bounded_witness:
  "mk_in (snd (snd (receiveFrame_native memk_sys 5 (demo_link\<lparr>mk_in := (\<lambda>_. encodeFrame ''LIST'' @ ''tail'')\<rparr>) 64))) 5 = ''tail''"
proof -
  let ?k = "demo_link\<lparr>mk_in := (\<lambda>_. encodeFrame ''LIST'' @ ''tail'')\<rparr>"
  obtain k' where k': "receiveFrame_native memk_sys 5 ?k 64 = (RF_Ok, ''LIST'', k')"
    using memk.native_end.rx_law [where s = ?k and fd = 5 and m = 64 and p = "''LIST''" and rest = "''tail''"]
    by (auto simp: frame_ok_def isValidSocket_def kInvalidSocket_def)
  have "mk_in k' 5 = ''tail''"
    using receive_bounded [OF memk.kernel_stream_axioms _ k'] by simp
  then show ?thesis by (simp only: k' snd_conv)
qed

end
