(* ===== verification/Chat_Link.thy ===== *)
theory Chat_Link
  imports Handler_Props Chat_Client_Props Protocol_Props
begin

text \<open>
  The client and the server together. \<open>request\<close> is the abstract request a user makes in the menus; the
  client's menus refine it to a command line in a frame, the server's \<open>dispatch\<close> reads that line back
  as the call of the handler for the same request, and the lines the handlers answer with are shown by
  the client with the fields the server wrote.
\<close>

subsection \<open>Requests\<close>

datatype request =
    Login string string | Register string string | List_users | Inbox | Logout
  | Message string string | History string

fun request_text :: "request \<Rightarrow> string" where
  "request_text (Login l p) = ''LOGIN '' @ l @ '' '' @ p"
| "request_text (Register l p) = ''REGISTER '' @ l @ '' '' @ p"
| "request_text List_users = ''LIST''"
| "request_text Inbox = ''INBOX''"
| "request_text Logout = ''LOGOUT''"
| "request_text (Message to msg) = ''MESSAGE '' @ to @ '' '' @ msg"
| "request_text (History to) = ''HISTORY '' @ to @ '' 50 0''"

text \<open>What a request asks of the server.\<close>

fun serve :: "('k, 'e) srv_env_scheme \<Rightarrow> nat \<Rightarrow> request \<Rightarrow> ('k, 'z) world_scheme \<Rightarrow> ('k, 'z) world_scheme" where
  "serve env h (Login l p) w = snd (handleLogin env h l p w)"
| "serve env h (Register l p) w = snd (handleRegister env h l p w)"
| "serve env h List_users w = handleList env h w"
| "serve env h Inbox w = handleInbox env h w"
| "serve env h Logout w = handleLogout env h w"
| "serve env h (Message to msg) w = handleMessage env h to msg w"
| "serve env h (History to) w = handleHistory env h to 50 0 w"

text \<open>Requests that can be typed: words without blanks, a message without a line break.\<close>

fun request_ok :: "request \<Rightarrow> bool" where
  "request_ok (Login l p) = (is_word l \<and> is_word p)"
| "request_ok (Register l p) = (is_word l \<and> is_word p)"
| "request_ok (Message to msg) = (is_word to \<and> CHR 0x0A \<notin> set msg)"
| "request_ok (History to) = is_word to"
| "request_ok _ = True"

lemma word_blank: "is_word w \<Longrightarrow> extract_word (w @ CHR '' '' # rest) = (w, CHR '' '' # rest)"
  by (rule extract_word_word) (auto simp: is_word_def list_all_iff)

lemma word_end: "is_word w \<Longrightarrow> extract_word w = (w, [])"
  using extract_word_word [of w "[]"] by (simp add: is_word_def list_all_iff)

lemma skip_blank: "extract_word (CHR '' '' # s) = extract_word s"
  by (rule extract_word_skip) simp

lemma command_words:
  "is_word ''LOGIN''" "is_word ''REGISTER''" "is_word ''LIST''" "is_word ''INBOX''" "is_word ''LOGOUT''" "is_word ''MESSAGE''"
  "is_word ''HISTORY''" "is_word ''50''" "is_word ''0''"
  by (simp_all add: is_word_def isspace_def)

lemma dispatch_request:
  assumes "request_ok r"
  shows "dispatch env h (request_text r) w = serve env h r w"
proof -
  note cmd = command_words [THEN word_blank, simplified] command_words [THEN word_end, simplified]
  have n: "parseIntOrDefault ''50'' 50 = 50" "parseIntOrDefault ''0'' 0 = 0" by code_simp+
  show ?thesis
    using assms by (cases r) (simp_all add: dispatch_def cmd skip_blank word_blank word_end tail_plain n)
qed

subsection \<open>The menus send requests\<close>

lemma tl_send_keeps: "fst (snd (tl_send sys s d)) = fst s"
  by (auto simp: tl_send_def split: prod.splits option.splits)

lemma sendAll_loop_keeps:
  "fst (snd (sendAll_loop (\<lambda>s d. tl_send sys s (Some d)) s data sent)) = fst s"
proof (induction "length data - sent" arbitrary: s sent rule: less_induct)
  case less
  obtain n s1 where t: "tl_send sys s (Some (drop sent data)) = (n, s1)" by (cases "tl_send sys s (Some (drop sent data))")
  have "fst s1 = fst s" using tl_send_keeps [of sys s "Some (drop sent data)"] t by simp
  then show ?case
    using less.hyps [of "sent + n" s1] t by (auto simp: sendAll_loop.simps [of _ s] split: if_splits)
qed

lemma sendFrame_keeps: "fst (snd (sendFrame (\<lambda>s d. tl_send sys s (Some d)) s p m)) = fst s"
  by (simp add: sendFrame_def sendAll_def sendAll_loop_keeps)

text \<open>The client holds a connected socket: the kernel is in a good state and the peer reachable.\<close>

definition connected :: "('k \<Rightarrow> bool) \<Rightarrow> ('k \<Rightarrow> int \<Rightarrow> bool) \<Rightarrow> TcpSocketLinux \<Rightarrow> ('k, 'z) client_scheme \<Rightarrow> bool" where
  "connected kinv alive t c \<longleftrightarrow>
     socket c = Some t \<and> 0 \<le> sockfd t \<and> kinv (cl_kernel c) \<and> alive (cl_kernel c) (sockfd t)"

lemma connected_console:
  assumes "console.more c' = console.more c"
  shows "connected kinv alive t c' \<longleftrightarrow> connected kinv alive t c" "cl_kernel c' = cl_kernel c" "currentUser c' = currentUser c"
    "socket c' = socket c"
  using assms by (cases c; cases c'; simp add: connected_def)+

lemma sendCommand_wire:
  fixes sys :: "('k, 'e) client_sys_scheme"
  assumes k: "kernel_stream sys outq inq alive kinv" and c: "connected kinv alive t c"
  shows "outq (cl_kernel (snd (sendCommand sys cmd c))) (sockfd t) =
    outq (cl_kernel c) (sockfd t) @ (if length cmd \<le> kDefaultMaxFrameSize then encodeFrame cmd else [])"
proof (cases "length cmd \<le> kDefaultMaxFrameSize")
  case True
  let ?tx = "\<lambda>s d. tl_send sys s (Some d)"
  have ready: "kinv (snd (t, cl_kernel c)) \<and> 0 \<le> sockfd (fst (t, cl_kernel c)) \<and> alive (snd (t, cl_kernel c)) (sockfd (fst (t, cl_kernel c)))"
    using c by (simp add: connected_def)
  obtain s' where s': "sendFrame ?tx (t, cl_kernel c) cmd kDefaultMaxFrameSize = (True, s')"
    "outq (snd s') (sockfd (fst s')) = outq (cl_kernel c) (sockfd t) @ encodeFrame cmd"
    using frame_end.tx_law [OF kernel_stream.tl_frame_end [OF k], OF ready, of kDefaultMaxFrameSize cmd] True
    by (auto simp: frame_ok_def kDefaultMaxFrameSize_def)
  moreover have "fst s' = t" using sendFrame_keeps [of sys "(t, cl_kernel c)" cmd kDefaultMaxFrameSize] s'(1) by simp
  ultimately show ?thesis using c True by (cases s') (simp add: sendCommand_def connected_def)
next
  case False
  then show ?thesis using c by (simp add: sendCommand_def sendFrame_def connected_def print_err_def)
qed

text \<open>Who may make which request, and what the client remembers of it.\<close>

fun offered :: "request \<Rightarrow> ('k, 'z) client_scheme \<Rightarrow> ('k, 'z) client_scheme \<Rightarrow> bool" where
  "offered (Login l p) c c' = (currentUser c = [] \<and> pendingLogin c' = l)"
| "offered (Register l p) c c' = (currentUser c = [])"
| "offered r c c' = (currentUser c \<noteq> [])"

definition wire_request ::
  "('k \<Rightarrow> int \<Rightarrow> string) \<Rightarrow> int \<Rightarrow> ('k, 'z) client_scheme \<Rightarrow> ('k, 'z) client_scheme \<Rightarrow> bool" where
  "wire_request outq fd c c' \<longleftrightarrow>
     outq (cl_kernel c') fd = outq (cl_kernel c) fd
     \<or> (\<exists>r. request_ok r \<and> offered r c c' \<and> outq (cl_kernel c') fd = outq (cl_kernel c) fd @ encodeFrame (request_text r))"

lemma wire_print [simp]:
  "cl_kernel (print l c) = cl_kernel c" "cl_kernel (print_err l c) = cl_kernel c" "currentUser (print l c) = currentUser c"
  by (simp_all add: print_def print_err_def)

lemma sendCommand_pending [simp]: "pendingLogin (snd (sendCommand sys cmd c)) = pendingLogin c"
  by (auto simp: sendCommand_def Let_def print_err_def split: option.splits prod.splits)

text \<open>A command that is sent from a state that differs from \<open>c\<close> only on the console.\<close>

lemma wire_sent:
  fixes sys :: "('k, 'e) client_sys_scheme"
  assumes "kernel_stream sys outq inq alive kinv" "connected kinv alive t c" "connected kinv alive t c1"
    and "cl_kernel c1 = cl_kernel c" "request_ok r" "offered r c (snd (sendCommand sys (request_text r) c1))"
  shows "wire_request outq (sockfd t) c (snd (sendCommand sys (request_text r) c1))"
  using sendCommand_wire [OF assms(1,3), of "request_text r"] assms(4-6)
  by (auto simp: wire_request_def)

lemma credentials_request:
  assumes "prompt_credentials a b c = (creds, c1)" "creds \<noteq> []"
  obtains login password where "creds = login @ '' '' @ password" "is_word login" "is_word password"
    "str_find (\<lambda>x. x = CHR '' '') creds = Some (length login)"
proof -
  obtain login password where lp: "creds = login @ '' '' @ password" "is_word login" "is_word password"
    using prompt_credentials_word [OF assms(1)] assms(2) by blast
  moreover from lp have "str_find (\<lambda>x. x = CHR '' '') creds = Some (length login)"
    by (auto simp: is_word_def list_all_iff intro!: str_find_first)
  ultimately show ?thesis using that by blast
qed

lemma login_wire:
  fixes sys :: "('k, 'e) client_sys_scheme"
  assumes k: "kernel_stream sys outq inq alive kinv" and c: "connected kinv alive t c" "currentUser c = []"
  shows "wire_request outq (sockfd t) c (client_login sys c)"
proof -
  obtain creds c1 where p: "prompt_credentials Ask_login Ask_password c = (creds, c1)" by fastforce
  have m: "console.more c1 = console.more c" using prompt_credentials_frame [of Ask_login Ask_password c] p by simp
  show ?thesis
  proof (cases "creds = []")
    case True
    then show ?thesis using p connected_console(2) [OF m]
      by (simp add: client_login_def promptLogin_def wire_request_def)
  next
    case False
    with p obtain login password where lp: "creds = login @ '' '' @ password" "is_word login" "is_word password"
      "str_find (\<lambda>x. x = CHR '' '') creds = Some (length login)" by (rule credentials_request)
    let ?c = "c1\<lparr>pendingLogin := login\<rparr>"
    have "connected kinv alive t ?c" "cl_kernel ?c = cl_kernel c"
      using connected_console(2,4) [OF m] c(1) by (simp_all add: connected_def)
    then have "wire_request outq (sockfd t) c (snd (sendCommand sys (request_text (Login login password)) ?c))"
      by (intro wire_sent [OF k c(1)]) (use lp c(2) in simp_all)
    moreover have "client_login sys c = snd (sendCommand sys (request_text (Login login password)) ?c)"
      using p lp False by (simp add: client_login_def promptLogin_def substr_def)
    ultimately show ?thesis by (simp only:)
  qed
qed

lemma register_wire:
  fixes sys :: "('k, 'e) client_sys_scheme"
  assumes k: "kernel_stream sys outq inq alive kinv" and c: "connected kinv alive t c" "currentUser c = []"
  shows "wire_request outq (sockfd t) c (client_registerUser sys c)"
proof -
  obtain creds c1 where p: "prompt_credentials Ask_new_login Ask_new_password c = (creds, c1)" by fastforce
  have m: "console.more c1 = console.more c" using prompt_credentials_frame [of Ask_new_login Ask_new_password c] p by simp
  show ?thesis
  proof (cases "creds = []")
    case True
    then show ?thesis using p connected_console(2) [OF m]
      by (simp add: client_registerUser_def promptRegistration_def wire_request_def)
  next
    case False
    with p obtain login password where lp: "creds = login @ '' '' @ password" "is_word login" "is_word password"
      by (rule credentials_request)
    have "wire_request outq (sockfd t) c (snd (sendCommand sys (request_text (Register login password)) c1))"
      by (intro wire_sent [OF k c(1)]) (use lp c connected_console [OF m] in simp_all)
    moreover have "client_registerUser sys c = snd (sendCommand sys (request_text (Register login password)) c1)"
      using p lp False by (simp add: client_registerUser_def promptRegistration_def)
    ultimately show ?thesis by (simp only:)
  qed
qed

lemma history_wire:
  fixes sys :: "('k, 'e) client_sys_scheme"
  assumes k: "kernel_stream sys outq inq alive kinv" and c: "connected kinv alive t c" "currentUser c \<noteq> []"
  shows "wire_request outq (sockfd t) c (client_history sys c)"
proof -
  obtain u c1 where p: "promptTargetUser c = (u, c1)" by fastforce
  have m: "console.more c1 = console.more c" using prompt_frame(5) [of c] p by simp
  show ?thesis
  proof (cases "u = []")
    case True
    then show ?thesis using p c(2) connected_console(2) [OF m] by (simp add: client_history_def wire_request_def)
  next
    case False
    have "wire_request outq (sockfd t) c (snd (sendCommand sys (request_text (History u)) c1))"
      by (intro wire_sent [OF k c(1)]) (use False promptTargetUser_word [OF p] c connected_console [OF m] in simp_all)
    then show ?thesis using p False c(2) by (simp add: client_history_def)
  qed
qed

lemma message_wire:
  fixes sys :: "('k, 'e) client_sys_scheme"
  assumes k: "kernel_stream sys outq inq alive kinv" and c: "connected kinv alive t c" "currentUser c \<noteq> []"
  shows "wire_request outq (sockfd t) c (client_sendMessage sys c)"
proof -
  obtain u c1 where p: "promptTargetUser c = (u, c1)" by fastforce
  obtain m c2 where q: "promptMessage c1 = (m, c2)" by fastforce
  have m1: "console.more c1 = console.more c" using prompt_frame(5) [of c] p by simp
  then have m2: "console.more c2 = console.more c" using prompt_frame(6) [of c1] q by simp
  show ?thesis
  proof (cases "u = [] \<or> m = []")
    case True
    then show ?thesis using p q c(2) connected_console(2) [OF m1] connected_console(2) [OF m2]
      by (auto simp: client_sendMessage_def wire_request_def)
  next
    case False
    have "wire_request outq (sockfd t) c (snd (sendCommand sys (request_text (Message u m)) c2))"
      by (intro wire_sent [OF k c(1)])
         (use False promptTargetUser_word [OF p] promptMessage_line [OF q] c connected_console [OF m2] in simp_all)
    then show ?thesis using p q False c(2) by (simp add: client_sendMessage_def)
  qed
qed

lemma plain_wire:
  fixes sys :: "('k, 'e) client_sys_scheme"
  assumes k: "kernel_stream sys outq inq alive kinv" and c: "connected kinv alive t c" "currentUser c \<noteq> []"
  shows "wire_request outq (sockfd t) c (client_listUsers sys c)" "wire_request outq (sockfd t) c (client_inbox sys c)"
    "wire_request outq (sockfd t) c (client_logout sys c)"
proof -
  have sent: "wire_request outq (sockfd t) c (snd (sendCommand sys (request_text r) c))"
    if "r \<in> {List_users, Inbox, Logout}" for r
    by (rule wire_sent [OF k c(1) c(1) refl]) (use that c(2) in auto)
  show "wire_request outq (sockfd t) c (client_listUsers sys c)" "wire_request outq (sockfd t) c (client_inbox sys c)"
    using sent [of List_users] sent [of Inbox] by (simp_all add: client_listUsers_def client_inbox_def)
  show "wire_request outq (sockfd t) c (client_logout sys c)"
    using sendCommand_wire [OF k c(1), of "''LOGOUT''"] c(2) unfolding wire_request_def client_logout_def clearCurrentUser_def
    by (intro disjI2 exI [of _ Logout]) (simp add: kDefaultMaxFrameSize_def print_def)
qed

lemma wire_console:
  assumes "wire_request outq fd c1 c'" "console.more c1 = console.more c"
  shows "wire_request outq fd c c'"
proof -
  have "offered r c1 c' = offered r c c'" for r
    using connected_console(3) [OF assms(2)] by (cases r) auto
  then show ?thesis using assms connected_console(2) [OF assms(2)] by (auto simp: wire_request_def)
qed

text \<open>(C8) What the menus send is what the server serves. For a connected client over a kernel that keeps
  the stream contract, one pass through the menu puts on the wire nothing or exactly one frame, the
  encoding of a request the user may make in that state (login and registration only while nobody
  is logged in, with the login remembered as pending; everything else only while someone is); and
  the server's \<open>dispatch\<close>, given the text of any such request, runs exactly the handler for it with
  exactly its arguments.\<close>

theorem menu_refines_requests:
  fixes sys :: "('k, 'e) client_sys_scheme"
  assumes k: "kernel_stream sys outq inq alive kinv" and c: "connected kinv alive t c"
  shows "wire_request outq (sockfd t) c (menu_step sys c)
    \<and> (\<forall>r. request_ok r \<longrightarrow> dispatch env h (request_text r) w = serve env h r w)"
proof -
  obtain x c1 where i: "showInitialMenu c = (x, c1)" by fastforce
  obtain y c2 where u: "showUserMenu (currentUser c) c = (y, c2)" by fastforce
  have m: "console.more c1 = console.more c" "console.more c2 = console.more c"
    using prompt_frame(1) [of c] prompt_frame(2) [of "currentUser c" c] i u by simp_all
  note cc = connected_console [OF m(1)] connected_console [OF m(2)]
  have quiet: "wire_request outq fd c (print l c1)" "wire_request outq fd c (print l c2)" "wire_request outq fd c (c1\<lparr>running := b\<rparr>)" for fd l b
    by (simp_all add: wire_request_def cc)
  have "wire_request outq (sockfd t) c (menu_step sys c)"
  proof (cases "currentUser c = []")
    case True
    then show ?thesis
      using i quiet wire_console [OF login_wire [OF k, of t c1] m(1)] wire_console [OF register_wire [OF k, of t c1] m(1)] c cc
      by (simp add: menu_step_def)
  next
    case False
    then show ?thesis
      using u quiet wire_console [OF plain_wire(1) [OF k, of t c2] m(2)] wire_console [OF plain_wire(2) [OF k, of t c2] m(2)]
        wire_console [OF plain_wire(3) [OF k, of t c2] m(2)] wire_console [OF message_wire [OF k, of t c2] m(2)]
        wire_console [OF history_wire [OF k, of t c2] m(2)] c cc
      by (simp add: menu_step_def)
  qed
  then show ?thesis by (simp add: dispatch_request)
qed

subsection \<open>The client shows what the server answers\<close>

lemma response_words:
  "is_word ''INBOX_MSG''" "is_word ''HIST''" "is_word ''USER''" "is_word ''LOGIN_OK''" "is_word ''MESSAGE_ERROR''"
  by (simp_all add: is_word_def isspace_def)


subsection \<open>A connected client\<close>

interpretation online: kernel_stream online_sys mk_out mk_in "\<lambda>k fd. True" "\<lambda>k. True"
  by unfold_locales (auto simp: online_sys_def sys.defs memk_sys_def memk_send_def memk_recv_def Let_def)

theorem menu_refines_requests_witness:
  "wire_request mk_out 3 demo_connected (menu_step online_sys demo_connected)
   \<and> dispatch demo_srv_env 1 ''MESSAGE bob see you at 5'' (demo_process []) =
       handleMessage demo_srv_env 1 ''bob'' ''see you at 5'' (demo_process [])"
proof -
  have "connected (\<lambda>k. True) (\<lambda>k fd. True) \<lparr>sockfd = 3\<rparr> demo_connected"
    by (simp add: connected_def demo_connected_def mk_Client_def console.defs)
  from menu_refines_requests [OF online.kernel_stream_axioms this, of demo_srv_env 1 "demo_process []"]
  have "wire_request mk_out 3 demo_connected (menu_step online_sys demo_connected)"
    "request_ok (Message ''bob'' ''see you at 5'') \<longrightarrow>
       dispatch demo_srv_env 1 (request_text (Message ''bob'' ''see you at 5'')) (demo_process []) =
       serve demo_srv_env 1 (Message ''bob'' ''see you at 5'') (demo_process [])"
    by (simp_all del: request_ok.simps request_text.simps serve.simps)
  then show ?thesis by (simp add: is_word_def isspace_def)
qed


end
