(* ===== verification/Thread_Pool.thy ===== *)
theory Thread_Pool
  imports Messenger_Prelude "HOL-Library.Multiset"
begin

text \<open>
  The class \<open>ThreadPool\<close> of \<open>libs/threading/src/ThreadPool.cpp\<close> and the \<open>Logger\<close> beside it. A task is
  a number. The pool's threads are a list of worker states; the mutex makes each critical section one step of
  \<open>tp_step\<close>, the notifications of \<open>enqueue\<close> and of the destructor are steps of their own, since both are
  sent after the lock is released, and sleepers may wake up spuriously. A task that throws ends the
  process (\<open>std::terminate\<close>) and is not modelled.
\<close>

subsection \<open>The queue\<close>

record ThreadPool =
  tasks :: "nat list"
  stop :: bool

definition tp_enqueue :: "nat \<Rightarrow> ThreadPool \<Rightarrow> string + ThreadPool" where
  "tp_enqueue task p =
     (if stop p then Inl ''enqueue on stopped ThreadPool'' else Inr (p\<lparr>tasks := tasks p @ [task]\<rparr>))"

text \<open>A worker's critical section: it waits, returns, or takes a task.\<close>

datatype verdict = Wait_more | Return | Run_task nat

definition worker_section :: "ThreadPool \<Rightarrow> verdict \<times> ThreadPool" where
  "worker_section p =
     (if \<not> (stop p \<or> tasks p \<noteq> []) then (Wait_more, p)
      else if stop p \<and> tasks p = [] then (Return, p)
      else (Run_task (hd (tasks p)), p\<lparr>tasks := tl (tasks p)\<rparr>))"

definition threading_log :: "string \<Rightarrow> string \<Rightarrow> string list \<Rightarrow> string list" where
  "threading_log tag message out = out @ [''['' @ tag @ ''] '' @ message]"

subsection \<open>Workers\<close>

datatype worker = Runnable | Asleep | Working nat | Exited

text \<open>\<open>accepted\<close>, \<open>started\<close> and \<open>finished\<close> record the order in which tasks were enqueued, taken and completed;
  \<open>due_one\<close> and \<open>due_all\<close> are the notifications still to be sent.\<close>

record tp_sys =
  tp :: ThreadPool
  workers :: "worker list"
  due_one :: nat
  due_all :: bool
  accepted :: "nat list"
  started :: "nat list"
  finished :: "nat list"

definition mk_ThreadPool :: "nat \<Rightarrow> tp_sys" where
  "mk_ThreadPool numThreads =
     \<lparr>tp = \<lparr>tasks = [], stop = False\<rparr>, workers = replicate numThreads Runnable, due_one = 0, due_all = False,
      accepted = [], started = [], finished = []\<rparr>"

inductive tp_step :: "tp_sys \<Rightarrow> tp_sys \<Rightarrow> bool" where
  Enqueue: "tp_enqueue task (tp s) = Inr p \<Longrightarrow>
    tp_step s (s\<lparr>tp := p, due_one := Suc (due_one s), accepted := accepted s @ [task]\<rparr>)"
| Sleep: "i < length (workers s) \<Longrightarrow> workers s ! i = Runnable \<Longrightarrow> worker_section (tp s) = (Wait_more, p) \<Longrightarrow>
    tp_step s (s\<lparr>tp := p, workers := (workers s)[i := Asleep]\<rparr>)"
| Exit: "i < length (workers s) \<Longrightarrow> workers s ! i = Runnable \<Longrightarrow> worker_section (tp s) = (Return, p) \<Longrightarrow>
    tp_step s (s\<lparr>tp := p, workers := (workers s)[i := Exited]\<rparr>)"
| Take: "i < length (workers s) \<Longrightarrow> workers s ! i = Runnable \<Longrightarrow> worker_section (tp s) = (Run_task t, p) \<Longrightarrow>
    tp_step s (s\<lparr>tp := p, workers := (workers s)[i := Working t], started := started s @ [t]\<rparr>)"
| Complete: "i < length (workers s) \<Longrightarrow> workers s ! i = Working t \<Longrightarrow>
    tp_step s (s\<lparr>workers := (workers s)[i := Runnable], finished := finished s @ [t]\<rparr>)"
| Wake: "i < length (workers s) \<Longrightarrow> workers s ! i = Asleep \<Longrightarrow>
    tp_step s (s\<lparr>workers := (workers s)[i := Runnable]\<rparr>)"
| Notify_one: "due_one s = Suc n \<Longrightarrow> i < length (workers s) \<Longrightarrow> workers s ! i = Asleep \<Longrightarrow>
    tp_step s (s\<lparr>due_one := n, workers := (workers s)[i := Runnable]\<rparr>)"
| Notify_nobody: "due_one s = Suc n \<Longrightarrow> Asleep \<notin> set (workers s) \<Longrightarrow> tp_step s (s\<lparr>due_one := n\<rparr>)"
| Stop: "\<not> stop (tp s) \<Longrightarrow> tp_step s (s\<lparr>tp := (tp s)\<lparr>stop := True\<rparr>, due_all := True\<rparr>)"
| Notify_all: "due_all s \<Longrightarrow>
    tp_step s (s\<lparr>due_all := False, workers := map (\<lambda>w. if w = Asleep then Runnable else w) (workers s)\<rparr>)"

inductive_cases tp_stepE: "tp_step s s'"

text \<open>The destructor's joins have all returned.\<close>

definition tp_joined :: "tp_sys \<Rightarrow> bool" where
  "tp_joined s \<longleftrightarrow> stop (tp s) \<and> \<not> due_all s \<and> list_all (\<lambda>w. w = Exited) (workers s)"

subsection \<open>Invariant\<close>

fun in_progress :: "worker \<Rightarrow> nat list" where
  "in_progress (Working t) = [t]"
| "in_progress w = []"

definition running :: "tp_sys \<Rightarrow> nat multiset" where
  "running s = mset (concat (map in_progress (workers s)))"

definition tp_ok :: "tp_sys \<Rightarrow> bool" where
  "tp_ok s \<longleftrightarrow> started s @ tasks (tp s) = accepted s
     \<and> mset (started s) = mset (finished s) + running s
     \<and> (Exited \<in> set (workers s) \<longrightarrow> stop (tp s) \<and> tasks (tp s) = [])
     \<and> (stop (tp s) \<and> Asleep \<in> set (workers s) \<longrightarrow> due_all s)"

lemma running_update:
  assumes "i < length ws"
  shows "mset (concat (map in_progress (ws[i := w]))) + mset (in_progress (ws ! i)) =
    mset (concat (map in_progress ws)) + mset (in_progress w)"
  using assms
proof (induction ws arbitrary: i)
  case (Cons v ws)
  then show ?case by (cases i) (auto simp: add.assoc add.commute add.left_commute)
qed simp

lemma running_wake: "map in_progress (map (\<lambda>w. if w = Asleep then Runnable else w) ws) = map in_progress ws"
  by (induction ws) auto

lemma set_update_cases: "w \<in> set (ws[i := v]) \<Longrightarrow> w = v \<or> w \<in> set ws"
  using set_update_subset_insert by fastforce

lemmas section_defs = worker_section_def tp_enqueue_def

text \<open>A worker changes state: the account of running tasks, and who is asleep or gone.\<close>

lemma running_set:
  assumes "i < length (workers s)" "workers s' = (workers s)[i := w]"
  shows "running s' + mset (in_progress (workers s ! i)) = running s + mset (in_progress w)"
  using running_update [OF assms(1), of w] assms(2) by (simp add: running_def)

lemma tp_step_ok:
  assumes "tp_step s s'" "tp_ok s"
  shows "tp_ok s'"
  using assms(1)
proof cases
  case (Enqueue task p)
  then show ?thesis using assms(2) by (auto simp: tp_ok_def tp_enqueue_def running_def split: if_splits)
next
  case (Sleep i p)
  then show ?thesis using assms(2) running_set [of i s s' Asleep]
    by (auto simp: tp_ok_def worker_section_def dest: set_update_cases split: if_splits)
next
  case (Exit i p)
  then show ?thesis using assms(2) running_set [of i s s' Exited]
    by (auto simp: tp_ok_def worker_section_def dest: set_update_cases split: if_splits)
next
  case (Take i t p)
  then show ?thesis using assms(2) running_set [of i s s' "Working t"]
    by (auto simp: tp_ok_def worker_section_def dest: set_update_cases split: if_splits)
next
  case (Complete i t)
  then show ?thesis using assms(2) running_set [of i s s' Runnable]
    by (auto simp: tp_ok_def dest: set_update_cases)
next
  case (Wake i)
  then show ?thesis using assms(2) running_set [of i s s' Runnable]
    by (auto simp: tp_ok_def dest: set_update_cases)
next
  case (Notify_one n i)
  then show ?thesis using assms(2) running_set [of i s s' Runnable]
    by (auto simp: tp_ok_def dest: set_update_cases)
next
  case Notify_all
  have "map in_progress (workers s') = map in_progress (workers s)"
    unfolding Notify_all(1) by (simp add: running_wake del: map_map)
  then have "running s' = running s" by (simp add: running_def)
  with Notify_all assms(2) show ?thesis by (auto simp: tp_ok_def split: if_splits)
qed (use assms(2) in \<open>auto simp: tp_ok_def running_def\<close>)

lemma tp_step_length: "tp_step s s' \<Longrightarrow> length (workers s') = length (workers s)"
  by (induction rule: tp_step.induct) simp_all

lemma tp_reachable:
  assumes "tp_step\<^sup>*\<^sup>* (mk_ThreadPool n) s"
  shows "tp_ok s \<and> length (workers s) = n"
  using assms
proof (induction rule: rtranclp_induct)
  case base
  then show ?case by (simp add: tp_ok_def mk_ThreadPool_def running_def)
next
  case (step s s')
  then show ?case using tp_step_ok tp_step_length by simp
qed


text \<open>One worker runs task 7; the pool is destroyed while it works.\<close>

definition demo_busy :: tp_sys where
  "demo_busy = \<lparr>tp = \<lparr>tasks = [], stop = True\<rparr>, workers = [Working 7], due_one = 1, due_all = True,
     accepted = [7], started = [7], finished = []\<rparr>"

definition demo_done :: tp_sys where
  "demo_done = demo_busy\<lparr>workers := [Exited], due_all := False, finished := [7]\<rparr>"

lemma demo_busy_reachable: "tp_step\<^sup>*\<^sup>* (mk_ThreadPool 1) demo_busy"
proof -
  let ?s0 = "mk_ThreadPool 1"
  let ?s1 = "?s0\<lparr>tp := \<lparr>tasks = [7], stop = False\<rparr>, due_one := 1, accepted := [7]\<rparr>"
  let ?s2 = "?s1\<lparr>tp := \<lparr>tasks = [], stop = False\<rparr>, workers := [Working 7], started := [7]\<rparr>"
  have "tp_step ?s0 ?s1"
    using Enqueue [of 7 ?s0 "\<lparr>tasks = [7], stop = False\<rparr>"] by (simp add: mk_ThreadPool_def tp_enqueue_def)
  moreover have "tp_step ?s1 ?s2"
    using Take [of 0 ?s1 7 "\<lparr>tasks = [], stop = False\<rparr>"] by (simp add: mk_ThreadPool_def worker_section_def)
  moreover have "tp_step ?s2 demo_busy"
    using Stop [of ?s2] by (simp add: mk_ThreadPool_def demo_busy_def)
  ultimately show ?thesis by (meson converse_rtranclp_into_rtranclp rtranclp.rtrancl_refl)
qed

lemma demo_done_reachable: "tp_step\<^sup>*\<^sup>* (mk_ThreadPool 1) demo_done"
proof -
  let ?s1 = "demo_busy\<lparr>workers := [Runnable], finished := [7]\<rparr>"
  let ?s2 = "?s1\<lparr>workers := [Exited]\<rparr>"
  have "tp_step demo_busy ?s1" using Complete [of 0 demo_busy 7] by (simp add: demo_busy_def)
  moreover have "tp_step ?s1 ?s2"
    using Exit [of 0 ?s1 "tp demo_busy"] by (simp add: demo_busy_def worker_section_def)
  moreover have "tp_step ?s2 demo_done" using Notify_all [of ?s2] by (simp add: demo_busy_def demo_done_def)
  ultimately show ?thesis using demo_busy_reachable by (meson rtranclp.rtrancl_into_rtrancl)
qed


subsection \<open>The destructor returns\<close>

fun weight :: "worker \<Rightarrow> nat" where
  "weight Asleep = 2"
| "weight Runnable = 1"
| "weight (Working t) = 2"
| "weight Exited = 0"

definition tp_measure :: "tp_sys \<Rightarrow> nat" where
  "tp_measure s = 2 * length (tasks (tp s)) + sum_list (map weight (workers s)) + due_one s + (if due_all s then 1 else 0)"

lemma weight_update:
  "i < length ws \<Longrightarrow> sum_list (map weight (ws[i := w])) + weight (ws ! i) = sum_list (map weight ws) + weight w"
proof (induction ws arbitrary: i)
  case (Cons v ws)
  then show ?case by (cases i) (auto simp: add.assoc add.commute add.left_commute)
qed simp

lemma weight_wake: "sum_list (map weight (map (\<lambda>w. if w = Asleep then Runnable else w) ws)) \<le> sum_list (map weight ws)"
  by (induction ws) auto

lemma stopped_step_decreases:
  assumes "tp_step s s'" "stop (tp s)"
  shows "tp_measure s' < tp_measure s \<and> stop (tp s')"
  using assms(1)
proof cases
  case (Take i t p)
  then show ?thesis using assms(2) weight_update [of i "workers s" "Working t"]
    by (cases "tasks (tp s)") (auto simp: tp_measure_def worker_section_def split: if_splits)
next
  case (Exit i p)
  then show ?thesis using assms(2) weight_update [of i "workers s" Exited]
    by (auto simp: tp_measure_def worker_section_def split: if_splits)
next
  case (Complete i t)
  then show ?thesis using assms(2) weight_update [of i "workers s" Runnable] by (simp add: tp_measure_def)
next
  case (Wake i)
  then show ?thesis using assms(2) weight_update [of i "workers s" Runnable] by (simp add: tp_measure_def)
next
  case (Notify_one n i)
  then show ?thesis using assms(2) weight_update [of i "workers s" Runnable] by (simp add: tp_measure_def)
next
  case Notify_all
  then show ?thesis using assms(2) weight_wake [of "workers s"] by (simp add: tp_measure_def del: map_map)
qed (use assms(2) in \<open>auto simp: tp_measure_def section_defs split: if_splits\<close>)

lemma stopped_progress:
  assumes "tp_ok s" "stop (tp s)" "\<not> tp_joined s"
  shows "\<exists>s'. tp_step s s'"
proof (cases "due_all s")
  case True
  then show ?thesis by (blast intro: Notify_all)
next
  case False
  with assms(2,3) obtain i where i: "i < length (workers s)" "workers s ! i \<noteq> Exited"
    by (auto simp: tp_joined_def list_all_length)
  then have "workers s ! i \<noteq> Asleep" using assms(1,2) False nth_mem by (force simp: tp_ok_def)
  with i(2) consider t where "workers s ! i = Working t" | "workers s ! i = Runnable" by (cases "workers s ! i") auto
  then show ?thesis
  proof cases
    case 1
    then show ?thesis using i(1) by (blast intro: Complete)
  next
    case 2
    have "fst (worker_section (tp s)) \<noteq> Wait_more" using assms(2) by (simp add: worker_section_def)
    then show ?thesis using i(1) 2
      by (cases "worker_section (tp s)"; cases "fst (worker_section (tp s))") (auto intro: Exit Take)
  qed
qed

text \<open>(C26) The destructor returns: once \<open>stop_\<close> is set, every execution of the workers, whatever the
  interleaving and with any spurious wake-ups, is finite, and it can only end with every worker
  joined.\<close>

theorem threadpool_destructor_returns:
  assumes "tp_step\<^sup>*\<^sup>* (mk_ThreadPool n) s" "stop (tp s)"
  shows "\<not> (\<exists>run. run 0 = s \<and> (\<forall>i :: nat. tp_step (run i) (run (Suc i))))
    \<and> (tp_joined s \<or> (\<exists>s'. tp_step s s'))"
proof
  show "\<not> (\<exists>run. run 0 = s \<and> (\<forall>i :: nat. tp_step (run i) (run (Suc i))))"
  proof clarify
    fix run assume run: "s = run 0" "\<forall>i. tp_step (run i) (run (Suc i))"
    have "tp_measure (run i) + i \<le> tp_measure s \<and> stop (tp (run i))" for i
    proof (induction i)
      case (Suc i)
      with run(2) stopped_step_decreases [of "run i" "run (Suc i)"] show ?case by force
    qed (use run(1) assms(2) in simp)
    from this [of "Suc (tp_measure s)"] show False by simp
  qed
  show "tp_joined s \<or> (\<exists>s'. tp_step s s')"
    using stopped_progress tp_reachable [OF assms(1)] assms(2) by blast
qed

theorem threadpool_destructor_returns_witness: "\<not> tp_joined demo_busy \<and> (\<exists>s'. tp_step demo_busy s')"
  using threadpool_destructor_returns [OF demo_busy_reachable] by (simp add: tp_joined_def demo_busy_def)

end
