(* ===== verification/Admin_Gui.thy ===== *)
theory Admin_Gui
  imports Protocol Cxx_Std "HOL-Library.Char_ord" "HOL-Library.List_Lexorder"
begin

text \<open>
  The administration window of \<open>serverGUI/src/mainwindowserver.cpp\<close> (the build without \<open>USE_STUB\<close>): its
  frame codec, the session it opens for each command, the two tables and their filters. Qt is a
  parameter: the record \<open>qt\<close> holds the calls on the command's \<open>QTcpSocket\<close> over a state \<open>'k\<close>, and the text
  and date functions. A \<open>QString\<close> is its UTF-8 encoding. Loops take fuel; \<open>None\<close> is running out of it.
  The themes and the build with \<open>USE_STUB\<close> are in \<open>Admin_Gui_Theme\<close>.
\<close>

subsection \<open>Qt\<close>

text \<open>\<open>qt_connect\<close> is \<open>connectToHost\<close> and \<open>waitForConnected\<close>, \<open>qt_write\<close> is \<open>write\<close> and \<open>waitForBytesWritten\<close>,
  \<open>qt_ready\<close> is \<open>bytesAvailable() || waitForReadyRead\<close>; \<open>qt_iso_day\<close> and \<open>qt_parse_day\<close> give the day of a
  valid ISO time and of a valid \<open>yyyy-MM-dd\<close> date.\<close>

record 'k qt =
  qt_connect :: "'k \<Rightarrow> string \<Rightarrow> nat \<Rightarrow> bool \<times> 'k"
  qt_write :: "'k \<Rightarrow> string \<Rightarrow> bool \<times> 'k"
  qt_ready :: "'k \<Rightarrow> int \<Rightarrow> bool \<times> 'k"
  qt_read :: "'k \<Rightarrow> nat \<Rightarrow> string \<times> 'k"
  qt_disconnect :: "'k \<Rightarrow> 'k"
  qt_lower :: "string \<Rightarrow> string"
  qt_trimmed :: "string \<Rightarrow> string"
  qt_iso_day :: "string \<Rightarrow> string option"
  qt_parse_day :: "string \<Rightarrow> string option"

fun startsWith :: "string \<Rightarrow> string \<Rightarrow> bool" where
  "startsWith s [] = True"
| "startsWith [] (p # ps) = False"
| "startsWith (c # cs) (p # ps) = (c = p \<and> startsWith cs ps)"

fun contains :: "string \<Rightarrow> string \<Rightarrow> bool" where
  "contains [] p = (p = [])"
| "contains (c # cs) p = (startsWith (c # cs) p \<or> contains cs p)"

text \<open>\<open>QString::split\<close> keeping empty parts, and \<open>QStringList::join\<close>.\<close>

fun split_on :: "char \<Rightarrow> string \<Rightarrow> string list" where
  "split_on d [] = [[]]"
| "split_on d (c # cs) =
     (if c = d then [] # split_on d cs
      else case split_on d cs of [] \<Rightarrow> [[c]] | p # ps \<Rightarrow> (c # p) # ps)"

fun join_with :: "string \<Rightarrow> string list \<Rightarrow> string" where
  "join_with sep [] = []"
| "join_with sep [p] = p"
| "join_with sep (p # ps) = p @ sep @ join_with sep ps"

text \<open>\<open>QStringList::value(i)\<close>: the empty string out of range.\<close>

definition part_value :: "string list \<Rightarrow> nat \<Rightarrow> string" where
  "part_value ps i = (if i < length ps then ps ! i else [])"

subsection \<open>State\<close>

record gui_user =
  gu_login :: string
  gu_status :: string
  gu_role :: string
  gu_lastSeen :: string
  gu_hidden :: bool

record gui_message =
  gm_sender :: string
  gm_receiver :: string
  gm_text :: string
  gm_time :: string
  gm_hidden :: bool

datatype status_line =
    Server_status string | Connection_error | Users_refreshed | Messages_refreshed
  | User_updated string | User_kicked string | Server_error_text string

record 'k gui =
  g_kernel :: 'k
  g_serverStatus :: string
  g_serverHost :: string
  g_serverPort :: nat
  adminLogin :: string
  adminPassword :: string
  tableUsers :: "gui_user list"
  tableMessages :: "gui_message list"
  comboFilterDate :: "string list"
  statusbar :: "status_line list"
  filterLogin :: string
  filterStatus :: string
  filterSender :: string
  filterReceiver :: string
  filterText :: string
  filterDate :: string

definition gui_kMaxFrameSize :: nat where
  "gui_kMaxFrameSize = 64 * 1024"

definition envPort :: "(string \<Rightarrow> int option) \<Rightarrow> string \<Rightarrow> nat \<Rightarrow> nat" where
  "envPort env_int name fallback =
     (case env_int name of
        None \<Rightarrow> fallback
      | Some n \<Rightarrow> if n \<le> 0 \<or> n > 65535 then fallback else unat (word_of_int n :: uint16))"

definition commandFinished :: "string \<Rightarrow> string \<Rightarrow> bool" where
  "commandFinished command line =
     (if startsWith command ''LIST'' then line = ''USERS_END''
      else if startsWith command ''ALL_MESSAGES'' then line = ''ALL_MESSAGES_END''
      else line = ''OK'' \<or> startsWith line ''ERROR_'' \<or> startsWith line ''UNKNOWN_CMD'')"

definition mk_MainWindowServer ::
  "(string \<Rightarrow> string option) \<Rightarrow> (string \<Rightarrow> int option) \<Rightarrow> 'k \<Rightarrow> 'k gui" where
  "mk_MainWindowServer getenv env_int k =
     (let var = (\<lambda>name default. case getenv name of Some v \<Rightarrow> v | None \<Rightarrow> default)
      in \<lparr>g_kernel = k, g_serverStatus = ''Disconnected'', g_serverHost = var ''CHAT_GUI_HOST'' ''127.0.0.1'',
          g_serverPort = envPort env_int ''CHAT_GUI_PORT'' 8080, adminLogin = var ''CHAT_GUI_ADMIN_LOGIN'' [],
          adminPassword = var ''CHAT_GUI_ADMIN_PASSWORD'' [], tableUsers = [], tableMessages = [], comboFilterDate = [],
          statusbar = [], filterLogin = [], filterStatus = ''All'', filterSender = [], filterReceiver = [],
          filterText = [], filterDate = []\<rparr>)"

definition updateServerStatus :: "string \<Rightarrow> ('k, 'z) gui_scheme \<Rightarrow> ('k, 'z) gui_scheme" where
  "updateServerStatus status g = g\<lparr>g_serverStatus := status, statusbar := statusbar g @ [Server_status status]\<rparr>"

definition showMessage :: "status_line \<Rightarrow> ('k, 'z) gui_scheme \<Rightarrow> ('k, 'z) gui_scheme" where
  "showMessage l g = g\<lparr>statusbar := statusbar g @ [l]\<rparr>"

subsection \<open>Frames\<close>

definition gui_header :: "nat \<Rightarrow> string" where
  "gui_header n =
     (let size = (of_nat n :: uint32)
      in [byte_chr (drop_bit 24 size AND 0xFF), byte_chr (drop_bit 16 size AND 0xFF),
          byte_chr (drop_bit 8 size AND 0xFF), byte_chr (size AND 0xFF)])"

definition gui_sendFrame :: "('k, 'q) qt_scheme \<Rightarrow> string \<Rightarrow> 'k \<Rightarrow> bool \<times> 'k" where
  "gui_sendFrame q payload k =
     (if length payload > gui_kMaxFrameSize then (False, k)
      else qt_write q k (gui_header (length payload) @ payload))"

text \<open>A read loop: whether \<open>size\<close> bytes were read, and the bytes.\<close>

fun read_exact ::
  "('k, 'q) qt_scheme \<Rightarrow> int \<Rightarrow> nat \<Rightarrow> nat \<Rightarrow> string \<Rightarrow> 'k \<Rightarrow> (bool \<times> string \<times> 'k) option" where
  "read_exact q timeoutMs 0 len acc k = None"
| "read_exact q timeoutMs (Suc fuel) len acc k =
     (if \<not> length acc < len then Some (True, acc, k)
      else case qt_ready q k timeoutMs of
          (False, k1) \<Rightarrow> Some (False, acc, k1)
        | (True, k1) \<Rightarrow>
            (case qt_read q k1 (len - length acc) of (bytes, k2) \<Rightarrow>
               read_exact q timeoutMs fuel len (acc @ bytes) k2))"

definition gui_size :: "string \<Rightarrow> uint32" where
  "gui_size header =
     push_bit 24 (byte_val (header ! 0)) OR push_bit 16 (byte_val (header ! 1)) OR push_bit 8 (byte_val (header ! 2))
       OR byte_val (header ! 3)"

text \<open>\<open>Some (None, k)\<close> is the result \<open>false\<close>.\<close>

definition gui_readFrame ::
  "('k, 'q) qt_scheme \<Rightarrow> nat \<Rightarrow> int \<Rightarrow> 'k \<Rightarrow> (string option \<times> 'k) option" where
  "gui_readFrame q fuel timeoutMs k =
     (case read_exact q timeoutMs fuel 4 [] k of
        None \<Rightarrow> None
      | Some (False, header, k1) \<Rightarrow> Some (None, k1)
      | Some (True, header, k1) \<Rightarrow>
          let size = gui_size header
          in if unat size > gui_kMaxFrameSize then Some (None, k1)
             else (case read_exact q timeoutMs fuel (unat size) [] k1 of
                     None \<Rightarrow> None
                   | Some (False, body, k2) \<Rightarrow> Some (None, k2)
                   | Some (True, body, k2) \<Rightarrow> Some (Some body, k2)))"

subsection \<open>One command, one session\<close>

definition loginForCommand ::
  "('k, 'q) qt_scheme \<Rightarrow> nat \<Rightarrow> ('k, 'z) gui_scheme \<Rightarrow> (bool \<times> ('k, 'z) gui_scheme) option" where
  "loginForCommand q fuel g =
     (if adminLogin g = [] \<or> adminPassword g = []
      then Some (False, updateServerStatus ''Missing CHAT_GUI_ADMIN_LOGIN/CHAT_GUI_ADMIN_PASSWORD'' g)
      else case gui_sendFrame q (''LOGIN '' @ adminLogin g @ '' '' @ adminPassword g) (g_kernel g) of
          (False, k1) \<Rightarrow> Some (False, g\<lparr>g_kernel := k1\<rparr>)
        | (True, k1) \<Rightarrow>
            (case gui_readFrame q fuel 3000 k1 of
               None \<Rightarrow> None
             | Some (None, k2) \<Rightarrow> Some (False, g\<lparr>g_kernel := k2\<rparr>)
             | Some (Some response, k2) \<Rightarrow>
                 if \<not> startsWith response ''LOGIN_OK''
                 then Some (False, updateServerStatus (''Admin login failed: '' @ response) (g\<lparr>g_kernel := k2\<rparr>))
                 else Some (True, g\<lparr>g_kernel := k2\<rparr>)))"

text \<open>The loop that collects the answer.\<close>

fun response_loop ::
  "('k, 'q) qt_scheme \<Rightarrow> nat \<Rightarrow> nat \<Rightarrow> string \<Rightarrow> string list \<Rightarrow> 'k \<Rightarrow> (string list \<times> 'k) option" where
  "response_loop q ff 0 cmd response k = None"
| "response_loop q ff (Suc fuel) cmd response k =
     (case gui_readFrame q ff 3000 k of
        None \<Rightarrow> None
      | Some (None, k1) \<Rightarrow> Some (response, k1)
      | Some (Some line, k1) \<Rightarrow>
          if commandFinished cmd line then Some (response @ [line], k1)
          else response_loop q ff fuel cmd (response @ [line]) k1)"

text \<open>All callers pass a list for the answer; it is only touched once the command has been sent.\<close>

definition sendCommandToServer ::
  "('k, 'q) qt_scheme \<Rightarrow> nat \<Rightarrow> nat \<Rightarrow> string \<Rightarrow> ('k, 'z) gui_scheme \<Rightarrow> (bool \<times> string list \<times> ('k, 'z) gui_scheme) option" where
  "sendCommandToServer q ff fuel cmd g =
     (case qt_connect q (g_kernel g) (g_serverHost g) (g_serverPort g) of
        (False, k1) \<Rightarrow> Some (False, [], updateServerStatus ''Disconnected'' (g\<lparr>g_kernel := k1\<rparr>))
      | (True, k1) \<Rightarrow>
          (case loginForCommand q ff (updateServerStatus ''Connected'' (g\<lparr>g_kernel := k1\<rparr>)) of
             None \<Rightarrow> None
           | Some (False, g2) \<Rightarrow> Some (False, [], g2\<lparr>g_kernel := qt_disconnect q (g_kernel g2)\<rparr>)
           | Some (True, g2) \<Rightarrow>
               (case gui_sendFrame q cmd (g_kernel g2) of
                  (False, k3) \<Rightarrow>
                    Some (False, [], (updateServerStatus ''Send failed'' (g2\<lparr>g_kernel := k3\<rparr>))\<lparr>g_kernel := qt_disconnect q k3\<rparr>)
                | (True, k3) \<Rightarrow>
                    (case response_loop q ff fuel cmd [] k3 of
                       None \<Rightarrow> None
                     | Some (response, k4) \<Rightarrow>
                         Some (True, response,
                           g2\<lparr>g_kernel := qt_disconnect q (snd (gui_sendFrame q ''LOGOUT'' k4))\<rparr>)))))"

subsection \<open>The tables\<close>

definition user_cells :: "string \<Rightarrow> gui_user option" where
  "user_cells line =
     (if \<not> startsWith line ''USER '' then None
      else let parts = split_on (CHR '' '') line
        in if length parts < 4 then None
           else Some \<lparr>gu_login = part_value parts 1, gu_status = part_value parts 2, gu_role = part_value parts 3, gu_lastSeen = part_value parts 4,
                  gu_hidden = False\<rparr>)"

definition updateUsersFromServer ::
  "('k, 'q) qt_scheme \<Rightarrow> nat \<Rightarrow> nat \<Rightarrow> ('k, 'z) gui_scheme \<Rightarrow> ('k, 'z) gui_scheme option" where
  "updateUsersFromServer q ff fuel g =
     (case sendCommandToServer q ff fuel ''LIST'' g of
        None \<Rightarrow> None
      | Some (False, responseLines, g1) \<Rightarrow> Some (showMessage Connection_error g1)
      | Some (True, responseLines, g1) \<Rightarrow> Some (g1\<lparr>tableUsers := List.map_filter user_cells responseLines\<rparr>))"

definition filterUsers :: "('k, 'q) qt_scheme \<Rightarrow> ('k, 'z) gui_scheme \<Rightarrow> ('k, 'z) gui_scheme" where
  "filterUsers q g =
     (let loginFilter = qt_lower q (qt_trimmed q (filterLogin g));
          statusFilter = qt_lower q (filterStatus g)
      in g\<lparr>tableUsers := map (\<lambda>u.
            let matchesLogin = contains (qt_lower q (gu_login u)) loginFilter;
                matchesStatus = statusFilter = ''all'' \<or> qt_lower q (gu_status u) = statusFilter
            in u\<lparr>gu_hidden := \<not> (matchesLogin \<and> matchesStatus)\<rparr>) (tableUsers g)\<rparr>)"

definition message_cells :: "string \<Rightarrow> gui_message option" where
  "message_cells line =
     (if \<not> startsWith line ''MSG '' then None
      else let parts = split_on (CHR '' '') line
        in if length parts < 5 then None
           else Some \<lparr>gm_sender = part_value parts 1, gm_receiver = part_value parts 2, gm_text = join_with '' '' (drop 4 parts),
                  gm_time = part_value parts 3, gm_hidden = False\<rparr>)"

definition filterMessages :: "('k, 'q) qt_scheme \<Rightarrow> ('k, 'z) gui_scheme \<Rightarrow> ('k, 'z) gui_scheme" where
  "filterMessages q g =
     (let senderFilter = qt_lower q (qt_trimmed q (filterSender g));
          receiverFilter = qt_lower q (qt_trimmed q (filterReceiver g));
          textFilter = qt_lower q (qt_trimmed q (filterText g))
      in g\<lparr>tableMessages := map (\<lambda>m.
            let matchesSender = contains (qt_lower q (gm_sender m)) senderFilter;
                matchesReceiver = contains (qt_lower q (gm_receiver m)) receiverFilter;
                matchesText = contains (qt_lower q (gm_text m)) textFilter;
                matchesDate = filterDate g = ''All'' \<or>
                  (case (qt_parse_day q (filterDate g), qt_iso_day q (gm_time m)) of
                     (Some day, Some day') \<Rightarrow> day = day' | _ \<Rightarrow> False)
            in m\<lparr>gm_hidden := \<not> (matchesSender \<and> matchesReceiver \<and> matchesText \<and> matchesDate)\<rparr>) (tableMessages g)\<rparr>)"

definition message_dates :: "('k, 'q) qt_scheme \<Rightarrow> gui_message list \<Rightarrow> string list" where
  "message_dates q ms =
     ''All'' # sort (remdups (filter (\<lambda>d. d \<noteq> ''All'') (List.map_filter (\<lambda>m. qt_iso_day q (gm_time m)) ms)))"

text \<open>Filling the empty date box selects its first entry, which runs the filter.\<close>

definition updateMessagesFromServer ::
  "('k, 'q) qt_scheme \<Rightarrow> nat \<Rightarrow> nat \<Rightarrow> ('k, 'z) gui_scheme \<Rightarrow> ('k, 'z) gui_scheme option" where
  "updateMessagesFromServer q ff fuel g =
     (case sendCommandToServer q ff fuel ''ALL_MESSAGES 200'' g of
        None \<Rightarrow> None
      | Some (False, responseLines, g1) \<Rightarrow> Some (showMessage Connection_error g1)
      | Some (True, responseLines, g1) \<Rightarrow>
          let g2 = g1\<lparr>tableMessages := List.map_filter message_cells responseLines\<rparr>;
              dates = message_dates q (tableMessages g2)
          in Some (filterMessages q (g2\<lparr>comboFilterDate := dates, filterDate := hd dates\<rparr>)))"

subsection \<open>Moderation\<close>

text \<open>The answer to a moderation command; \<open>row\<close> is the selected row, \<open>-1\<close> when there is none.\<close>

definition moderate ::
  "('k, 'q) qt_scheme \<Rightarrow> nat \<Rightarrow> nat \<Rightarrow> nat \<Rightarrow> string \<Rightarrow> string \<Rightarrow> status_line \<Rightarrow> ('k, 'z) gui_scheme \<Rightarrow> ('k, 'z) gui_scheme option" where
  "moderate q ff fuel row cmd newStatus success g =
     (case sendCommandToServer q ff fuel cmd g of
        None \<Rightarrow> None
      | Some (ok, response, g1) \<Rightarrow>
          Some (if ok \<and> response \<noteq> [] \<and> hd response = ''OK''
                then showMessage success (g1\<lparr>tableUsers := (tableUsers g1)[row := (tableUsers g1 ! row)\<lparr>gu_status := newStatus\<rparr>]\<rparr>)
                else showMessage (Server_error_text (''Server error: '' @ (if response = [] then ''no response'' else hd response))) g1))"

definition handleToggleBan ::
  "('k, 'q) qt_scheme \<Rightarrow> nat \<Rightarrow> nat \<Rightarrow> int \<Rightarrow> ('k, 'z) gui_scheme \<Rightarrow> ('k, 'z) gui_scheme option" where
  "handleToggleBan q ff fuel row g =
     (if row < 0 then Some g
      else let u = tableUsers g ! nat row;
               currentStatus = qt_lower q (gu_status u)
        in moderate q ff fuel (nat row) ((if currentStatus = ''banned'' then ''UNBAN '' else ''BAN '') @ gu_login u)
             (if currentStatus = ''banned'' then ''offline'' else ''banned'') (User_updated (gu_login u)) g)"

definition handleKickUser ::
  "('k, 'q) qt_scheme \<Rightarrow> nat \<Rightarrow> nat \<Rightarrow> int \<Rightarrow> ('k, 'z) gui_scheme \<Rightarrow> ('k, 'z) gui_scheme option" where
  "handleKickUser q ff fuel row g =
     (if row < 0 then Some g
      else let u = tableUsers g ! nat row
        in moderate q ff fuel (nat row) (''KICK '' @ gu_login u) ''offline'' (User_kicked (gu_login u)) g)"

subsection \<open>Events\<close>

text \<open>The connections the constructor makes: buttons, the timer and the filter fields.\<close>

datatype gui_event =
    Click_refresh | Click_refresh_messages | Click_toggle_ban int | Click_kick int | Timer_tick
  | Edit_login_filter string | Pick_status string | Edit_sender_filter string | Edit_receiver_filter string
  | Edit_text_filter string | Pick_date string

fun handle_event :: "('k, 'q) qt_scheme \<Rightarrow> nat \<Rightarrow> nat \<Rightarrow> gui_event \<Rightarrow> ('k, 'z) gui_scheme \<Rightarrow> ('k, 'z) gui_scheme option" where
  "handle_event q ff fuel Click_refresh g = map_option (showMessage Users_refreshed) (updateUsersFromServer q ff fuel g)"
| "handle_event q ff fuel Click_refresh_messages g =
     map_option (showMessage Messages_refreshed) (updateMessagesFromServer q ff fuel g)"
| "handle_event q ff fuel (Click_toggle_ban row) g = handleToggleBan q ff fuel row g"
| "handle_event q ff fuel (Click_kick row) g = handleKickUser q ff fuel row g"
| "handle_event q ff fuel Timer_tick g = updateUsersFromServer q ff fuel g"
| "handle_event q ff fuel (Edit_login_filter t) g = Some (filterUsers q (g\<lparr>filterLogin := t\<rparr>))"
| "handle_event q ff fuel (Pick_status t) g = Some (filterUsers q (g\<lparr>filterStatus := t\<rparr>))"
| "handle_event q ff fuel (Edit_sender_filter t) g = Some (filterMessages q (g\<lparr>filterSender := t\<rparr>))"
| "handle_event q ff fuel (Edit_receiver_filter t) g = Some (filterMessages q (g\<lparr>filterReceiver := t\<rparr>))"
| "handle_event q ff fuel (Edit_text_filter t) g = Some (filterMessages q (g\<lparr>filterText := t\<rparr>))"
| "handle_event q ff fuel (Pick_date t) g = Some (filterMessages q (g\<lparr>filterDate := t\<rparr>))"

end
