(* ===== verification/Admin_Gui_Props.thy ===== *)
theory Admin_Gui_Props
  imports Admin_Gui Client_Handler Protocol_Props
begin

text \<open>
  What the administration window promises: the session it opens for a command sends the login, the
  command and the logout and collects exactly the answer; the lines the server answers with become
  the rows of its tables. A refresh of the user list forgets the filter.
\<close>

subsection \<open>The socket's contract\<close>

text \<open>\<open>avail\<close> is what the server sends in this session and has not been read yet, \<open>sent\<close> what was written. A wait for
  input succeeds exactly when there is some, a read then returns some of it.\<close>

locale qt_stream =
  fixes q :: "('k, 'q) qt_scheme"
    and avail sent :: "'k \<Rightarrow> string"
  assumes ready_law: "qt_ready q k t = (b, k') \<Longrightarrow> b = (avail k \<noteq> []) \<and> avail k' = avail k \<and> sent k' = sent k"
    and read_law: "avail k \<noteq> [] \<Longrightarrow> 0 < n \<Longrightarrow> qt_read q k n = (bs, k') \<Longrightarrow>
      bs \<noteq> [] \<and> length bs \<le> n \<and> avail k = bs @ avail k' \<and> sent k' = sent k"
    and write_law: "qt_write q k data = (b, k') \<Longrightarrow> b \<and> avail k' = avail k \<and> sent k' = sent k @ data"
    and disconnect_law: "sent (qt_disconnect q k) = sent k"
begin

lemma read_exact_enough:
  assumes "avail k = bs @ rest" "length acc + length bs = len" "length bs < fuel"
  shows "\<exists>k'. read_exact q t fuel len acc k = Some (True, acc @ bs, k') \<and> avail k' = rest \<and> sent k' = sent k"
  using assms
proof (induction fuel arbitrary: acc bs k)
  case (Suc fuel)
  show ?case
  proof (cases "bs = []")
    case False
    obtain b k1 where r: "qt_ready q k t = (b, k1)" by fastforce
    have k1: "b" "avail k1 = bs @ rest" "sent k1 = sent k" using ready_law [OF r] Suc.prems(1) False by simp_all
    obtain cs k2 where rd: "qt_read q k1 (len - length acc) = (cs, k2)" by fastforce
    have n: "0 < len - length acc" "len - length acc = length bs" using Suc.prems(2) False by (cases bs; simp)+
    from read_law [OF _ n(1) rd] k1(2) False
    have c: "cs \<noteq> []" "length cs \<le> length bs" "bs @ rest = cs @ avail k2" "sent k2 = sent k1" using n(2) by auto
    then obtain ds where ds: "bs = cs @ ds" "avail k2 = ds @ rest"
      by (metis append_eq_append_conv_if append_take_drop_id)
    have "length (acc @ cs) + length ds = len" "length ds < fuel"
      using Suc.prems(2,3) ds(1) c(1) by (cases cs; simp)+
    from Suc.IH [OF ds(2) this] obtain k' where
      "read_exact q t fuel len (acc @ cs) k2 = Some (True, (acc @ cs) @ ds, k')" "avail k' = rest" "sent k' = sent k2" by blast
    moreover have "length acc < len" using n(1) by simp
    ultimately show ?thesis using r k1 rd c ds n by simp
  qed (use Suc.prems in simp)
qed simp

lemma readFrame_enough:
  assumes "avail k = encodeFrame p @ rest" "frame_ok gui_kMaxFrameSize p" "gui_kMaxFrameSize < ff"
  shows "\<exists>k'. gui_readFrame q ff t k = Some (Some p, k') \<and> avail k' = rest \<and> sent k' = sent k"
proof -
  let ?h = "writeBigEndian32 (of_nat (length p))"
  have "avail k = ?h @ p @ rest" using assms(1) by (simp add: encodeFrame_def)
  then obtain k1 where h: "read_exact q t ff 4 [] k = Some (True, ?h, k1)" "avail k1 = p @ rest" "sent k1 = sent k"
    using read_exact_enough [of k ?h "p @ rest" "[]" 4 ff t] assms(3)
    by (auto simp: kFrameHeaderSize_def gui_kMaxFrameSize_def)
  obtain k2 where b: "read_exact q t ff (length p) [] k1 = Some (True, p, k2)" "avail k2 = rest" "sent k2 = sent k1"
    using read_exact_enough [OF h(2), of "[]" "length p" ff t] assms(2,3) by (auto simp: frame_ok_def)
  have "gui_size ?h = of_nat (length p)"
    using read_write_BigEndian32 [of "of_nat (length p)" "[]"] by (simp add: gui_size_def readBigEndian32_def Let_def)
  then have "unat (gui_size ?h) = length p" using assms(2) by (simp add: frame_ok_def unat_frame_size)
  with h b assms(2) show ?thesis by (simp add: gui_readFrame_def frame_ok_def)
qed

lemma sendFrame_sent:
  assumes "length p \<le> gui_kMaxFrameSize"
  shows "\<exists>k'. gui_sendFrame q p k = (True, k') \<and> avail k' = avail k \<and> sent k' = sent k @ encodeFrame p"
proof -
  obtain b k' where w: "qt_write q k (gui_header (length p) @ p) = (b, k')" by fastforce
  have "gui_header (length p) @ p = encodeFrame p" by (simp add: gui_header_def encodeFrame_def writeBigEndian32_def Let_def)
  with write_law [OF w] w assms show ?thesis by (simp add: gui_sendFrame_def)
qed

text \<open>The loop collects the answer up to its last line.\<close>

lemma response_loop_answer:
  assumes "avail k = enc_all (ls @ [l]) @ rest" "\<forall>p \<in> set (ls @ [l]). frame_ok gui_kMaxFrameSize p"
    and "gui_kMaxFrameSize < ff" "length ls < fuel"
    and "list_all (\<lambda>p. \<not> commandFinished cmd p) ls" "commandFinished cmd l"
  shows "\<exists>k'. response_loop q ff fuel cmd acc k = Some (acc @ ls @ [l], k') \<and> avail k' = rest \<and> sent k' = sent k"
  using assms
proof (induction ls arbitrary: acc k fuel)
  case Nil
  then obtain k1 where "gui_readFrame q ff 3000 k = Some (Some l, k1)" "avail k1 = rest" "sent k1 = sent k"
    using readFrame_enough [of k l rest ff 3000] by auto
  with Nil show ?case by (cases fuel) auto
next
  case (Cons p ls)
  have "avail k = encodeFrame p @ enc_all (ls @ [l]) @ rest" using Cons.prems(1) by simp
  with Cons.prems obtain k1 where k1: "gui_readFrame q ff 3000 k = Some (Some p, k1)" "avail k1 = enc_all (ls @ [l]) @ rest"
    "sent k1 = sent k"
    using readFrame_enough [of k p "enc_all (ls @ [l]) @ rest" ff 3000] by auto
  obtain f where f: "fuel = Suc f" "length ls < f" using Cons.prems(4) by (cases fuel) auto
  from Cons.IH [OF k1(2) _ Cons.prems(3) f(2), of "acc @ [p]"] Cons.prems(2,5,6) k1 f(1) show ?case by auto
qed

end

subsection \<open>A command's session\<close>

lemma startsWith_append [simp]: "startsWith (p @ s) p"
  by (induction p) auto

lemma updateServerStatus_kernel [simp]:
  "g_kernel (updateServerStatus t g) = g_kernel g" "adminLogin (updateServerStatus t g) = adminLogin g"
  "adminPassword (updateServerStatus t g) = adminPassword g"
  by (simp_all add: updateServerStatus_def)

context qt_stream
begin

lemma login_session:
  assumes "adminLogin g \<noteq> []" "adminPassword g \<noteq> []"
    and "length (''LOGIN '' @ adminLogin g @ '' '' @ adminPassword g) \<le> gui_kMaxFrameSize"
    and "avail (g_kernel g) = encodeFrame reply @ rest" "frame_ok gui_kMaxFrameSize reply" "gui_kMaxFrameSize < ff"
  shows "\<exists>g'. loginForCommand q ff g = Some (startsWith reply ''LOGIN_OK'', g') \<and> avail (g_kernel g') = rest
    \<and> sent (g_kernel g') = sent (g_kernel g) @ encodeFrame (''LOGIN '' @ adminLogin g @ '' '' @ adminPassword g)"
proof -
  let ?login = "''LOGIN '' @ adminLogin g @ '' '' @ adminPassword g"
  obtain k1 where k1: "gui_sendFrame q ?login (g_kernel g) = (True, k1)" "avail k1 = encodeFrame reply @ rest"
    "sent k1 = sent (g_kernel g) @ encodeFrame ?login"
    using sendFrame_sent [OF assms(3), of "g_kernel g"] assms(4) by auto
  obtain k2 where "gui_readFrame q ff 3000 k1 = Some (Some reply, k2)" "avail k2 = rest" "sent k2 = sent k1"
    using readFrame_enough [OF k1(2) assms(5,6), of 3000] by auto
  with k1 assms(1,2) show ?thesis by (simp add: loginForCommand_def)
qed

lemma command_session:
  assumes g: "adminLogin g \<noteq> []" "adminPassword g \<noteq> []"
    "length (''LOGIN '' @ adminLogin g @ '' '' @ adminPassword g) \<le> gui_kMaxFrameSize" "length cmd \<le> gui_kMaxFrameSize"
    and con: "qt_connect q (g_kernel g) (g_serverHost g) (g_serverPort g) = (True, k)"
    and av: "avail k = enc_all (reply # ls @ [l]) @ rest" "\<forall>p \<in> set (reply # ls @ [l]). frame_ok gui_kMaxFrameSize p"
    and fuel: "gui_kMaxFrameSize < ff" "length ls < fuel"
    and fin: "list_all (\<lambda>p. \<not> commandFinished cmd p) ls" "commandFinished cmd l"
  shows "\<exists>g'. sendCommandToServer q ff fuel cmd g =
      Some (if startsWith reply ''LOGIN_OK'' then (True, ls @ [l], g') else (False, [], g'))
    \<and> sent (g_kernel g') = sent k @ enc_all (if startsWith reply ''LOGIN_OK''
         then [''LOGIN '' @ adminLogin g @ '' '' @ adminPassword g, cmd, ''LOGOUT'']
         else [''LOGIN '' @ adminLogin g @ '' '' @ adminPassword g])"
proof -
  let ?g = "updateServerStatus ''Connected'' (g\<lparr>g_kernel := k\<rparr>)"
  have fields: "adminLogin ?g = adminLogin g" "adminPassword ?g = adminPassword g" by simp_all
  have "avail (g_kernel ?g) = encodeFrame reply @ enc_all (ls @ [l]) @ rest" using av(1) by simp
  from login_session [OF _ _ _ this, of ff] fields g(1-3) av(2) fuel(1) obtain g2 where
    g2: "loginForCommand q ff ?g = Some (startsWith reply ''LOGIN_OK'', g2)" "avail (g_kernel g2) = enc_all (ls @ [l]) @ rest"
    "sent (g_kernel g2) = sent k @ encodeFrame (''LOGIN '' @ adminLogin g @ '' '' @ adminPassword g)"
    by auto
  show ?thesis
  proof (cases "startsWith reply ''LOGIN_OK''")
    case False
    then show ?thesis using con g2 disconnect_law by (simp add: sendCommandToServer_def)
  next
    case True
    obtain k3 where k3: "gui_sendFrame q cmd (g_kernel g2) = (True, k3)" "avail k3 = enc_all (ls @ [l]) @ rest"
      "sent k3 = sent (g_kernel g2) @ encodeFrame cmd"
      using sendFrame_sent [OF g(4), of "g_kernel g2"] g2(2) by auto
    obtain k4 where k4: "response_loop q ff fuel cmd [] k3 = Some (ls @ [l], k4)" "sent k4 = sent k3"
      using response_loop_answer [OF k3(2) _ fuel fin, of "[]"] av(2) by auto
    obtain k5 where "gui_sendFrame q ''LOGOUT'' k4 = (True, k5)" "sent k5 = sent k4 @ encodeFrame ''LOGOUT''"
      using sendFrame_sent [of "''LOGOUT''" k4] by (auto simp: gui_kMaxFrameSize_def)
    with True con g2 k3 k4 show ?thesis using disconnect_law by (simp add: sendCommandToServer_def)
  qed
qed

end

text \<open>A socket held in memory that transfers at most \<open>Suc mq_chunk\<close> bytes at a time.\<close>

record memq =
  mq_in :: string
  mq_out :: string
  mq_chunk :: nat

definition memq_qt :: "memq qt" where
  "memq_qt = \<lparr>qt_connect = (\<lambda>k h p. (True, k)), qt_write = (\<lambda>k d. (True, k\<lparr>mq_out := mq_out k @ d\<rparr>)),
     qt_ready = (\<lambda>k t. (mq_in k \<noteq> [], k)),
     qt_read = (\<lambda>k n. let m = min n (Suc (mq_chunk k)) in (take m (mq_in k), k\<lparr>mq_in := drop m (mq_in k)\<rparr>)),
     qt_disconnect = (\<lambda>k. k), qt_lower = (\<lambda>s. s), qt_trimmed = (\<lambda>s. s),
     qt_iso_day = (\<lambda>s. if 10 \<le> length s then Some (take 10 s) else None), qt_parse_day = Some\<rparr>"

interpretation memq: qt_stream memq_qt mq_in mq_out
  by unfold_locales (auto simp: memq_qt_def Let_def)

text \<open>(C23) A command of the window is one session. With the administrator's login set, a socket that keeps the
  stream contract and the server's answers within the frame limit, \<open>sendCommandToServer\<close> returns; when
  the reply to the login begins with \<open>LOGIN_OK\<close>, it has written exactly the login, the command and the
  logout, in this order, and returns exactly the lines up to the one that finishes the command; otherwise
  it has written the login only, and reports failure.\<close>

theorem gui_command_session:
  assumes "qt_stream q avail sent"
    and "adminLogin g \<noteq> []" "adminPassword g \<noteq> []"
    and "length (''LOGIN '' @ adminLogin g @ '' '' @ adminPassword g) \<le> gui_kMaxFrameSize" "length cmd \<le> gui_kMaxFrameSize"
    and "qt_connect q (g_kernel g) (g_serverHost g) (g_serverPort g) = (True, k)"
    and "avail k = enc_all (reply # ls @ [l]) @ rest" "\<forall>p \<in> set (reply # ls @ [l]). frame_ok gui_kMaxFrameSize p"
    and "gui_kMaxFrameSize < ff" "length ls < fuel"
    and "list_all (\<lambda>p. \<not> commandFinished cmd p) ls" "commandFinished cmd l"
  shows "\<exists>g'. sendCommandToServer q ff fuel cmd g =
      Some (if startsWith reply ''LOGIN_OK'' then (True, ls @ [l], g') else (False, [], g'))
    \<and> sent (g_kernel g') = sent k @ enc_all (if startsWith reply ''LOGIN_OK''
         then [''LOGIN '' @ adminLogin g @ '' '' @ adminPassword g, cmd, ''LOGOUT'']
         else [''LOGIN '' @ adminLogin g @ '' '' @ adminPassword g])"
  using qt_stream.command_session [OF assms] .

definition demo_gui :: "string list \<Rightarrow> memq gui" where
  "demo_gui answers = mk_MainWindowServer
     (\<lambda>name. if name = ''CHAT_GUI_ADMIN_LOGIN'' then Some ''alice'' else if name = ''CHAT_GUI_ADMIN_PASSWORD'' then Some ''pw'' else None)
     (\<lambda>name. None) \<lparr>mq_in = enc_all answers, mq_out = [], mq_chunk = 6\<rparr>"

theorem gui_command_session_witness:
  "\<exists>g'. sendCommandToServer memq_qt 65537 1 ''BAN bob'' (demo_gui [''LOGIN_OK admin'', ''OK'']) = Some (True, [''OK''], g')
    \<and> mq_out (g_kernel g') = enc_all [''LOGIN alice pw'', ''BAN bob'', ''LOGOUT'']"
  using gui_command_session [OF memq.qt_stream_axioms, of "demo_gui [''LOGIN_OK admin'', ''OK'']" "''BAN bob''"
      "g_kernel (demo_gui [''LOGIN_OK admin'', ''OK''])" "''LOGIN_OK admin''" "[]" "''OK''" "[]" 65537 1]
  by (simp add: demo_gui_def mk_MainWindowServer_def memq_qt_def commandFinished_def gui_kMaxFrameSize_def frame_ok_def)

subsection \<open>The tables show the answers\<close>

lemma split_word: "CHR '' '' \<notin> set w \<Longrightarrow> split_on (CHR '' '') (w @ CHR '' '' # s) = w # split_on (CHR '' '') s"
  by (induction w) auto

lemma split_last: "CHR '' '' \<notin> set w \<Longrightarrow> split_on (CHR '' '') w = [w]"
  by (induction w) auto

lemma split_nonempty [simp]: "split_on d s \<noteq> []"
  by (induction s) (auto split: list.splits)

lemma join_split: "join_with [d] (split_on d s) = s"
proof (induction s)
  case (Cons c s)
  then show ?case
    by (cases "split_on d s"; cases "tl (split_on d s)") auto
qed simp

definition blank_free :: "string \<Rightarrow> bool" where
  "blank_free w \<longleftrightarrow> CHR '' '' \<notin> set w"

definition message_shown :: "MessageRecord \<Rightarrow> gui_message" where
  "message_shown m = \<lparr>gm_sender = mr_sender m, gm_receiver = mr_receiver m, gm_text = mr_text m, gm_time = mr_createdAt m,
     gm_hidden = False\<rparr>"

definition user_row_shown :: "UserSummary \<Rightarrow> gui_user" where
  "user_row_shown u = \<lparr>gu_login = us_login u, gu_status = us_status u, gu_role = us_role u, gu_lastSeen = us_lastSeen u,
     gu_hidden = False\<rparr>"

definition user_text :: "UserSummary \<Rightarrow> string" where
  "user_text user = ''USER '' @ us_login user @ '' '' @ us_status user @ '' '' @ us_role user @ '' '' @ us_lastSeen user"

lemma message_cells_line:
  assumes "blank_free (mr_sender m)" "blank_free (mr_receiver m)" "blank_free (mr_createdAt m)"
  shows "message_cells (message_line ''MSG'' m) = Some (message_shown m)"
proof -
  have "split_on (CHR '' '') (message_line ''MSG'' m) =
      ''MSG'' # mr_sender m # mr_receiver m # mr_createdAt m # split_on (CHR '' '') (mr_text m)"
    using assms split_word [of "''MSG''"] by (simp add: message_line_def blank_free_def split_word)
  moreover have "startsWith (message_line ''MSG'' m) ''MSG ''" by (simp add: message_line_def)
  moreover have "0 < length (split_on (CHR '' '') (mr_text m))" by simp
  ultimately show ?thesis
    by (simp add: message_cells_def part_value_def message_shown_def join_split Let_def)
qed

lemma user_cells_line:
  assumes "blank_free (us_login u)" "blank_free (us_status u)" "blank_free (us_role u)" "blank_free (us_lastSeen u)"
  shows "user_cells (user_text u) = Some (user_row_shown u)"
proof -
  have "split_on (CHR '' '') (user_text u) = [''USER'', us_login u, us_status u, us_role u, us_lastSeen u]"
    using assms split_word [of "''USER''"] by (simp add: user_text_def blank_free_def split_word split_last)
  moreover have "startsWith (user_text u) ''USER ''" by (simp add: user_text_def)
  ultimately show ?thesis by (simp add: user_cells_def part_value_def user_row_shown_def Let_def)
qed

lemma map_filter_framed:
  assumes "f a = None" "f b = None" "\<forall>x \<in> set xs. f (g x) = Some (h x)"
  shows "List.map_filter f (a # map g xs @ [b]) = map h xs"
proof -
  have "List.map_filter f (map g xs @ [b]) = map h xs"
    using assms(2,3) by (induction xs) (auto simp: List.map_filter_def)
  then show ?thesis using assms(1) by (simp add: List.map_filter_def)
qed

text \<open>The tables show what the server lists: for names, roles, states and times without blanks, the lines
  between \<open>ALL_MESSAGES_BEGIN\<close> and \<open>ALL_MESSAGES_END\<close> become one row per message, with the sender, the
  receiver, the time and the text exactly as stored (whatever the text), and the lines of \<open>LIST\<close> one row
  per user; the answer counts as finished at its end line and not before.\<close>

theorem gui_tables_show_answers:
  assumes "\<forall>m \<in> set msgs. blank_free (mr_sender m) \<and> blank_free (mr_receiver m) \<and> blank_free (mr_createdAt m)"
    and "\<forall>u \<in> set users. blank_free (us_login u) \<and> blank_free (us_status u) \<and> blank_free (us_role u) \<and> blank_free (us_lastSeen u)"
  shows "List.map_filter message_cells (''ALL_MESSAGES_BEGIN'' # map (message_line ''MSG'') msgs @ [''ALL_MESSAGES_END'']) = map message_shown msgs
    \<and> list_all (\<lambda>l. \<not> commandFinished ''ALL_MESSAGES 200'' l) (''ALL_MESSAGES_BEGIN'' # map (message_line ''MSG'') msgs)
    \<and> commandFinished ''ALL_MESSAGES 200'' ''ALL_MESSAGES_END''
    \<and> List.map_filter user_cells (''USERS_BEGIN'' # map user_text users @ [''USERS_END'']) = map user_row_shown users
    \<and> list_all (\<lambda>l. \<not> commandFinished ''LIST'' l) (''USERS_BEGIN'' # map user_text users)
    \<and> commandFinished ''LIST'' ''USERS_END''"
proof (intro conjI)
  show "List.map_filter message_cells (''ALL_MESSAGES_BEGIN'' # map (message_line ''MSG'') msgs @ [''ALL_MESSAGES_END'']) = map message_shown msgs"
    by (rule map_filter_framed) (use assms(1) in \<open>auto simp: message_cells_line\<close>, simp_all add: message_cells_def)
  show "List.map_filter user_cells (''USERS_BEGIN'' # map user_text users @ [''USERS_END'']) = map user_row_shown users"
    by (rule map_filter_framed) (use assms(2) in \<open>auto simp: user_cells_line\<close>, simp_all add: user_cells_def)
qed (simp_all add: commandFinished_def list_all_iff message_line_def user_text_def)

theorem gui_tables_show_answers_witness:
  "List.map_filter message_cells [''ALL_MESSAGES_BEGIN'', ''MSG alice bob 2024-05-01T10:00:00Z see you at 5'', ''ALL_MESSAGES_END''] =
     [\<lparr>gm_sender = ''alice'', gm_receiver = ''bob'', gm_text = ''see you at 5'', gm_time = ''2024-05-01T10:00:00Z'', gm_hidden = False\<rparr>]"
  using gui_tables_show_answers [of "[\<lparr>mr_id = 1, mr_sender = ''alice'', mr_receiver = ''bob'', mr_text = ''see you at 5'',
      mr_createdAt = ''2024-05-01T10:00:00Z''\<rparr>]" "[]"]
  by (simp add: blank_free_def message_line_def message_shown_def)

subsection \<open>What a refresh forgets\<close>

text \<open>A command's session leaves the tables and the filters alone.\<close>

lemma updateServerStatus_window [simp]:
  "tableUsers (updateServerStatus t g) = tableUsers g" "tableMessages (updateServerStatus t g) = tableMessages g"
  "filterLogin (updateServerStatus t g) = filterLogin g" "filterStatus (updateServerStatus t g) = filterStatus g"
  by (simp_all add: updateServerStatus_def)

lemma loginForCommand_window:
  "loginForCommand q ff g = Some (ok, g') \<Longrightarrow> tableUsers g' = tableUsers g \<and> tableMessages g' = tableMessages g
    \<and> filterLogin g' = filterLogin g \<and> filterStatus g' = filterStatus g"
  by (auto simp: loginForCommand_def split: if_splits prod.splits bool.splits option.splits)

lemma sendCommandToServer_window:
  "sendCommandToServer q ff fuel cmd g = Some (ok, r, g') \<Longrightarrow> tableUsers g' = tableUsers g \<and> tableMessages g' = tableMessages g
    \<and> filterLogin g' = filterLogin g \<and> filterStatus g' = filterStatus g"
  by (auto simp: sendCommandToServer_def dest!: loginForCommand_window split: prod.splits bool.splits option.splits)

text \<open>After a successful refresh every user is visible, whatever the filter fields say.\<close>

lemma user_cells_visible: "user_cells line = Some u \<Longrightarrow> \<not> gu_hidden u"
  by (auto simp: user_cells_def Let_def split: if_splits)

theorem refresh_forgets_filter:
  assumes "sendCommandToServer q ff fuel ''LIST'' g = Some (True, ls, g1)"
  shows "\<exists>g'. updateUsersFromServer q ff fuel g = Some g' \<and> list_all (\<lambda>u. \<not> gu_hidden u) (tableUsers g')
    \<and> filterLogin g' = filterLogin g \<and> filterStatus g' = filterStatus g"
  using assms sendCommandToServer_window [OF assms]
  by (auto simp: updateUsersFromServer_def list_all_iff List.map_filter_def dest: user_cells_visible)

text \<open>A refusal does not finish a listing: the window goes on waiting until the read times out.\<close>

theorem refusal_not_finished: "\<not> commandFinished ''ALL_MESSAGES 200'' ''ERROR_FORBIDDEN moderator role required''"
  by (simp add: commandFinished_def)

end
