(* ===== verification/Departures.thy ===== *)
theory Departures
  imports Handler_Witnesses Server_Fine Chat_Link Thread_Pool Admin_Gui_Props
begin

text \<open>
  Concrete runs in which the program departs from what it means to do. Each theorem evaluates the model on one
  input; none of them is used elsewhere.
\<close>

subsection \<open>Online status\<close>

definition statuses :: "('k, 'z) world_scheme \<Rightarrow> (string \<times> string) list" where
  "statuses w = map (\<lambda>u. (u_login u, u_status u)) (t_users (tables w))"

text \<open>Logging in again as the same user on one connection: \<open>handleLogin\<close> stores \<open>online\<close> and then cleans up the old session,
  which stores \<open>offline\<close> for the same account. The session is live, the account offline.\<close>

theorem relogin_leaves_offline:
  "statuses (dispatch demo_srv_env 2 ''LOGIN bob password34'' demo_room) = [(''alice'', ''online''), (''bob'', ''offline'')]
   \<and> view (dispatch demo_srv_env 2 ''LOGIN bob password34'' demo_room) 2 = [2]"
proof
  show "statuses (dispatch demo_srv_env 2 ''LOGIN bob password34'' demo_room) = [(''alice'', ''online''), (''bob'', ''offline'')]"
    by code_simp
  show "view (dispatch demo_srv_env 2 ''LOGIN bob password34'' demo_room) 2 = [2]"
    by code_simp
qed

text \<open>A user with two sessions who logs out of one is stored as offline while the other is live.\<close>

definition demo_two :: "memk server" where
  "demo_two = demo_room\<lparr>handlers := (handlers demo_room)(3 \<mapsto> bob_handler\<lparr>clientSocket := 7\<rparr>), sessions := [1 \<mapsto> [1], 2 \<mapsto> [2, 3]]\<rparr>"

theorem logout_of_one_marks_offline:
  "statuses (dispatch demo_srv_env 3 ''LOGOUT'' demo_two) = [(''alice'', ''online''), (''bob'', ''offline'')]
   \<and> view (dispatch demo_srv_env 3 ''LOGOUT'' demo_two) 2 = [2]"
proof
  show "statuses (dispatch demo_srv_env 3 ''LOGOUT'' demo_two) = [(''alice'', ''online''), (''bob'', ''offline'')]"
    by code_simp
  show "view (dispatch demo_srv_env 3 ''LOGOUT'' demo_two) 2 = [2]"
    by code_simp
qed

subsection \<open>Sessions outside the lock\<close>

text \<open>\<open>deliverToUser\<close> and \<open>disconnectUser\<close> copy the list of sessions under the registry's lock and then call the handlers
  without it. Alice's message for Bob has its copy of Bob's sessions, Bob's connection is closed, his thread ends and destroys
  his handler, and the delivery calls it: the code, which asks for nothing before it destroys a handler, uses a freed object.\<close>

definition demo_race :: "memk fine_server" where
  "demo_race = server.extend (demo_room\<lparr>threads := [0 \<mapsto> Looping 1, 1 \<mapsto> Looping 2], activeClients := 2,
     kernel := \<lparr>mk_out = (\<lambda>fd. []), mk_in = (\<lambda>fd. if fd = 5 then encodeFrame ''MESSAGE bob hi'' else []), mk_chunk = 15\<rparr>\<rparr>)
     \<lparr>calls = Map.empty\<rparr>"

definition race_copied :: "memk fine_server" where
  "race_copied = (let w = snd (snd (begin_step demo_srv_env 1 demo_race))
     in w\<lparr>calls := (calls w)(0 := Some (Delivering ''MESSAGE alice hi'' [2]))\<rparr>)"

definition race_closed :: "memk fine_server" where
  "race_closed = (let w = snd (snd (begin_step demo_srv_env 2 race_copied)) in w\<lparr>threads := (threads w)(1 \<mapsto> Ended 2)\<rparr>)"

definition race_freed :: "memk fine_server" where
  "race_freed = finish_step demo_srv_env 1 2 race_closed"

text \<open>(C17) With the code's own order of steps a freed handler is used: from a state in which two users are logged in and
  nothing was dereferenced after its end, a run of the finer steps leads to a delivery to a destroyed handler.\<close>

theorem delivery_races_with_end:
  "\<not> dangling demo_race \<and> (\<exists>w'. (fine_step demo_srv_env (\<lambda>h w. True))\<^sup>*\<^sup>* demo_race w' \<and> dangling w')"
proof -
  let ?env = demo_srv_env let ?step = "fine_step ?env (\<lambda>h w. True)" let ?c = "Delivering ''MESSAGE alice hi''"
  let ?w = "snd (deliverFrame ?env 2 ''MESSAGE alice hi'' race_freed)"
  have b: "begin_step ?env 1 demo_race = (True, Some (?c [2]), snd (snd (begin_step ?env 1 demo_race)))"
    "begin_step ?env 2 race_copied = (False, None, snd (snd (begin_step ?env 2 race_copied)))"
    by (intro prod_eqI, code_simp, code_simp, simp)+
  have d: "\<not> dangling demo_race" "threads demo_race 0 = Some (Looping 1)" "calls demo_race 0 = None" by code_simp+
  then have "?step demo_race race_copied" unfolding race_copied_def Let_def by (rule Fine_begin) (rule b)
  moreover have "\<not> dangling race_copied" "threads race_copied 1 = Some (Looping 2)" "calls race_copied 1 = None" by code_simp+
  then have "?step race_copied race_closed" unfolding race_closed_def Let_def by (rule Fine_stop) (rule b)
  moreover have "\<not> dangling race_closed" "threads race_closed 1 = Some (Ended 2)" by code_simp+
  then have "?step race_closed race_freed" unfolding race_freed_def by (rule Fine_finish) simp
  moreover have "\<not> dangling race_freed" "threads race_freed 0 = Some (Looping 1)" "calls race_freed 0 = Some (?c [2])" by code_simp+
  then have "?step race_freed (?w\<lparr>calls := (calls ?w)(0 := Some (?c []))\<rparr>)" by (rule Fine_call) (simp add: nullptr_def)
  moreover have "dangling ?w" by code_simp
  then have "dangling (?w\<lparr>calls := (calls ?w)(0 := Some (?c []))\<rparr>)" by simp
  ultimately show ?thesis using d(1) by (meson converse_rtranclp_into_rtranclp rtranclp.rtrancl_refl)
qed

subsection \<open>Commands\<close>

text \<open>The text of a \<open>MESSAGE\<close> ends at its first line break; the rest is dropped without an error.\<close>

theorem message_cut_at_line_break:
  "dispatch demo_srv_env 1 (''MESSAGE bob first'' @ CHR 0x0A # ''second'') demo_room =
   handleMessage demo_srv_env 1 ''bob'' ''first'' demo_room"
proof -
  have "extract_word (''MESSAGE bob first'' @ CHR 0x0A # ''second'') = (''MESSAGE'', '' bob first'' @ CHR 0x0A # ''second'')"
    "extract_word ('' bob first'' @ CHR 0x0A # ''second'') = (''bob'', '' first'' @ CHR 0x0A # ''second'')"
    "tail ('' first'' @ CHR 0x0A # ''second'') = ''first''" by code_simp+
  then show ?thesis by (simp add: dispatch_def del: append.simps append_Cons)
qed

text \<open>The port given on the server's command line is not checked, and is cut to 16 bits when the socket is bound.\<close>

theorem argv_port_unchecked:
  "apply_argv [''chat_server'', ''70000''] cfg = Inr (cfg\<lparr>cfg_port := 70000\<rparr>) \<and> (word_of_int 70000 :: uint16) = 4464"
proof -
  have "stoi ''70000'' = Inr 70000"
    by (simp add: stoi_def scan_number_def isspace_def isdigit_def digits_val_def digit_val_def INT_MIN_def INT_MAX_def)
  then show ?thesis by (simp add: apply_argv_def)
qed

subsection \<open>The thread pool without threads\<close>

text \<open>A pool of no threads accepts a task, and its destructor returns without running it.\<close>

theorem empty_pool_drops_tasks:
  "\<exists>s. tp_step\<^sup>*\<^sup>* (mk_ThreadPool 0) s \<and> tp_joined s \<and> accepted s = [7] \<and> finished s = []"
proof -
  let ?s0 = "mk_ThreadPool 0"
  let ?s1 = "?s0\<lparr>tp := \<lparr>tasks = [7], stop = False\<rparr>, due_one := 1, accepted := [7]\<rparr>"
  let ?s2 = "?s1\<lparr>tp := \<lparr>tasks = [7], stop = True\<rparr>, due_all := True\<rparr>"
  let ?s3 = "?s2\<lparr>due_all := False\<rparr>"
  have "tp_step ?s0 ?s1"
    using Enqueue [of 7 ?s0 "\<lparr>tasks = [7], stop = False\<rparr>"] by (simp add: mk_ThreadPool_def tp_enqueue_def)
  moreover have "tp_step ?s1 ?s2" using tp_step.Stop [of ?s1] by (simp add: mk_ThreadPool_def)
  moreover have "tp_step ?s2 ?s3" using Notify_all [of ?s2] by (simp add: mk_ThreadPool_def)
  ultimately have "tp_step\<^sup>*\<^sup>* ?s0 ?s3" by (meson converse_rtranclp_into_rtranclp rtranclp.rtrancl_refl)
  moreover have "tp_joined ?s3" "accepted ?s3 = [7]" "finished ?s3 = []" by (simp_all add: tp_joined_def mk_ThreadPool_def)
  ultimately show ?thesis by blast
qed

subsection \<open>The administration window\<close>

definition demo_eve :: gui_user where
  "demo_eve = \<lparr>gu_login = ''eve'', gu_status = ''online'', gu_role = ''user'', gu_lastSeen = [], gu_hidden = False\<rparr>"

text \<open>A message for the administrator that arrives before the answer is taken for the answer: the ban took effect, the
  window reports a server error.\<close>

theorem ban_misreported:
  "\<exists>g'. handleToggleBan memq_qt 65537 2 0 (demo_gui [''LOGIN_OK admin'', ''MESSAGE bob hi'', ''OK'']\<lparr>tableUsers := [demo_eve]\<rparr>) = Some g'
    \<and> mq_out (g_kernel g') = enc_all [''LOGIN alice pw'', ''BAN eve'', ''LOGOUT'']
    \<and> last (statusbar g') = Server_error_text ''Server error: MESSAGE bob hi'' \<and> tableUsers g' = [demo_eve]"
proof -
  let ?g = "demo_gui [''LOGIN_OK admin'', ''MESSAGE bob hi'', ''OK'']\<lparr>tableUsers := [demo_eve]\<rparr>"
  obtain g' where g': "sendCommandToServer memq_qt 65537 2 ''BAN eve'' ?g = Some (True, [''MESSAGE bob hi'', ''OK''], g')"
    "mq_out (g_kernel g') = enc_all [''LOGIN alice pw'', ''BAN eve'', ''LOGOUT'']"
    using memq.command_session [of ?g "''BAN eve''" "g_kernel ?g" "''LOGIN_OK admin''" "[''MESSAGE bob hi'']" "''OK''" "[]" 65537 2]
    by (auto simp: demo_gui_def mk_MainWindowServer_def memq_qt_def commandFinished_def gui_kMaxFrameSize_def frame_ok_def)
  have "qt_lower memq_qt (gu_status (tableUsers ?g ! nat 0)) = ''online''" "gu_login (tableUsers ?g ! nat 0) = ''eve''"
    by (simp_all add: memq_qt_def demo_eve_def)
  with g' sendCommandToServer_window [OF g'(1)] show ?thesis
    by (simp add: handleToggleBan_def moderate_def showMessage_def)
qed

end
