(* ===== verification/Chat_End_To_End.thy ===== *)
theory Chat_End_To_End
  imports Chat_Link Handler_Witnesses
begin

text \<open>
  A message from one user's menu to another user's screen: the server's handling of a \<open>MESSAGE\<close> request
  composed with the store, the session registry, the frames on the wire and the receiving client.
\<close>

subsection \<open>The receiving client\<close>

lemma tl_receive_keeps: "tl_receive sys s b n = (m, bs, s') \<Longrightarrow> fst s' = fst s"
  by (auto simp: tl_receive_def split: prod.splits if_splits)

lemma receive_loop_keeps:
  "receive_loop (\<lambda>s n. tl_receive sys s True n) s buf len received = (r, buf', s') \<Longrightarrow> fst s' = fst s"
proof (induction "len - received" arbitrary: s buf received rule: less_induct)
  case less
  obtain n bs s1 where t: "tl_receive sys s True (len - received) = (n, bs, s1)" by (metis prod_cases3)
  from tl_receive_keeps [OF t] less.hyps [of "received + n" s1 "blit buf received bs"] less.prems t show ?case
    by (auto simp: receive_loop.simps [of _ s] split: if_splits)
qed

lemma receiveFrame_keeps:
  assumes "receiveFrame (\<lambda>s n. tl_receive sys s True n) s m = (st, p, s')"
  shows "fst s' = fst s"
proof -
  let ?rx = "\<lambda>s n. tl_receive sys s True n"
  obtain r header s1 where hd: "receive_loop ?rx s (replicate kFrameHeaderSize (CHR 0x00)) kFrameHeaderSize 0 = (r, header, s1)"
    by (metis prod_cases3)
  let ?n = "unat (readBigEndian32 header)"
  obtain r' buf s2 where pl: "receive_loop ?rx s1 (replicate ?n (CHR 0x00)) ?n 0 = (r', buf, s2)"
    by (metis prod_cases3)
  show ?thesis
    using assms hd pl receive_loop_keeps [OF hd] receive_loop_keeps [OF pl]
    by (auto simp: receiveFrame_def Let_def split: if_splits)
qed

lemma receive_step_shows:
  fixes sys :: "('k, 'e) client_sys_scheme"
  assumes k: "kernel_stream sys outq inq alive kinv" and c: "connected kinv alive t c"
    and i: "inq (cl_kernel c) (sockfd t) = encodeFrame p @ rest" and ok: "frame_ok kDefaultMaxFrameSize p"
  shows "\<exists>k'. receive_step sys t c = (True, show_response p (c\<lparr>socket := Some t, cl_kernel := k'\<rparr>)) \<and> inq k' (sockfd t) = rest"
proof -
  have ready: "kinv (snd (t, cl_kernel c)) \<and> 0 \<le> sockfd (fst (t, cl_kernel c)) \<and> alive (snd (t, cl_kernel c)) (sockfd (fst (t, cl_kernel c)))"
    using c by (simp add: connected_def)
  obtain s' where s': "receiveFrame (\<lambda>s n. tl_receive sys s True n) (t, cl_kernel c) kDefaultMaxFrameSize = (RF_Ok, p, s')"
    "inq (snd s') (sockfd (fst s')) = rest"
    using frame_end.rx_law [OF kernel_stream.tl_frame_end [OF k], OF ready ok, of rest] i by auto
  then have "fst s' = t" using receiveFrame_keeps by fastforce
  with s' show ?thesis by (cases s') (auto simp: receive_step_def)
qed

subsection \<open>The server's part\<close>

lemma getUserByLogin_clear:
  assumes "outcomes s = []" "find_login l (tables s) = Some u"
  shows "fst (getUserByLogin env l s) = Some (user_summary env u)"
proof -
  obtain us where "filter (\<lambda>u. u_login u = l) (t_users (tables s)) = u # us"
    using filter_find_login [OF assms(2)] by blast
  with assms(1) show ?thesis by (simp add: getUserByLogin_def clear_defs)
qed

lemma respond_other_sockets:
  assumes "kernel_stream (os env) outq inq up kinv" "kinv (kernel w)" "handlers w h = Some c"
  shows "kinv (kernel (respond env h p w))" "up (kernel (respond env h p w)) = up (kernel w)"
    "fd \<noteq> clientSocket c \<Longrightarrow> outq (kernel (respond env h p w)) fd = outq (kernel w) fd"
proof -
  obtain ok k where k: "sendFrame_native (os env) (clientSocket c) (kernel w) p (ch_maxFrameSize c) = (ok, k)" by fastforce
  then have "kernel (respond env h p w) = k" using assms(3) by (simp add: respond_def sendResponse_def)
  with kernel_stream.sendFrame_native_frame [OF assms(1,2) k]
  show "kinv (kernel (respond env h p w))" "up (kernel (respond env h p w)) = up (kernel w)"
    "fd \<noteq> clientSocket c \<Longrightarrow> outq (kernel (respond env h p w)) fd = outq (kernel w) fd" by auto
qed

lemma message_delivered:
  assumes ks: "kernel_stream (os env) outq inq up kinv" "kinv (kernel w)" and lo: "logins_ok w"
    and c: "handlers w h = Some c" "authed c"
    and sent: "sendMessage env (userId c) to msg w = (r, w1)" "res_status r = DB_Ok" "outcomes w1 = []"
    and u: "find_login to (tables w) = Some u"
    and live: "distinct (map (socket_of w) (view w (u_id u)))" "clientSocket c \<notin> socket_of w ` set (view w (u_id u))"
      "\<And>h'. h' \<in> set (view w (u_id u)) \<Longrightarrow> reachable up (kernel w) (length (''MESSAGE '' @ username c @ '' '' @ msg)) (handlers w h')"
    and h': "h' \<in> set (view w (u_id u))"
  shows "outq (kernel (handleMessage env h to msg w)) (socket_of w h') =
      outq (kernel w) (socket_of w h') @ encodeFrame (''MESSAGE '' @ username c @ '' '' @ msg)"
    and "tables (handleMessage env h to msg w) = message_rows env (userId c) (u_id u) msg w"
proof -
  let ?p = "''MESSAGE '' @ username c @ '' '' @ msg"
  let ?w2 = "respond env h (''MESSAGE_OK '' @ to_string (res_id r)) w1"
  have w1: "kernel w1 = kernel w" "sessions w1 = sessions w" "handlers w1 = handlers w"
    using arg_cong [OF sent(1), of "\<lambda>x. kernel (snd x)"] arg_cong [OF sent(1), of "\<lambda>x. sessions (snd x)"]
      arg_cong [OF sent(1), of "\<lambda>x. handlers (snd x)"] by simp_all
  have t1: "tables w1 = message_rows env (userId c) (u_id u) msg w"
    using sendMessage_effect [OF sent(1)] sent(2) u by (auto simp: becomes_def)
  obtain q w3 where q: "getUserByLogin env to ?w2 = (q, w3)" by fastforce
  have "outcomes ?w2 = []" using respond_frame(6) [of env h _ w1] sent(3) by (simp add: store_def)
  moreover have "find_login to (tables ?w2) = Some u" using u by (simp add: t1 message_rows_def find_login_def)
  ultimately have q': "q = Some (user_summary env u)" using getUserByLogin_clear [of ?w2 to u env] q by simp
  have w3: "kernel w3 = kernel ?w2" "sessions w3 = sessions w" "handlers w3 = handlers w"
    using arg_cong [OF q, of "\<lambda>x. kernel (snd x)"] arg_cong [OF q, of "\<lambda>x. sessions (snd x)"]
      arg_cong [OF q, of "\<lambda>x. handlers (snd x)"] w1 by simp_all
  have hm: "handleMessage env h to msg w = snd (deliverToUser env (u_id u) ?p w3)"
    using c sent q q' w1 w3 by (simp add: handleMessage_def requireAuth_def this_def user_summary_def)
  note rk = respond_other_sockets [OF ks(1), of w1 h c] 
  have k3: "kinv (kernel w3)" "up (kernel w3) = up (kernel w)"
    "\<And>fd. fd \<noteq> clientSocket c \<Longrightarrow> outq (kernel w3) fd = outq (kernel w) fd"
    using rk ks(2) c(1) by (simp_all add: w3 w1)
  have vw: "view w3 = view w" "socket_of w3 = socket_of w" by (simp_all add: view_def socket_of_def this_def fun_eq_iff w3)
  have nn: "nullptr \<notin> set (view w (u_id u))"
    using lo by (auto simp: logins_ok_def registry_tight_def view_def split: option.splits)
  have dist: "distinct (map (socket_of w3) (view w (u_id u)))" using live(1) by (simp add: vw)
  have rch: "reachable up (kernel w3) (length ?p) (handlers w3 h')" if "h' \<in> set (view w (u_id u))" for h'
    using live(3) [OF that] by (simp only: reachable_cong [of up "kernel w3" "kernel w", OF k3(2)] w3(3))
  obtain w4 where w4: "deliver_loop env ?p (view w (u_id u)) 0 w3 = (length (view w (u_id u)), w4)"
    "\<And>fd. outq (kernel w4) fd = outq (kernel w3) fd @ (if fd \<in> socket_of w ` set (view w (u_id u)) then encodeFrame ?p else [])"
    using deliver_loop_live [OF ks(1) k3(1) nn dist rch, of 0] unfolding vw by (metis add_0)
  have dl: "handleMessage env h to msg w = w4"
    using hm w4(1) h' by (auto simp: deliverToUser_def view_def w3 split: option.splits)
  have ne: "socket_of w h' \<noteq> clientSocket c" using live(2) h' by (metis image_eqI)
  from dl show "outq (kernel (handleMessage env h to msg w)) (socket_of w h') = outq (kernel w) (socket_of w h') @ encodeFrame ?p"
    using w4(2) [of "socket_of w h'"] k3(3) [OF ne] h' by simp
  have "tables w4 = tables w3" using deliver_loop_frame(4) [OF w4(1)] .
  moreover have "tables w3 = tables w1" using getUserByLogin_effect(1) [OF q] by (simp add: same_rows_def)
  ultimately show "tables (handleMessage env h to msg w) = message_rows env (userId c) (u_id u) msg w"
    using dl t1 by simp
qed

subsection \<open>From the menu to the screen\<close>

lemma show_message:
  assumes "is_word sender" "CHR 0x0A \<notin> set msg"
  shows "show_response (''MESSAGE '' @ sender @ '' '' @ msg) c = print (Message_line sender ('' '' @ msg)) c"
proof -
  have "getline (CHR '' '' # msg) = (CHR '' '' # msg, [])" by (rule getline_whole) (use assms(2) in simp)
  with command_words(6) [THEN word_blank, simplified] assms(1) show ?thesis
    by (simp add: show_response_def skip_blank word_blank)
qed

lemma valid_login_word: "isValidLogin l \<Longrightarrow> is_word l"
  by (auto simp: is_word_def list_all_iff dest: valid_login_nospace valid_login_nonempty)

text \<open>(C9) A message typed by one user appears on the other's screen. When the line of a \<open>MESSAGE\<close> request
  reaches the handler of a logged-in user, the store accepts the message and no later statement
  fails, then the message is the one new row, from the sender's account to the receiver's; \<open>dispatch\<close>
  appends bytes to the socket of every session of the receiver, and a connected client that finds
  these bytes on its socket prints, in one turn of its receive thread, the message under the sender's login and leaves
  what follows on the wire unread. The sockets involved are reachable and not shared.\<close>

theorem message_end_to_end:
  fixes env :: "('k, 'e) srv_env_scheme" and sys :: "('c, 'd) client_sys_scheme"
  assumes ks: "kernel_stream (os env) outq inq up kinv" "kinv (kernel w)" and lo: "logins_ok w"
    and c: "handlers w h = Some c" "authed c" "isValidLogin (username c)"
    and req: "request_ok (Message to msg)"
    and sent: "sendMessage env (userId c) to msg w = (r, w1)" "res_status r = DB_Ok" "outcomes w1 = []"
    and u: "find_login to (tables w) = Some u"
    and live: "distinct (map (socket_of w) (view w (u_id u)))" "clientSocket c \<notin> socket_of w ` set (view w (u_id u))"
      "\<And>h'. h' \<in> set (view w (u_id u)) \<Longrightarrow> reachable up (kernel w) (length (''MESSAGE '' @ username c @ '' '' @ msg)) (handlers w h')"
    and h': "h' \<in> set (view w (u_id u))"
    and kc: "kernel_stream sys coutq cinq alive ckinv" "connected ckinv alive t rc"
    and w': "w' = dispatch env h (request_text (Message to msg)) w"
  shows "tables w' = message_rows env (userId c) (u_id u) msg w
    \<and> (\<exists>fresh. outq (kernel w') (socket_of w h') = outq (kernel w) (socket_of w h') @ fresh
        \<and> (cinq (cl_kernel rc) (sockfd t) = fresh @ rest \<longrightarrow>
             (\<exists>k. receive_step sys t rc =
                    (True, print (Message_line (username c) ('' '' @ msg)) (rc\<lparr>socket := Some t, cl_kernel := k\<rparr>))
                  \<and> cinq k (sockfd t) = rest)))"
proof -
  let ?p = "''MESSAGE '' @ username c @ '' '' @ msg"
  have eq: "w' = handleMessage env h to msg w" using dispatch_request [OF req, of env h w] w' by simp
  note del = message_delivered [OF ks lo c(1,2) sent u live h']
  have "length msg \<le> 4096" using sendMessage_effect [OF sent(1)] sent(2) by auto
  then have "frame_ok kDefaultMaxFrameSize ?p"
    using valid_login_length [OF c(3)] by (simp add: frame_ok_def kDefaultMaxFrameSize_def)
  note shown = receive_step_shows [OF kc _ this, of rest]
  have "CHR 0x0A \<notin> set msg" using req by simp
  note show_message [OF valid_login_word [OF c(3)] this]
  with shown del show ?thesis unfolding eq by metis
qed

definition demo_receiver :: "memk client" where
  "demo_receiver = demo_connected\<lparr>cl_kernel := \<lparr>mk_out = (\<lambda>_. []), mk_in = (\<lambda>_. encodeFrame ''MESSAGE alice see you at 5''), mk_chunk = 3\<rparr>\<rparr>"

theorem message_end_to_end_witness:
  "map m_text (t_messages (tables (dispatch demo_srv_env 1 ''MESSAGE bob see you at 5'' demo_room))) = [''see you at 5'']
   \<and> (\<exists>k. receive_step online_sys \<lparr>sockfd = 3\<rparr> demo_receiver =
         (True, print (Message_line ''alice'' '' see you at 5'') (demo_receiver\<lparr>socket := Some \<lparr>sockfd = 3\<rparr>, cl_kernel := k\<rparr>)))"
proof -
  let ?s = "sendMessage demo_srv_env (userId alice_handler) ''bob'' ''see you at 5'' demo_room"
  let ?w = "dispatch demo_srv_env 1 (request_text (Message ''bob'' ''see you at 5'')) demo_room"
  have req: "request_ok (Message ''bob'' ''see you at 5'')" by (simp add: is_word_def isspace_def)
  have ok: "res_status (fst ?s) = DB_Ok" "outcomes (snd ?s) = []" by code_simp+
  have alice: "authed alice_handler" "isValidLogin (username alice_handler)" by code_simp+
  obtain u where u: "find_login ''bob'' (tables demo_room) = Some u" "u_id u = 2"
    by (simp add: demo_room_fields demo_rows_def find_login_def)
  have conn: "connected (\<lambda>k. True) (\<lambda>k fd. True) \<lparr>sockfd = 3\<rparr> demo_receiver"
    by (simp add: connected_def demo_receiver_def demo_connected_def mk_Client_def console.defs)
  have "mk_out (kernel ?w) 6 = encodeFrame ''MESSAGE alice see you at 5''" "mk_out (kernel demo_room) 6 = []" by code_simp+
  moreover have "socket_of demo_room 2 = 6" "mk_in (cl_kernel demo_receiver) 3 = encodeFrame ''MESSAGE alice see you at 5''"
    by (simp_all add: socket_of_def demo_room_fields bob_handler_def demo_receiver_def)
  moreover note message_end_to_end [OF demo_kernel.kernel_stream_axioms TrueI demo_room_logins demo_room_fields(1) alice req
      prod.collapse [symmetric] ok u(1) _ _ _ _ online.kernel_stream_axioms conn refl, of 2 "[]"]
  ultimately show ?thesis
    by (auto simp: u(2) demo_room_fields alice_handler_def bob_handler_def reachable_def isValidSocket_def kInvalidSocket_def
        message_rows_def demo_rows_def)
qed

end
