(* ===== verification/Gui_End_To_End.thy ===== *)
theory Gui_End_To_End
  imports Admin_Gui_Props Handler_Witnesses
begin

text \<open>
  From the stored messages to the window's table: the server's answer to \<open>ALL_MESSAGES\<close> composed with the frames on the
  wire, the window's session for the command and the rows it makes of the lines.
\<close>

subsection \<open>The server writes its answers\<close>

definition writable :: "('k \<Rightarrow> int \<Rightarrow> bool) \<Rightarrow> ('k \<Rightarrow> bool) \<Rightarrow> ClientHandler \<Rightarrow> 'k \<Rightarrow> bool" where
  "writable up kinv c k \<longleftrightarrow> kinv k \<and> isValidSocket (clientSocket c) \<and> up k (clientSocket c)"

lemma respond_writes:
  assumes ks: "kernel_stream (os env) outq inq up kinv" and "handlers w h = Some c" "writable up kinv c (kernel w)"
    "length p \<le> ch_maxFrameSize c"
  shows "outq (kernel (respond env h p w)) (clientSocket c) = outq (kernel w) (clientSocket c) @ encodeFrame p
    \<and> writable up kinv c (kernel (respond env h p w))"
proof -
  have "kinv (kernel w)" "up (kernel w) (clientSocket c)" "isValidSocket (clientSocket c)"
    using assms(3) by (simp_all add: writable_def)
  from kernel_stream.sendFrame_native_live [OF ks this assms(4)] obtain k' where
    "sendFrame_native (os env) (clientSocket c) (kernel w) p (ch_maxFrameSize c) = (True, k')"
    "outq k' = (outq (kernel w))(clientSocket c := outq (kernel w) (clientSocket c) @ encodeFrame p)" "up k' = up (kernel w)" "kinv k'"
    by blast
  with assms(2,3) show ?thesis by (simp add: respond_def sendResponse_def writable_def)
qed

lemma respond_all_writes:
  assumes ks: "kernel_stream (os env) outq inq up kinv" and "handlers w h = Some c" "writable up kinv c (kernel w)"
    "\<forall>x\<in>set xs. length (f x) \<le> ch_maxFrameSize c"
  shows "outq (kernel (respond_all env h f xs w)) (clientSocket c) = outq (kernel w) (clientSocket c) @ enc_all (map f xs)
    \<and> writable up kinv c (kernel (respond_all env h f xs w))"
  using assms(2-4)
proof (induction xs arbitrary: w)
  case (Cons x xs)
  from respond_writes [OF ks Cons.prems(1,2), of "f x"] Cons.prems(3)
  have r: "outq (kernel (respond env h (f x) w)) (clientSocket c) = outq (kernel w) (clientSocket c) @ encodeFrame (f x)"
    "writable up kinv c (kernel (respond env h (f x) w))" by simp_all
  have "handlers (respond env h (f x) w) h = Some c" using Cons.prems(1) by simp
  from Cons.IH [OF this r(2)] r(1) Cons.prems(3) show ?case by simp
qed simp

lemma dispatch_all_messages: "dispatch env h ''ALL_MESSAGES 200'' w = handleAllMessages env h 200 w"
proof -
  have "extract_word ''ALL_MESSAGES 200'' = (''ALL_MESSAGES'', '' 200'')" "extract_word '' 200'' = (''200'', [])"
    "parseIntOrDefault ''200'' 100 = 200" by code_simp+
  then show ?thesis by (simp add: dispatch_def)
qed

text \<open>The newest messages of a store, as \<open>getAllMessages\<close> lists them.\<close>

definition newest :: "'e pg_env_scheme \<Rightarrow> nat \<Rightarrow> tables \<Rightarrow> MessageRecord list" where
  "newest env n t = map (message_record env) (take n (order_created env True (join_messages (\<lambda>m. True) t)))"

lemma set_newest:
  assumes "orders env" "r \<in> set (newest env n t)"
  shows "\<exists>m x y. (m, x, y) \<in> set (join_messages (\<lambda>m. True) t) \<and> r = message_record env (m, x, y)"
proof -
  have "set (order_created env True (join_messages (\<lambda>m. True) t)) = set (join_messages (\<lambda>m. True) t)"
    using assms(1) by (metis orders_def set_mset_mset)
  then show ?thesis using assms(2) by (force simp: newest_def dest: in_set_takeD)
qed

lemma getAllMessages_newest:
  assumes "orders env" "outcomes s = []" "db_wf (seqs s) (tables s)" "messages_seq s \<le> INT_MAX"
  shows "fst (getAllMessages env 200 s) = newest env 200 (tables s)"
proof -
  have ids: "INT_MIN \<le> m_id (fst j) \<and> m_id (fst j) \<le> INT_MAX"
    if "j \<in> set (order_created env True (join_messages (\<lambda>m. True) (tables s)))" for j
  proof -
    have "j \<in> set (join_messages (\<lambda>m. True) (tables s))" using that assms(1) by (metis orders_def set_mset_mset)
    then have "fst j \<in> set (t_messages (tables s))" by (metis prod.collapse set_join_messages)
    then show ?thesis using assms(3,4) by (force simp: seqs_def list_all_iff message_ok_def INT_MIN_def)
  qed
  have "clampLimit 200 = 200" by (simp add: clampLimit_def kMaxLimit_def)
  moreover have "fst (fetch_messages env ''getAllMessages'' (\<lambda>m. True) True 200 0 s) = newest env 200 (tables s)"
    using fetch_clear [OF assms(2), of env True "\<lambda>m. True" "''getAllMessages''" 200 0] ids by (simp add: newest_def)
  ultimately show ?thesis by (simp add: getAllMessages_def)
qed

lemma handleAllMessages_writes:
  assumes ks: "kernel_stream (os env) outq inq up kinv" and c: "handlers w h = Some c" "writable up kinv c (kernel w)"
    and mod: "requireModerator env h w = (True, w1)" "outcomes w1 = []"
    and db: "orders env" "db_wf (seqs w) (tables w)" "messages_seq w1 \<le> INT_MAX"
    and fits: "18 \<le> ch_maxFrameSize c" "\<forall>r\<in>set (newest env 200 (tables w)). length (message_line ''MSG'' r) \<le> ch_maxFrameSize c"
  shows "outq (kernel (handleAllMessages env h 200 w)) (clientSocket c) = outq (kernel w) (clientSocket c)
    @ enc_all (''ALL_MESSAGES_BEGIN'' # map (message_line ''MSG'') (newest env 200 (tables w)) @ [''ALL_MESSAGES_END''])"
proof -
  have w1: "w1 = snd (hasModeratorRights env (userId c) w)" using requireModerator_True(3) [OF mod(1) c(1)] .
  let ?w2 = "respond env h ''ALL_MESSAGES_BEGIN'' w1"
  obtain msgs w3 where g: "getAllMessages env 200 ?w2 = (msgs, w3)" by fastforce
  have h1: "handlers w1 h = Some c" "kernel w1 = kernel w" using c(1) w1 by simp_all
  have st: "tables w1 = tables w" "db_wf (seqs w1) (tables w1)"
    using hasModeratorRights_effect(1) [of env "userId c" w "fst (hasModeratorRights env (userId c) w)" w1] w1 schema_srv.Q_calls(10) [OF db(2)]
    by (simp_all add: same_rows_def)
  have s2: "store ?w2 = store w1" by (rule respond_frame)
  then have st2: "tables ?w2 = tables w1" "seqs ?w2 = seqs w1" "outcomes ?w2 = []" using mod(2) by (simp_all add: store_def)
  then have "messages_seq ?w2 \<le> INT_MAX" using db(3) by (simp add: seqs_def)
  with getAllMessages_newest [OF db(1) st2(3)] st st2 g have msgs: "msgs = newest env 200 (tables w)" by simp
  have b: "outq (kernel ?w2) (clientSocket c) = outq (kernel w) (clientSocket c) @ encodeFrame ''ALL_MESSAGES_BEGIN''"
    "writable up kinv c (kernel ?w2)"
    using respond_writes [OF ks h1(1), of "''ALL_MESSAGES_BEGIN''"] c(2) h1(2) fits(1) by simp_all
  have w3: "kernel w3 = kernel ?w2" "handlers w3 h = Some c"
    using arg_cong [OF g, of "\<lambda>x. kernel (snd x)"] arg_cong [OF g, of "\<lambda>x. handlers (snd x)"] h1(1) by simp_all
  let ?w4 = "respond_all env h (message_line ''MSG'') msgs w3"
  have m: "outq (kernel ?w4) (clientSocket c) = outq (kernel ?w2) (clientSocket c) @ enc_all (map (message_line ''MSG'') msgs)"
    "writable up kinv c (kernel ?w4)"
    using respond_all_writes [OF ks w3(2), of msgs "message_line ''MSG''"] b(2) fits(2) msgs w3(1) by simp_all
  have "outq (kernel (respond env h ''ALL_MESSAGES_END'' ?w4)) (clientSocket c) = outq (kernel ?w4) (clientSocket c) @ encodeFrame ''ALL_MESSAGES_END''"
    using respond_writes [OF ks _ m(2), of h "''ALL_MESSAGES_END''"] w3(2) fits(1) by simp
  moreover have "handleAllMessages env h 200 w = respond env h ''ALL_MESSAGES_END'' ?w4" using mod(1) g by (simp add: handleAllMessages_def)
  ultimately show ?thesis using m(1) b(1) msgs by simp
qed

subsection \<open>The window's table\<close>

text \<open>Names are logins and so have no blank.\<close>

lemma newest_blank_free:
  assumes "orders env" "db_wf (seqs w) (tables w)" "\<And>t. blank_free (to_char_utc env t)" "r \<in> set (newest env n (tables w))"
  shows "blank_free (mr_sender r)" "blank_free (mr_receiver r)" "blank_free (mr_createdAt r)"
proof -
  obtain m x y where r: "(m, x, y) \<in> set (join_messages (\<lambda>m. True) (tables w))" "r = message_record env (m, x, y)"
    using set_newest [OF assms(1,4)] by blast
  then have "x \<in> set (t_users (tables w))" "y \<in> set (t_users (tables w))" by (simp_all add: set_join_messages)
  then have "isValidLogin (u_login x)" "isValidLogin (u_login y)" using assms(2) by (auto simp: seqs_def list_all_iff user_ok_def)
  then show "blank_free (mr_sender r)" "blank_free (mr_receiver r)" "blank_free (mr_createdAt r)"
    using valid_login_nospace [of "u_login x" "CHR '' ''"] valid_login_nospace [of "u_login y" "CHR '' ''"] assms(3)
    by (auto simp: r(2) message_record_def blank_free_def)
qed

lemma filterMessages_rows [simp]:
  "map (\<lambda>m. m\<lparr>gm_hidden := False\<rparr>) (tableMessages (filterMessages q g)) = map (\<lambda>m. m\<lparr>gm_hidden := False\<rparr>) (tableMessages g)"
  by (simp add: filterMessages_def Let_def)

context qt_stream
begin

lemma messages_table:
  assumes g: "adminLogin g \<noteq> []" "adminPassword g \<noteq> []"
    "length (''LOGIN '' @ adminLogin g @ '' '' @ adminPassword g) \<le> gui_kMaxFrameSize"
    and con: "qt_connect q (g_kernel g) (g_serverHost g) (g_serverPort g) = (True, k)"
    and reply: "startsWith reply ''LOGIN_OK''" "frame_ok gui_kMaxFrameSize reply"
    and av: "avail k = encodeFrame reply @ enc_all (''ALL_MESSAGES_BEGIN'' # map (message_line ''MSG'') msgs @ [''ALL_MESSAGES_END'']) @ rest"
    and fits: "\<forall>r\<in>set msgs. length (message_line ''MSG'' r) \<le> gui_kMaxFrameSize"
    and bf: "\<forall>m \<in> set msgs. blank_free (mr_sender m) \<and> blank_free (mr_receiver m) \<and> blank_free (mr_createdAt m)"
    and fuel: "gui_kMaxFrameSize < ff" "length msgs + 1 < fuel"
  shows "\<exists>g'. updateMessagesFromServer q ff fuel g = Some g'
    \<and> map (\<lambda>m. m\<lparr>gm_hidden := False\<rparr>) (tableMessages g') = map message_shown msgs"
proof -
  let ?ls = "''ALL_MESSAGES_BEGIN'' # map (message_line ''MSG'') msgs"
  have "\<forall>p \<in> set (reply # ?ls @ [''ALL_MESSAGES_END'']). frame_ok gui_kMaxFrameSize p"
    using reply(2) fits by (auto simp: frame_ok_def gui_kMaxFrameSize_def)
  moreover have "list_all (\<lambda>p. \<not> commandFinished ''ALL_MESSAGES 200'' p) ?ls" "commandFinished ''ALL_MESSAGES 200'' ''ALL_MESSAGES_END''"
    by (simp_all add: commandFinished_def list_all_iff message_line_def)
  moreover have "avail k = enc_all (reply # ?ls @ [''ALL_MESSAGES_END'']) @ rest" using av by simp
  ultimately obtain g' where g': "sendCommandToServer q ff fuel ''ALL_MESSAGES 200'' g = Some (True, ?ls @ [''ALL_MESSAGES_END''], g')"
    using command_session [OF g _ con, of "''ALL_MESSAGES 200''" reply ?ls "''ALL_MESSAGES_END''" rest ff fuel] reply(1) fuel
    by (auto simp: gui_kMaxFrameSize_def)
  have "List.map_filter message_cells (?ls @ [''ALL_MESSAGES_END'']) = map message_shown msgs"
    unfolding append_Cons by (rule map_filter_framed) (use bf in \<open>auto simp: message_cells_line\<close>, simp_all add: message_cells_def)
  with g' show ?thesis by (simp add: updateMessagesFromServer_def Let_def message_shown_def)
qed

end

text \<open>(C22) The window's table shows the store. When the server's handler of the window's session, whose account may
  moderate, serves \<open>ALL_MESSAGES 200\<close> and no statement fails, it appends bytes to the session's socket such that the
  window, which finds its reply to the login and then these bytes on its socket, fills its table of messages, filters
  apart, with exactly the newest stored messages, at most 200, newest first, with sender, receiver, time and text as stored.\<close>

theorem window_shows_store:
  fixes env :: "('k, 'e) srv_env_scheme" and q :: "('q, 'r) qt_scheme"
  assumes ks: "kernel_stream (os env) outq inq up kinv" and c: "handlers w h = Some c" "writable up kinv c (kernel w)"
    and mod: "requireModerator env h w = (True, w1)" "outcomes w1 = []"
    and db: "orders env" "db_wf (seqs w) (tables w)" "messages_seq w1 \<le> INT_MAX" "\<And>t. blank_free (to_char_utc env t)"
    and fits: "18 \<le> ch_maxFrameSize c"
      "\<forall>r\<in>set (newest env 200 (tables w)). length (message_line ''MSG'' r) \<le> min (ch_maxFrameSize c) gui_kMaxFrameSize"
    and qs: "qt_stream q avail sent" and g: "adminLogin g \<noteq> []" "adminPassword g \<noteq> []"
    "length (''LOGIN '' @ adminLogin g @ '' '' @ adminPassword g) \<le> gui_kMaxFrameSize"
    and con: "qt_connect q (g_kernel g) (g_serverHost g) (g_serverPort g) = (True, k)"
    and reply: "startsWith reply ''LOGIN_OK''" "frame_ok gui_kMaxFrameSize reply"
    and fuel: "gui_kMaxFrameSize < ff" "201 < fuel"
  shows "\<exists>fresh. outq (kernel (dispatch env h ''ALL_MESSAGES 200'' w)) (clientSocket c) = outq (kernel w) (clientSocket c) @ fresh
    \<and> (avail k = encodeFrame reply @ fresh @ rest \<longrightarrow>
        (\<exists>g'. updateMessagesFromServer q ff fuel g = Some g'
          \<and> map (\<lambda>m. m\<lparr>gm_hidden := False\<rparr>) (tableMessages g') = map message_shown (newest env 200 (tables w))))"
proof -
  let ?msgs = "newest env 200 (tables w)"
  have "length ?msgs + 1 < fuel" using fuel(2) by (simp add: newest_def)
  note table = qt_stream.messages_table [OF qs g con reply _ _ _ fuel(1) this, of rest]
  have "\<forall>m \<in> set ?msgs. blank_free (mr_sender m) \<and> blank_free (mr_receiver m) \<and> blank_free (mr_createdAt m)"
    using newest_blank_free [OF db(1,2,4)] by blast
  with table fits(2) handleAllMessages_writes [OF ks c mod db(1-3) fits(1)] show ?thesis
    unfolding dispatch_all_messages by (intro exI conjI) auto
qed

subsection \<open>A concrete window\<close>

definition demo_mailroom :: "memk server" where
  "demo_mailroom = demo_room\<lparr>tables := demo_rows\<lparr>t_messages :=
     [\<lparr>m_id = 1, m_sender_id = 1, m_receiver_id = 2, m_text = ''see you at 5'', m_created_at = 0\<rparr>]\<rparr>, messages_seq := 1\<rparr>"

lemma demo_mailroom_ok:
  "handlers demo_mailroom 1 = Some alice_handler" "db_wf (seqs demo_mailroom) (tables demo_mailroom)"
  "kernel demo_mailroom = kernel demo_room" "orders demo_srv_env"
proof -
  have "sql_length (sql_trim ''see you at 5'') \<noteq> 0" by code_simp
  moreover have "sql_length ''see you at 5'' \<le> 4096" by (rule order_trans [OF sql_length_le]) simp
  ultimately have "text_ok ''see you at 5''" by (simp add: text_ok_def)
  then show "db_wf (seqs demo_mailroom) (tables demo_mailroom)"
    by (simp add: demo_mailroom_def demo_room_def demo_process_def seqs_def demo_rows_def user_ok_def message_ok_def user_exists_def
        isValidLogin_def login_char_def isalnum_def isalpha_def isdigit_def)
  show "orders demo_srv_env" using demo_orders by (simp add: orders_def demo_srv_env_def)
qed (use demo_room_fields(1) in \<open>simp_all add: demo_mailroom_def\<close>)

definition demo_answer :: "string list" where
  "demo_answer = [''ALL_MESSAGES_BEGIN'', ''MSG alice bob t see you at 5'', ''ALL_MESSAGES_END'']"

theorem window_shows_store_witness:
  "\<exists>g'. updateMessagesFromServer memq_qt 65537 202 (demo_gui (''LOGIN_OK admin'' # demo_answer)) = Some g'
    \<and> map (\<lambda>m. m\<lparr>gm_hidden := False\<rparr>) (tableMessages g') =
      [\<lparr>gm_sender = ''alice'', gm_receiver = ''bob'', gm_text = ''see you at 5'', gm_time = ''t'', gm_hidden = False\<rparr>]"
proof -
  let ?w1 = "snd (requireModerator demo_srv_env 1 demo_mailroom)" and ?g = "demo_gui (''LOGIN_OK admin'' # demo_answer)"
  have mod: "requireModerator demo_srv_env 1 demo_mailroom = (True, ?w1)"
    by (subst prod.collapse [symmetric], rule prod_eqI) (code_simp, simp)
  have db: "outcomes ?w1 = []" "messages_seq ?w1 \<le> INT_MAX" by code_simp+
  have rows: "newest demo_srv_env 200 (tables demo_mailroom) =
    [\<lparr>mr_id = 1, mr_sender = ''alice'', mr_receiver = ''bob'', mr_text = ''see you at 5'', mr_createdAt = ''t''\<rparr>]"
    by (simp add: newest_def join_messages_def demo_mailroom_def demo_rows_def demo_srv_env_def demo_env_def message_record_def)
  have "mk_out (kernel (dispatch demo_srv_env 1 ''ALL_MESSAGES 200'' demo_mailroom)) 5 = enc_all demo_answer" "mk_out (kernel demo_mailroom) 5 = []"
    by code_simp+
  moreover have "writable (\<lambda>k fd. True) (\<lambda>k. True) alice_handler (kernel demo_mailroom)"
    by (simp add: writable_def alice_handler_def isValidSocket_def kInvalidSocket_def)
  note window_shows_store [OF demo_kernel.kernel_stream_axioms demo_mailroom_ok(1) this mod db(1) demo_mailroom_ok(4,2) db(2) _ _ _
      memq.qt_stream_axioms, of ?g "g_kernel ?g" "''LOGIN_OK admin''" 65537 202 "[]"]
  ultimately show ?thesis
    unfolding rows
    by (simp add: alice_handler_def demo_srv_env_def demo_env_def blank_free_def message_line_def gui_kMaxFrameSize_def
        demo_gui_def mk_MainWindowServer_def memq_qt_def frame_ok_def message_shown_def demo_answer_def)
qed

end
