(* ===== verification/Admin_Gui_Theme.thy ===== *)
theory Admin_Gui_Theme
  imports Admin_Gui
begin

text \<open>
  The rest of \<open>serverGUI/src/mainwindowserver.cpp\<close>: the two themes, which change the palette and the style sheet of the
  application and nothing of the window, and the tables of the build with \<open>USE_STUB\<close>.
\<close>

subsection \<open>Themes\<close>

datatype ColorRole =
    PR_Window | PR_WindowText | PR_Base | PR_AlternateBase | PR_ToolTipBase | PR_ToolTipText | PR_Text | PR_Button
  | PR_ButtonText | PR_BrightText | PR_Highlight | PR_HighlightedText

type_synonym QColor = "nat \<times> nat \<times> nat"

text \<open>A palette gives the colours that were set; the other roles have the default palette's.\<close>

type_synonym QPalette = "ColorRole \<Rightarrow> QColor option"

abbreviation Qt_white :: QColor where "Qt_white \<equiv> (255, 255, 255)"
abbreviation Qt_black :: QColor where "Qt_black \<equiv> (0, 0, 0)"
abbreviation Qt_red :: QColor where "Qt_red \<equiv> (255, 0, 0)"

record 'k app_gui = "'k gui" +
  app_palette :: QPalette
  app_styleSheet :: string

definition darkPalette :: QPalette where
  "darkPalette = [
     PR_Window \<mapsto> (30, 30, 30),
     PR_WindowText \<mapsto> Qt_white,
     PR_Base \<mapsto> (20, 20, 20),
     PR_AlternateBase \<mapsto> (35, 35, 35),
     PR_ToolTipBase \<mapsto> Qt_white,
     PR_ToolTipText \<mapsto> Qt_black,
     PR_Text \<mapsto> Qt_white,
     PR_Button \<mapsto> (40, 40, 40),
     PR_ButtonText \<mapsto> Qt_white,
     PR_BrightText \<mapsto> Qt_red,
     PR_Highlight \<mapsto> (100, 100, 255),
     PR_HighlightedText \<mapsto> Qt_white]"

text \<open>The raw string starts with a line break, and its last line has the indentation of the closing quote.\<close>

definition darkStyleSheet :: string where
  "darkStyleSheet = concat (map (\<lambda>rule. CHR 0x0A # ''        '' @ rule) [
     ''QMainWindow { background-color: #1e1e1e; color: #ffffff; }'',
     ''QLabel, QCheckBox, QRadioButton, QGroupBox, QMenuBar, QMenu, QMenu::item { color: #ffffff; }'',
     ''QPushButton { background-color: #333; color: white; border: 1px solid #555; padding: 5px; }'',
     ''QPushButton:hover { background-color: #444; }'',
     ''QLineEdit, QComboBox, QPlainTextEdit, QTextEdit { background-color: #222; color: white; border: 1px solid #555; }'',
     ''QComboBox QAbstractItemView { background-color: #222; color: white; }'',
     ''QHeaderView::section { background-color: #2c2c2c; color: white; padding: 4px; border: 1px solid #444; }'',
     ''QTableWidget { background-color: #1e1e1e; color: white; gridline-color: #444; }'',
     ''QTableCornerButton::section { background-color: #2c2c2c; border: 1px solid #444; }'',
     ''QScrollBar:vertical, QScrollBar:horizontal { background-color: #2a2a2a; }'',
     ''QMenu { background-color: #2d2d2d; color: white; }'',
     ''QMenu::item:selected { background-color: #5050ff; }'',
     ''QMenuBar { background-color: #2d2d2d; color: white; }'',
     ''QMenuBar::item:selected { background-color: #5050ff; }'',
     ''QMenuBar::item:pressed { background-color: #3030a0; }'',
     ''QStatusBar { background-color: #1e1e1e; color: white; }'']) @ CHR 0x0A # ''    ''"

definition applyDarkTheme :: "('k, 'z) app_gui_scheme \<Rightarrow> ('k, 'z) app_gui_scheme" where
  "applyDarkTheme g = g\<lparr>app_palette := darkPalette, app_styleSheet := darkStyleSheet\<rparr>"

text \<open>\<open>standardPalette\<close> is what the widget style gives.\<close>

definition applyLightTheme :: "QPalette \<Rightarrow> ('k, 'z) app_gui_scheme \<Rightarrow> ('k, 'z) app_gui_scheme" where
  "applyLightTheme standardPalette g = g\<lparr>app_palette := standardPalette, app_styleSheet := []\<rparr>"

datatype theme_action = Trigger_dark | Trigger_light

fun handle_theme :: "QPalette \<Rightarrow> theme_action \<Rightarrow> ('k, 'z) app_gui_scheme \<Rightarrow> ('k, 'z) app_gui_scheme" where
  "handle_theme std Trigger_dark g = applyDarkTheme g"
| "handle_theme std Trigger_light g = applyLightTheme std g"

text \<open>The look after a sequence of theme actions is that of the last one, and the tables and filters are untouched.\<close>

lemma themes_last:
  "fold (handle_theme std) (ts @ [t]) g =
     g\<lparr>app_palette := (if t = Trigger_dark then darkPalette else std), app_styleSheet := (if t = Trigger_dark then darkStyleSheet else [])\<rparr>"
proof -
  have "\<exists>p s. fold (handle_theme std) ts g = g\<lparr>app_palette := p, app_styleSheet := s\<rparr>"
  proof (induction ts arbitrary: g)
    case Nil
    show ?case by (intro exI [of _ "app_palette g"] exI [of _ "app_styleSheet g"]) simp
  next
    case (Cons a ts)
    obtain p s where ps: "handle_theme std a g = g\<lparr>app_palette := p, app_styleSheet := s\<rparr>"
      by (cases a) (auto simp: applyDarkTheme_def applyLightTheme_def)
    from Cons.IH [of "g\<lparr>app_palette := p, app_styleSheet := s\<rparr>"] show ?case by (auto simp: ps)
  qed
  then show ?thesis by (cases t) (auto simp: applyDarkTheme_def applyLightTheme_def)
qed

subsection \<open>The build with USE\_STUB\<close>

text \<open>Setting the number of rows keeps the rows there are, with their hidden state.\<close>

definition stub_user :: "gui_user list \<Rightarrow> nat \<Rightarrow> string \<Rightarrow> string \<Rightarrow> string \<Rightarrow> string \<Rightarrow> gui_user" where
  "stub_user old i login status role seen =
     \<lparr>gu_login = login, gu_status = status, gu_role = role, gu_lastSeen = seen, gu_hidden = i < length old \<and> gu_hidden (old ! i)\<rparr>"

definition updateUsersFromServer_stub :: "('k, 'z) gui_scheme \<Rightarrow> ('k, 'z) gui_scheme" where
  "updateUsersFromServer_stub g =
     g\<lparr>tableUsers := [
        stub_user (tableUsers g) 0 ''alice'' ''online'' ''user'' ''10:05'',
        stub_user (tableUsers g) 1 ''bob'' ''offline'' ''moderator'' ''09:30'',
        stub_user (tableUsers g) 2 ''carol'' ''banned'' ''user'' ''11:15'']\<rparr>"

definition stub_message :: "gui_message list \<Rightarrow> nat \<Rightarrow> string \<Rightarrow> string \<Rightarrow> string \<Rightarrow> string \<Rightarrow> gui_message" where
  "stub_message old i sender receiver text time =
     \<lparr>gm_sender = sender, gm_receiver = receiver, gm_text = text, gm_time = time, gm_hidden = i < length old \<and> gm_hidden (old ! i)\<rparr>"

text \<open>\<open>iso_after n\<close> is the ISO text of the current time plus \<open>n\<close> seconds.\<close>

definition updateMessagesFromServer_stub ::
  "('k, 'q) qt_scheme \<Rightarrow> (int \<Rightarrow> string) \<Rightarrow> ('k, 'z) gui_scheme \<Rightarrow> ('k, 'z) gui_scheme" where
  "updateMessagesFromServer_stub q iso_after g =
     (let g1 = g\<lparr>tableMessages := [
            stub_message (tableMessages g) 0 ''alice'' ''all'' ''Hello everyone!'' (iso_after (- 3600)),
            stub_message (tableMessages g) 1 ''bob'' ''alice'' ''Hi Alice!'' (iso_after (- 1800)),
            stub_message (tableMessages g) 2 ''carol'' ''bob'' ''Secret message'' (iso_after (- 90000))]\<rparr>;
          dates = message_dates q (tableMessages g1)
      in filterMessages q (g1\<lparr>comboFilterDate := dates, filterDate := hd dates\<rparr>))"

text \<open>Each of the three statuses of the stub's users selects one of them.\<close>

lemma stub_status_filter:
  assumes "qt_lower q = (\<lambda>s. s)" "qt_trimmed q [] = []" "filterLogin g = []" "filterStatus g \<in> {''online'', ''offline'', ''banned''}"
  shows "map gu_status (filter (\<lambda>u. \<not> gu_hidden u) (tableUsers (filterUsers q (updateUsersFromServer_stub g)))) = [filterStatus g]"
proof -
  have "contains s []" for s by (cases s) simp_all
  note this [simp]
  from assms(4) consider "filterStatus g = ''online''" | "filterStatus g = ''offline''" | "filterStatus g = ''banned''" by auto
  then show ?thesis
    by cases (simp_all add: assms(1-3) filterUsers_def updateUsersFromServer_stub_def stub_user_def Let_def)
qed

end
