(* ===== verification/Unit_Tests.thy ===== *)
theory Unit_Tests
  imports Protocol_Props Auth_Policy
begin

text \<open>
  The programs of \<open>src/tests\<close> run on the model: the blocks of \<open>protocol_tests.cpp\<close> and the assertions of
  \<open>auth_policy_tests.cpp\<close> are boolean functions that evaluate to true.
\<close>

definition mk_MemorySocket :: "string \<Rightarrow> MemorySocket" where
  "mk_MemorySocket input = \<lparr>ms_input = input, ms_output = [], ms_readOffset = 0, ms_maxSendChunk = 2, ms_maxReceiveChunk = 2,
     ms_failSend = False\<rparr>"

subsection \<open>The decoder\<close>

definition test_partial_header :: bool where
  "test_partial_header =
     (let frame = encodeFrame ''hello'';
          d1 = dec_append (mk_FrameDecoder kDefaultMaxFrameSize) (Some (take 2 frame))
      in case nextFrame d1 of (s1, p1, d2) \<Rightarrow> s1 = FS_NeedMoreData
         \<and> (case nextFrame (dec_append d2 (Some (drop 2 frame))) of (s2, p2, d3) \<Rightarrow> s2 = FS_Ready \<and> p2 = ''hello''))"

definition test_two_frames :: bool where
  "test_two_frames =
     (let d = dec_append (dec_append (mk_FrameDecoder kDefaultMaxFrameSize) (Some (encodeFrame ''one''))) (Some (encodeFrame ''two''))
      in case nextFrame d of (s1, p1, d1) \<Rightarrow> s1 = FS_Ready \<and> p1 = ''one''
         \<and> (case nextFrame d1 of (s2, p2, d2) \<Rightarrow> s2 = FS_Ready \<and> p2 = ''two''
            \<and> fst (nextFrame d2) = FS_NeedMoreData))"

definition test_decoder_limit :: bool where
  "test_decoder_limit = (fst (nextFrame (dec_append (mk_FrameDecoder 3) (Some (encodeFrame ''too-large'')))) = FS_TooLarge)"

definition test_empty_decoder :: bool where
  "test_empty_decoder = (fst (nextFrame (mk_FrameDecoder kDefaultMaxFrameSize)) = FS_NeedMoreData)"

subsection \<open>Transfer over the MemorySocket\<close>

definition test_send_frame :: bool where
  "test_send_frame =
     (case sendFrame ms_send (mk_MemorySocket []) ''hello'' 5 of (ok, socket) \<Rightarrow> ok
      \<and> (case nextFrame (dec_append (mk_FrameDecoder kDefaultMaxFrameSize) (Some (ms_output socket))) of
           (s, p, d) \<Rightarrow> s = FS_Ready \<and> p = ''hello'')
      \<and> \<not> fst (sendFrame ms_send socket ''too-large'' 3))"

definition test_receive_frame :: bool where
  "test_receive_frame =
     (case receiveFrame ms_receive (mk_MemorySocket (encodeFrame ''receive'')) 64 of
        (s, p, socket) \<Rightarrow> s = RF_Ok \<and> p = ''receive'')"

definition test_receive_limit :: bool where
  "test_receive_limit = (fst (receiveFrame ms_receive (mk_MemorySocket (encodeFrame ''too-large'')) 3) = RF_TooLarge)"

subsection \<open>The policies\<close>

definition auth_policy_tests :: bool where
  "auth_policy_tests \<longleftrightarrow>
     \<not> policy_ok (validatePassword []) \<and> \<not> policy_ok (validatePassword ''short1'')
     \<and> \<not> policy_ok (validatePassword ''NoDigitsHere'') \<and> policy_ok (validatePassword ''Correct123'')
     \<and> \<not> isValidLogin ''ab'' \<and> \<not> isValidLogin ''bad login'' \<and> isValidLogin ''alice_1''"

lemma decoder_reads:
  assumes "dec_buffer d = encodeFrame p @ rest" "dec_maxFrameSize d = kDefaultMaxFrameSize" "length p \<le> 10"
  shows "nextFrame d = (FS_Ready, p, d\<lparr>dec_buffer := rest\<rparr>)"
  by (rule nextFrame_complete) (use assms in \<open>simp_all add: frame_ok_def kDefaultMaxFrameSize_def\<close>)

lemma decoder_waits: "length (dec_buffer d) < 4 \<Longrightarrow> nextFrame d = (FS_NeedMoreData, [], d)"
  by (simp add: nextFrame_def kFrameHeaderSize_def)

lemma decoder_tests_pass: "test_partial_header \<and> test_two_frames \<and> test_decoder_limit \<and> test_empty_decoder"
proof (intro conjI)
  have "encodeFrame ''hello'' \<noteq> []" "length (encodeFrame ''hello'') > 2" by code_simp+
  then show test_partial_header
    by (simp add: test_partial_header_def Let_def dec_append_def mk_FrameDecoder_def decoder_waits decoder_reads [where rest = "[]"])
  have "encodeFrame ''one'' \<noteq> []" "encodeFrame ''two'' \<noteq> []" by code_simp+
  then show test_two_frames
    by (simp add: test_two_frames_def Let_def dec_append_def mk_FrameDecoder_def decoder_waits
        decoder_reads [where p = "''one''" and rest = "encodeFrame ''two''"] decoder_reads [where p = "''two''" and rest = "[]"])
  show test_decoder_limit by code_simp
  show test_empty_decoder by (simp add: test_empty_decoder_def mk_FrameDecoder_def decoder_waits)
qed

lemma transfer_tests_pass: "test_send_frame \<and> test_receive_frame \<and> test_receive_limit"
proof (intro conjI)
  let ?s = "sendFrame ms_send (mk_MemorySocket []) ''hello'' 5"
  have "fst ?s" "ms_output (snd ?s) = encodeFrame ''hello''" "encodeFrame ''hello'' \<noteq> []" by code_simp+
  then show test_send_frame
    by (cases ?s) (simp add: test_send_frame_def dec_append_def mk_FrameDecoder_def decoder_reads [where rest = "[]"], simp add: sendFrame_def)
  show test_receive_frame test_receive_limit by code_simp+
qed

lemma auth_policy_tests_pass: "auth_policy_tests"
  by code_simp

end
